(* ===== verification/Pooler_Prelude.thy ===== *)
theory Pooler_Prelude
  imports Main "HOL-Library.Word" "HOL-Library.List_Lexorder" "HOL-Library.Char_ord"
    "HOL-Library.Option_ord" "HOL-Library.Product_Lexorder" "HOL-Library.Code_Target_Numeral"
begin

text \<open>
  What the components share: the Rust types the sources use (unsigned words with saturating
  arithmetic, \<open>Duration\<close> and \<open>Instant\<close>, the \<open>Ordering\<close> enum with \<open>max_by\<close> and \<open>min_by\<close>,
  \<open>HashMap\<close> and \<open>BTreeMap\<close>), each with the lemmas the component proofs rest on, and three
  interfaces: \<open>total_comparator\<close> (what a comparison closure promises to \<open>max_by\<close> and
  \<open>min_by\<close>), \<open>key_value_store\<close> (what a map promises to its client) and \<open>preserved_by\<close>
  (a step function that keeps an invariant, run over a list of operations).
\<close>

named_theorems saturation \<open>facts that read saturating word arithmetic as natural numbers\<close>
named_theorems comparators \<open>the comparison closures of the program obey the comparator laws\<close>

section \<open>Words, durations and instants\<close>

type_synonym u8 = "8 word"
type_synonym u16 = "16 word"
type_synonym u32 = "32 word"
type_synonym u64 = "64 word"

definition saturating_add :: "'a::len word \<Rightarrow> 'a word \<Rightarrow> 'a word" where
  "saturating_add x y = (if unat x + unat y < 2 ^ LENGTH('a) then x + y else - 1)"

definition saturating_sub :: "'a::len word \<Rightarrow> 'a word \<Rightarrow> 'a word" where
  "saturating_sub x y = (if y \<le> x then x - y else 0)"

definition saturating_mul :: "'a::len word \<Rightarrow> 'a word \<Rightarrow> 'a word" where
  "saturating_mul x y = (if unat x * unat y < 2 ^ LENGTH('a) then x * y else - 1)"

lemma unat_minus_one_eq [simp]: "unat (- 1 :: 'a::len word) = 2 ^ LENGTH('a) - 1"
  by (simp add: unat_eq_nat_uint unsigned_minus_1_eq_mask nat_mask_eq mask_eq_exp_minus_1
      nat_diff_distrib nat_power_eq)

lemma unat_saturating_add [saturation]:
  fixes x y :: "'a::len word"
  shows "unat (saturating_add x y) = min (unat x + unat y) (2 ^ LENGTH('a) - 1)"
proof (cases "unat x + unat y < 2 ^ LENGTH('a)")
  case True
  then show ?thesis by (simp add: saturating_add_def unat_word_ariths)
next
  case False
  then show ?thesis by (simp add: saturating_add_def unat_minus_one_eq)
qed

lemma unat_saturating_sub [saturation]: "unat (saturating_sub x y) = unat x - unat y"
  by (simp add: saturating_sub_def unat_sub word_le_nat_alt)

lemma unat_saturating_mul [saturation]:
  fixes x y :: "'a::len word"
  shows "unat (saturating_mul x y) = min (unat x * unat y) (2 ^ LENGTH('a) - 1)"
proof (cases "unat x * unat y < 2 ^ LENGTH('a)")
  case True
  then show ?thesis by (simp add: saturating_mul_def unat_word_ariths)
next
  case False
  then show ?thesis by (simp add: saturating_mul_def unat_minus_one_eq)
qed

lemma unat_saturating_add_one:
  assumes "x \<noteq> (- 1 :: 'a::len word)"
  shows "unat (saturating_add x 1) = unat x + 1"
proof -
  from assms have "unat x \<noteq> 2 ^ LENGTH('a) - 1"
    by (metis unat_minus_one_eq word_unat_eq_iff)
  then have "unat x + 1 \<le> 2 ^ LENGTH('a) - 1"
    using unsigned_less [of x, where 'a = nat] by linarith
  then show ?thesis by (simp add: saturation)
qed

lemma saturating_sub_add_cancel:
  "x \<noteq> - 1 \<Longrightarrow> saturating_sub (saturating_add x 1) 1 = (x :: 'a::len word)"
  by (simp add: word_unat_eq_iff unat_saturating_sub unat_saturating_add_one)

lemma unat_ucast_u32 [simp]: "unat (ucast (x :: u32) :: u64) = unat x"
  using unsigned_less [of x, where 'a = nat]
  by (simp add: unsigned_ucast_eq take_bit_nat_eq_self)

text \<open>
  A \<open>Duration\<close> is a number of nanoseconds, at most \<open>u64::MAX\<close> seconds and 999999999 of them.
  An \<open>Instant\<close> is a number of nanoseconds on the monotonic clock, whose seconds are an
  \<open>i64\<close> on the platforms the program supports.
\<close>

type_synonym duration = nat
type_synonym instant = int

definition nanos_per_sec :: nat where "nanos_per_sec = 1000000000"

definition duration_max :: duration where
  "duration_max = (2 ^ 64 - 1) * nanos_per_sec + 999999999"

definition from_secs :: "nat \<Rightarrow> duration" where "from_secs s = s * nanos_per_sec"

definition from_millis :: "nat \<Rightarrow> duration" where "from_millis m = m * 1000000"

definition duration_add :: "duration \<Rightarrow> duration \<Rightarrow> duration" where
  "duration_add a b = min (a + b) duration_max"

definition duration_mul :: "duration \<Rightarrow> nat \<Rightarrow> duration" where
  "duration_mul a n = min (a * n) duration_max"

definition instant_max :: instant where "instant_max = 2 ^ 63 * 1000000000 - 1"

definition instant_min :: instant where "instant_min = - (2 ^ 63) * 1000000000"

definition instant_checked_add :: "instant \<Rightarrow> duration \<Rightarrow> instant option" where
  "instant_checked_add t d = (if t + int d \<le> instant_max then Some (t + int d) else None)"

definition instant_checked_sub :: "instant \<Rightarrow> duration \<Rightarrow> instant option" where
  "instant_checked_sub t d = (if instant_min \<le> t - int d then Some (t - int d) else None)"

definition saturating_duration_since :: "instant \<Rightarrow> instant \<Rightarrow> duration" where
  "saturating_duration_since t s = nat (t - s)"

lemma duration_add_le: "duration_add a b \<le> l \<Longrightarrow> l < duration_max \<Longrightarrow> a + b \<le> l"
  by (simp add: duration_add_def)

lemma instant_checked_add_ge: "instant_checked_add t d = Some u \<Longrightarrow> t \<le> u"
  by (auto simp: instant_checked_add_def split: if_splits)

section \<open>Orderings and the comparison closures\<close>

datatype ordering = Less | Equal | Greater

definition cmp :: "'a::linorder \<Rightarrow> 'a \<Rightarrow> ordering" where
  "cmp x y = (if x < y then Less else if x = y then Equal else Greater)"

fun then_with :: "ordering \<Rightarrow> ordering \<Rightarrow> ordering" where
  "then_with Equal d = d"
| "then_with Less d = Less"
| "then_with Greater d = Greater"

fun flip :: "ordering \<Rightarrow> ordering" where
  "flip Less = Greater"
| "flip Equal = Equal"
| "flip Greater = Less"

text \<open>\<open>Iterator::max_by\<close> returns the last of several greatest elements, \<open>min_by\<close> the first of
  several least ones; both are \<open>None\<close> on an empty iterator.\<close>

fun max_by :: "('a \<Rightarrow> 'a \<Rightarrow> ordering) \<Rightarrow> 'a list \<Rightarrow> 'a option" where
  "max_by c [] = None"
| "max_by c (x # xs) = Some (foldl (\<lambda>best y. if c best y = Greater then best else y) x xs)"

fun min_by :: "('a \<Rightarrow> 'a \<Rightarrow> ordering) \<Rightarrow> 'a list \<Rightarrow> 'a option" where
  "min_by c [] = None"
| "min_by c (x # xs) = Some (foldl (\<lambda>best y. if c best y = Greater then y else best) x xs)"

lemma cmp_simps [simp]:
  "cmp x x = Equal"
  "cmp x y = Less \<longleftrightarrow> x < y"
  "cmp x y = Equal \<longleftrightarrow> x = y"
  "cmp x y = Greater \<longleftrightarrow> y < x"
  by (auto simp: cmp_def)

lemma flip_cmp: "flip (cmp x y) = cmp y x"
  by (auto simp: cmp_def)

lemma flip_then_with: "flip (then_with a b) = then_with (flip a) (flip b)"
  by (cases a) simp_all

lemma then_with_Greater [simp]:
  "then_with a b = Greater \<longleftrightarrow> a = Greater \<or> (a = Equal \<and> b = Greater)"
  by (cases a) simp_all

lemma then_with_Less [simp]:
  "then_with a b = Less \<longleftrightarrow> a = Less \<or> (a = Equal \<and> b = Less)"
  by (cases a) simp_all

lemma then_with_Equal [simp]: "then_with a b = Equal \<longleftrightarrow> a = Equal \<and> b = Equal"
  by (cases a) simp_all

lemma flip_eq [simp]:
  "flip a = Less \<longleftrightarrow> a = Greater" "flip a = Equal \<longleftrightarrow> a = Equal" "flip a = Greater \<longleftrightarrow> a = Less"
  by (cases a; simp)+

lemma foldl_choice_mem:
  "foldl (\<lambda>best y. if P best y then best else y) x xs \<in> set (x # xs)"
proof (induction xs arbitrary: x)
  case (Cons y ys)
  then show ?case using Cons.IH [of x] Cons.IH [of y] by auto
qed simp

lemma foldl_choice_mem':
  "foldl (\<lambda>best y. if P best y then y else best) x xs \<in> set (x # xs)"
proof (induction xs arbitrary: x)
  case (Cons y ys)
  then show ?case using Cons.IH [of x] Cons.IH [of y] by auto
qed simp

lemma max_by_mem: "max_by c xs = Some m \<Longrightarrow> m \<in> set xs"
  using foldl_choice_mem [of "\<lambda>b y. c b y = Greater"] by (cases xs) (auto simp del: list.set)

lemma min_by_mem: "min_by c xs = Some m \<Longrightarrow> m \<in> set xs"
  using foldl_choice_mem' [of "\<lambda>b y. c b y = Greater"] by (cases xs) (auto simp del: list.set)

lemma max_by_Some: "xs \<noteq> [] \<Longrightarrow> \<exists>m. max_by c xs = Some m"
  by (cases xs) simp_all

lemma min_by_Some: "xs \<noteq> [] \<Longrightarrow> \<exists>m. min_by c xs = Some m"
  by (cases xs) simp_all

lemma foldl_choice_same:
  "P best \<Longrightarrow> (\<And>b y. P b \<Longrightarrow> y \<in> set xs \<Longrightarrow> P (f b y)) \<Longrightarrow> P (foldl f best xs)"
  by (induction xs arbitrary: best) auto

text \<open>
  What a comparison closure promises on the elements it is applied to: swapping the arguments
  flips the result, and ``not greater'' is transitive. Under these laws \<open>max_by\<close> and
  \<open>min_by\<close> really return an extreme element.
\<close>

locale total_comparator =
  fixes c :: "'a \<Rightarrow> 'a \<Rightarrow> ordering" and S :: "'a set"
  assumes c_swap: "x \<in> S \<Longrightarrow> y \<in> S \<Longrightarrow> c y x = flip (c x y)"
    and c_trans: "x \<in> S \<Longrightarrow> y \<in> S \<Longrightarrow> z \<in> S \<Longrightarrow>
      c x y \<noteq> Greater \<Longrightarrow> c y z \<noteq> Greater \<Longrightarrow> c x z \<noteq> Greater"
begin

lemma c_refl: "x \<in> S \<Longrightarrow> c x x = Equal"
  using c_swap [of x x] by (cases "c x x") simp_all

lemma c_le_Greater: "x \<in> S \<Longrightarrow> y \<in> S \<Longrightarrow> c x y = Greater \<Longrightarrow> c y x \<noteq> Greater"
  using c_swap [of x y] by simp

lemma max_by_foldl:
  "x \<in> S \<Longrightarrow> set xs \<subseteq> S \<Longrightarrow> z \<in> set (x # xs) \<Longrightarrow>
    c z (foldl (\<lambda>best y. if c best y = Greater then best else y) x xs) \<noteq> Greater"
proof (induction xs arbitrary: x z)
  case Nil
  then show ?case by (simp add: c_refl)
next
  case (Cons y ys)
  let ?b = "if c x y = Greater then x else y"
  let ?m = "foldl (\<lambda>best y. if c best y = Greater then best else y) ?b ys"
  have b: "?b \<in> S" and ys: "set ys \<subseteq> S" using Cons.prems by auto
  have m: "?m \<in> S" using foldl_choice_mem [of "\<lambda>b y. c b y = Greater" ?b ys] b ys by auto
  have top: "c ?b ?m \<noteq> Greater" by (rule Cons.IH [OF b ys]) simp
  have "c x ?b \<noteq> Greater" "c y ?b \<noteq> Greater"
    using Cons.prems c_refl c_le_Greater [of x y] by auto
  then have "c x ?m \<noteq> Greater" "c y ?m \<noteq> Greater"
    using c_trans [of x ?b ?m] c_trans [of y ?b ?m] top b m Cons.prems by auto
  moreover have "w \<in> set ys \<Longrightarrow> c w ?m \<noteq> Greater" for w
    by (rule Cons.IH [OF b ys]) simp
  ultimately show ?case using Cons.prems(3) by auto
qed

lemma min_by_foldl:
  "x \<in> S \<Longrightarrow> set xs \<subseteq> S \<Longrightarrow> z \<in> set (x # xs) \<Longrightarrow>
    c (foldl (\<lambda>best y. if c best y = Greater then y else best) x xs) z \<noteq> Greater"
proof (induction xs arbitrary: x z)
  case Nil
  then show ?case by (simp add: c_refl)
next
  case (Cons y ys)
  let ?b = "if c x y = Greater then y else x"
  let ?m = "foldl (\<lambda>best y. if c best y = Greater then y else best) ?b ys"
  have b: "?b \<in> S" and ys: "set ys \<subseteq> S" using Cons.prems by auto
  have m: "?m \<in> S" using foldl_choice_mem' [of "\<lambda>b y. c b y = Greater" ?b ys] b ys by auto
  have low: "c ?m ?b \<noteq> Greater" by (rule Cons.IH [OF b ys]) simp
  have "c ?b x \<noteq> Greater" "c ?b y \<noteq> Greater"
    using Cons.prems c_refl c_le_Greater [of x y] by auto
  then have "c ?m x \<noteq> Greater" "c ?m y \<noteq> Greater"
    using c_trans [of ?m ?b x] c_trans [of ?m ?b y] low b m Cons.prems by auto
  moreover have "w \<in> set ys \<Longrightarrow> c ?m w \<noteq> Greater" for w
    by (rule Cons.IH [OF b ys]) simp
  ultimately show ?case using Cons.prems(3) by auto
qed

lemma max_by_greatest:
  "max_by c xs = Some m \<Longrightarrow> set xs \<subseteq> S \<Longrightarrow> z \<in> set xs \<Longrightarrow> c z m \<noteq> Greater"
  using max_by_foldl by (cases xs) auto

lemma min_by_least:
  "min_by c xs = Some m \<Longrightarrow> set xs \<subseteq> S \<Longrightarrow> z \<in> set xs \<Longrightarrow> c m z \<noteq> Greater"
  using min_by_foldl by (cases xs) auto

end

lemma total_comparator_key [comparators]: "total_comparator (\<lambda>x y. cmp (f x) (f y)) S"
  by unfold_locales (auto simp: flip_cmp)

lemma total_comparator_rev:
  assumes "total_comparator c S"
  shows "total_comparator (\<lambda>x y. c y x) S"
proof -
  note sw = total_comparator.c_swap [OF assms] and tr = total_comparator.c_trans [OF assms]
  show ?thesis
  proof
    show "x \<in> S \<Longrightarrow> y \<in> S \<Longrightarrow> c x y = flip (c y x)" for x y by (rule sw)
    show "x \<in> S \<Longrightarrow> y \<in> S \<Longrightarrow> z \<in> S \<Longrightarrow> c y x \<noteq> Greater \<Longrightarrow> c z y \<noteq> Greater \<Longrightarrow> c z x \<noteq> Greater"
      for x y z using tr [of z y x] by blast
  qed
qed

lemma total_comparator_then:
  assumes c: "total_comparator c S" and d: "total_comparator d S"
  shows "total_comparator (\<lambda>x y. then_with (c x y) (d x y)) S"
proof -
  note cs = total_comparator.c_swap [OF c] and ct = total_comparator.c_trans [OF c]
  note ds = total_comparator.c_swap [OF d] and dt = total_comparator.c_trans [OF d]
  show ?thesis
  proof
    fix x y assume "x \<in> S" "y \<in> S"
    then show "then_with (c y x) (d y x) = flip (then_with (c x y) (d x y))"
      by (simp add: cs [of x y] ds [of x y] flip_then_with)
  next
    fix x y z
    assume S: "x \<in> S" "y \<in> S" "z \<in> S"
      and xy: "then_with (c x y) (d x y) \<noteq> Greater" and yz: "then_with (c y z) (d y z) \<noteq> Greater"
    have cxz: "c x z \<noteq> Greater" using xy yz ct [OF S] by auto
    have "d x z \<noteq> Greater" if "c x z = Equal"
    proof -
      have "c z x \<noteq> Greater" using that cs [OF S(1,3)] by simp
      then have "c z y \<noteq> Greater" "c y x \<noteq> Greater"
        using ct [OF S(3,1,2)] ct [OF S(2,3,1)] xy yz by auto
      then have "c x y = Equal" "c y z = Equal"
        using cs [OF S(1,2)] cs [OF S(2,3)] xy yz by (cases "c x y"; cases "c y z"; simp)+
      then show ?thesis using xy yz dt [OF S] by auto
    qed
    then show "then_with (c x z) (d x z) \<noteq> Greater" using cxz by auto
  qed
qed

section \<open>Positions in a list\<close>

fun position :: "('a \<Rightarrow> bool) \<Rightarrow> 'a list \<Rightarrow> nat option" where
  "position P [] = None"
| "position P (x # xs) = (if P x then Some 0 else map_option Suc (position P xs))"

definition usize_max :: nat where "usize_max = 2 ^ 64 - 1"

section \<open>Strings\<close>

text \<open>
  A string is the list of its UTF-8 bytes. The operations below work on bytes in Rust too:
  \<open>starts_with\<close> and \<open>contains\<close> compare bytes and \<open>to_ascii_lowercase\<close> changes only
  the letters A to Z.
\<close>

definition starts_with :: "string \<Rightarrow> string \<Rightarrow> bool" where
  "starts_with v p \<longleftrightarrow> take (length p) v = p"

fun str_contains :: "string \<Rightarrow> string \<Rightarrow> bool" where
  "str_contains [] needle = (needle = [])"
| "str_contains (c # cs) needle = (starts_with (c # cs) needle \<or> str_contains cs needle)"

definition ascii_lower :: "char \<Rightarrow> char" where
  "ascii_lower c =
     (let n = of_char c :: nat in if 65 \<le> n \<and> n \<le> 90 then char_of (n + 32) else c)"

definition to_ascii_lowercase :: "string \<Rightarrow> string" where
  "to_ascii_lowercase v = map ascii_lower v"

text \<open>
  \<open>trim\<close> removes leading and trailing characters with the Unicode property \<open>White_Space\<close>, listed
  here by their UTF-8 encodings. No encoding is a proper prefix or suffix of another character's,
  so stripping whole encodings from either end strips whole characters.
\<close>

definition utf8_whitespace :: "string list" where
  "utf8_whitespace =
     [[CHR 0x09], [CHR 0x0A], [CHR 0x0B], [CHR 0x0C], [CHR 0x0D], [CHR 0x20],
      [CHR 0xC2, CHR 0x85], [CHR 0xC2, CHR 0xA0], [CHR 0xE1, CHR 0x9A, CHR 0x80],
      [CHR 0xE2, CHR 0x80, CHR 0x80], [CHR 0xE2, CHR 0x80, CHR 0x81],
      [CHR 0xE2, CHR 0x80, CHR 0x82], [CHR 0xE2, CHR 0x80, CHR 0x83],
      [CHR 0xE2, CHR 0x80, CHR 0x84], [CHR 0xE2, CHR 0x80, CHR 0x85],
      [CHR 0xE2, CHR 0x80, CHR 0x86], [CHR 0xE2, CHR 0x80, CHR 0x87],
      [CHR 0xE2, CHR 0x80, CHR 0x88], [CHR 0xE2, CHR 0x80, CHR 0x89],
      [CHR 0xE2, CHR 0x80, CHR 0x8A], [CHR 0xE2, CHR 0x80, CHR 0xA8],
      [CHR 0xE2, CHR 0x80, CHR 0xA9], [CHR 0xE2, CHR 0x80, CHR 0xAF],
      [CHR 0xE2, CHR 0x81, CHR 0x9F], [CHR 0xE3, CHR 0x80, CHR 0x80]]"

function strip_prefixes :: "string list \<Rightarrow> string \<Rightarrow> string" where
  "strip_prefixes ps v =
     (case find (\<lambda>p. p \<noteq> [] \<and> starts_with v p) ps of
        None \<Rightarrow> v
      | Some p \<Rightarrow> strip_prefixes ps (drop (length p) v))"
  by pat_completeness auto
termination
proof (relation "measure (\<lambda>(ps, v). length v)")
  fix ps v p
  assume "find (\<lambda>p. p \<noteq> [] \<and> starts_with v p) ps = Some p"
  then have "p \<noteq> []" "take (length p) v = p" by (auto simp: find_Some_iff starts_with_def)
  then have "v \<noteq> []" "p \<noteq> []" by auto
  then show "((ps, drop (length p) v), ps, v) \<in> measure (\<lambda>(ps, v). length v)" by simp
qed simp

declare strip_prefixes.simps [simp del]

definition trim :: "string \<Rightarrow> string" where
  "trim v =
     rev (strip_prefixes (map rev utf8_whitespace) (rev (strip_prefixes utf8_whitespace v)))"

definition is_ascii_digit :: "char \<Rightarrow> bool" where
  "is_ascii_digit c \<longleftrightarrow> (let n = of_char c :: nat in 48 \<le> n \<and> n \<le> 57)"

definition is_ascii_alphanumeric :: "char \<Rightarrow> bool" where
  "is_ascii_alphanumeric c \<longleftrightarrow>
     (let n = of_char c :: nat in
      (48 \<le> n \<and> n \<le> 57) \<or> (65 \<le> n \<and> n \<le> 90) \<or> (97 \<le> n \<and> n \<le> 122))"

definition is_ascii_hexdigit :: "char \<Rightarrow> bool" where
  "is_ascii_hexdigit c \<longleftrightarrow>
     (let n = of_char c :: nat in
      (48 \<le> n \<and> n \<le> 57) \<or> (65 \<le> n \<and> n \<le> 70) \<or> (97 \<le> n \<and> n \<le> 102))"

lemma str_contains_iff: "str_contains v needle \<longleftrightarrow> (\<exists>a b. v = a @ needle @ b)"
proof (induction v)
  case (Cons c cs)
  have "starts_with (c # cs) needle \<longleftrightarrow> (\<exists>b. c # cs = needle @ b)"
    unfolding starts_with_def by (metis append_eq_conv_conj append_take_drop_id)
  moreover have "(\<exists>a b. c # cs = a @ needle @ b) \<longleftrightarrow>
      (\<exists>b. c # cs = needle @ b) \<or> (\<exists>a b. cs = a @ needle @ b)"
    by (metis append_Cons append_Nil neq_Nil_conv list.inject)
  ultimately show ?case using Cons.IH by simp
qed auto

section \<open>Maps\<close>

text \<open>
  A map is the list of its entries. A \<open>HashMap\<close> keeps them in any order and distinct by key; a
  \<open>BTreeMap\<close> keeps them in strictly ascending key order, which is the order its iterators use.
  \<open>map_of\<close> is \<open>get\<close>, \<open>filter\<close> is \<open>retain\<close>.
\<close>

fun hash_insert :: "'k \<Rightarrow> 'v \<Rightarrow> ('k \<times> 'v) list \<Rightarrow> ('k \<times> 'v) list" where
  "hash_insert k v [] = [(k, v)]"
| "hash_insert k v (e # m) = (if fst e = k then (k, v) # m else e # hash_insert k v m)"

fun btree_insert :: "'k::linorder \<Rightarrow> 'v \<Rightarrow> ('k \<times> 'v) list \<Rightarrow> ('k \<times> 'v) list" where
  "btree_insert k v [] = [(k, v)]"
| "btree_insert k v (e # m) =
     (if k < fst e then (k, v) # e # m
      else if fst e = k then (k, v) # m
      else e # btree_insert k v m)"

definition map_remove :: "'k \<Rightarrow> ('k \<times> 'v) list \<Rightarrow> ('k \<times> 'v) list" where
  "map_remove k m = filter (\<lambda>e. fst e \<noteq> k) m"

definition map_modify :: "'k \<Rightarrow> ('v \<Rightarrow> 'v) \<Rightarrow> ('k \<times> 'v) list \<Rightarrow> ('k \<times> 'v) list" where
  "map_modify k f m = map (\<lambda>e. (fst e, if fst e = k then f (snd e) else snd e)) m"

text \<open>\<open>entry(k).or_insert(d)\<close> followed by an update of the entry.\<close>

definition hash_upsert :: "'k \<Rightarrow> 'v \<Rightarrow> ('v \<Rightarrow> 'v) \<Rightarrow> ('k \<times> 'v) list \<Rightarrow> ('k \<times> 'v) list" where
  "hash_upsert k d f m = hash_insert k (f (case map_of m k of None \<Rightarrow> d | Some v \<Rightarrow> v)) m"

abbreviation keys :: "('k \<times> 'v) list \<Rightarrow> 'k list" where "keys m \<equiv> map fst m"

definition hash_ok :: "('k \<times> 'v) list \<Rightarrow> bool" where
  "hash_ok m \<longleftrightarrow> distinct (keys m)"

definition btree_ok :: "('k::linorder \<times> 'v) list \<Rightarrow> bool" where
  "btree_ok m \<longleftrightarrow> sorted_wrt (<) (keys m)"

lemma map_of_modify:
  "map_of (map_modify k f m) a = (if a = k then map_option f (map_of m a) else map_of m a)"
  by (induction m) (auto simp: map_modify_def)

lemma keys_modify [simp]: "keys (map_modify k f m) = keys m"
  by (simp add: map_modify_def)

lemma map_of_remove: "map_of (map_remove k m) a = (if a = k then None else map_of m a)"
  by (induction m) (auto simp: map_remove_def)

lemma map_of_map_values: "map_of (map (\<lambda>e. (fst e, f (snd e))) m) a = map_option f (map_of m a)"
  by (induction m) auto

lemma map_of_filter_distinct:
  "distinct (keys m) \<Longrightarrow> map_of (filter P m) k =
    (case map_of m k of None \<Rightarrow> None | Some v \<Rightarrow> if P (k, v) then Some v else None)"
proof (induction m)
  case (Cons e m)
  have "fst e \<notin> set (keys m)" using Cons.prems by simp
  then have "map_of m (fst e) = None" by (simp add: map_of_eq_None_iff)
  then show ?case using Cons by (cases e) auto
qed simp

text \<open>The interface of a map: which lists are well formed and what insertion does.\<close>

locale key_value_store =
  fixes ok :: "('k \<times> 'v) list \<Rightarrow> bool" and ins :: "'k \<Rightarrow> 'v \<Rightarrow> ('k \<times> 'v) list \<Rightarrow> ('k \<times> 'v) list"
  assumes ok_Nil [simp]: "ok []"
    and ok_distinct: "ok m \<Longrightarrow> distinct (keys m)"
    and ok_filter: "ok m \<Longrightarrow> ok (filter P m)"
    and ok_keys: "keys m' = keys m \<Longrightarrow> ok m \<Longrightarrow> ok m'"
    and ok_insert: "ok m \<Longrightarrow> ok (ins k v m)"
    and get_insert: "ok m \<Longrightarrow> map_of (ins k v m) = (map_of m)(k \<mapsto> v)"
begin

lemma mem_iff: "ok m \<Longrightarrow> (k, v) \<in> set m \<longleftrightarrow> map_of m k = Some v"
  by (auto dest: ok_distinct map_of_SomeD)

lemma set_insert: "ok m \<Longrightarrow> set (ins k v m) = Set.insert (k, v) {e \<in> set m. fst e \<noteq> k}"
  by (auto simp: mem_iff ok_insert get_insert split: if_splits)

lemma keys_insert: "ok m \<Longrightarrow> set (keys (ins k v m)) = Set.insert k (set (keys m))"
  by (force simp: set_insert)

lemma length_insert:
  assumes "ok m"
  shows "length (ins k v m) = (if k \<in> set (keys m) then length m else Suc (length m))"
proof -
  have "length (keys (ins k v m)) = card (Set.insert k (set (keys m)))"
    using assms by (metis distinct_card keys_insert ok_distinct ok_insert)
  moreover have "length (keys m) = card (set (keys m))"
    using assms by (metis distinct_card ok_distinct)
  ultimately show ?thesis by (simp add: card_insert_if)
qed

lemma get_filter:
  assumes "ok m"
  shows "map_of (filter P m) k =
    (case map_of m k of None \<Rightarrow> None | Some v \<Rightarrow> if P (k, v) then Some v else None)"
  using assms by (simp add: map_of_filter_distinct ok_distinct)

lemma ok_modify: "ok m \<Longrightarrow> ok (map_modify k f m)"
  by (rule ok_keys) auto

lemma ok_remove: "ok m \<Longrightarrow> ok (map_remove k m)"
  by (simp add: map_remove_def ok_filter)

end

lemma map_of_hash_insert: "map_of (hash_insert k v m) = (map_of m)(k \<mapsto> v)"
  by (induction m) auto

lemma keys_hash_insert: "set (keys (hash_insert k v m)) = insert k (set (keys m))"
  by (induction m) auto

lemma hash_ok_insert: "hash_ok m \<Longrightarrow> hash_ok (hash_insert k v m)"
  by (induction m) (auto simp: hash_ok_def keys_hash_insert simp del: set_map)

interpretation hash: key_value_store hash_ok hash_insert
proof
  show "hash_ok m \<Longrightarrow> hash_ok (filter P m)" for P and m :: "('k \<times> 'v) list"
    by (simp add: hash_ok_def distinct_map_filter)
qed (auto simp: map_of_hash_insert hash_ok_insert, auto simp: hash_ok_def)

lemma map_of_hash_upsert:
  "map_of (hash_upsert k d f m) =
     (map_of m)(k \<mapsto> f (case map_of m k of None \<Rightarrow> d | Some v \<Rightarrow> v))"
  by (simp add: hash_upsert_def map_of_hash_insert)

lemma hash_ok_upsert: "hash_ok m \<Longrightarrow> hash_ok (hash_upsert k d f m)"
  by (simp add: hash_upsert_def hash_ok_insert)

text \<open>A property of all values of a map, and what keeps it.\<close>

definition all_values :: "('v \<Rightarrow> bool) \<Rightarrow> ('k \<times> 'v) list \<Rightarrow> bool" where
  "all_values P m \<longleftrightarrow> (\<forall>e \<in> set m. P (snd e))"

lemma all_values_simps [simp]:
  "all_values P []"
  "all_values P m \<Longrightarrow> all_values P (filter Q m)"
  "all_values P m \<Longrightarrow> all_values P (map_remove k m)"
  by (auto simp: all_values_def map_remove_def)

lemma all_values_modify:
  "all_values P m \<Longrightarrow> (\<And>v. P v \<Longrightarrow> P (f v)) \<Longrightarrow> all_values P (map_modify k f m)"
  by (auto simp: all_values_def map_modify_def)

lemma all_values_hash_insert:
  "all_values P m \<Longrightarrow> P v \<Longrightarrow> all_values P (hash_insert k v m)"
  by (induction m) (simp_all add: all_values_def)

lemma all_values_get: "all_values P m \<Longrightarrow> map_of m k = Some v \<Longrightarrow> P v"
  by (auto simp: all_values_def dest!: map_of_SomeD)

lemma all_values_hash_upsert:
  assumes "all_values P m" "P d" "\<And>v. P v \<Longrightarrow> P (f v)"
  shows "all_values P (hash_upsert k d f m)"
proof (cases "map_of m k")
  case None
  then show ?thesis using assms by (simp add: hash_upsert_def all_values_hash_insert)
next
  case (Some v)
  then have "P v" using all_values_get assms(1) by metis
  then show ?thesis using assms Some by (simp add: hash_upsert_def all_values_hash_insert)
qed

lemmas all_values_intros = all_values_modify all_values_hash_insert all_values_hash_upsert

lemma keys_btree_insert: "set (keys (btree_insert k v m)) = insert k (set (keys m))"
  by (induction m) auto

lemma btree_ok_insert: "btree_ok m \<Longrightarrow> btree_ok (btree_insert k v m)"
proof (induction m)
  case (Cons e m)
  show ?case
  proof (cases "fst e < k")
    case True
    moreover have "sorted_wrt (<) (keys (btree_insert k v m))"
      using Cons by (simp add: btree_ok_def)
    moreover have "\<forall>a \<in> set (keys (btree_insert k v m)). fst e < a"
      using True Cons.prems by (auto simp: keys_btree_insert btree_ok_def simp del: set_map)
    ultimately show ?thesis by (auto simp: btree_ok_def)
  next
    case False
    then show ?thesis using Cons.prems by (auto simp: btree_ok_def)
  qed
qed (simp add: btree_ok_def)

lemma map_of_btree_insert: "btree_ok m \<Longrightarrow> map_of (btree_insert k v m) = (map_of m)(k \<mapsto> v)"
proof (induction m)
  case (Cons e m)
  then show ?case by (auto simp: btree_ok_def fun_eq_iff)
qed simp

interpretation btree: key_value_store btree_ok btree_insert
proof
  show "btree_ok m \<Longrightarrow> btree_ok (filter P m)" for P and m :: "('k::linorder \<times> 'v) list"
    by (induction m) (auto simp: btree_ok_def)
  show "btree_ok m \<Longrightarrow> distinct (keys m)" for m :: "('k::linorder \<times> 'v) list"
    by (simp add: btree_ok_def strict_sorted_iff)
qed (auto simp: map_of_btree_insert btree_ok_insert, auto simp: btree_ok_def)

text \<open>A map in key order is determined by its lookups.\<close>

lemma map_keys_get: "distinct (keys m) \<Longrightarrow> map (\<lambda>k. (k, the (map_of m k))) (keys m) = m"
  by (auto simp: comp_def intro!: map_idI)

lemma btree_ext:
  assumes "btree_ok m" "btree_ok n" "map_of m = map_of n"
  shows "m = n"
proof -
  have "keys m = keys n"
    using assms strict_sorted_equal [of "keys m" "keys n"] dom_map_of_conv_image_fst
    by (metis btree_ok_def set_map)
  then show ?thesis using assms map_keys_get btree.ok_distinct by metis
qed

section \<open>Runs\<close>

text \<open>A component whose every operation keeps an invariant keeps it over every run.\<close>

locale preserved_by =
  fixes step :: "'op \<Rightarrow> 's \<Rightarrow> 's" and inv :: "'s \<Rightarrow> bool"
  assumes step_inv: "inv s \<Longrightarrow> inv (step a s)"
begin

lemma run_inv: "inv s \<Longrightarrow> inv (fold step as s)"
  by (induction as arbitrary: s) (auto simp: step_inv)

end

end
