(* ===== verification/Capabilities.thy ===== *)
theory Capabilities
  imports Pooler_Prelude
begin

unbundle bit_operations_syntax

text \<open>
  Capability sets (\<open>pooler-core/src/capabilities.rs\<close>): a set of capabilities as the bits of a
  \<open>u64\<close>. The abstraction \<open>cap_set\<close> reads the bits as a set, and every bit operation is
  shown to implement the set operation it is named after.
\<close>

datatype capability =
    Text | Images | Audio | Files | Tools | Reasoning | Streaming | Usage
  | StructuredOutput | JsonSchema | FunctionCalling | ToolChoice | CacheHints
  | Continuation | ResponseMetadata | EncryptedReasoning | Refusal | ErrorEvents
  | InputAudio | OutputAudio | CodeExecution | ComputerUse | Batch | Embeddings | Sse
  | WebSocket | ConnectRpc | Protobuf | ImageGeneration

fun cap_index :: "capability \<Rightarrow> nat" where
  "cap_index Text = 0"
| "cap_index Images = 1"
| "cap_index Audio = 2"
| "cap_index Files = 3"
| "cap_index Tools = 4"
| "cap_index Reasoning = 5"
| "cap_index Streaming = 6"
| "cap_index Usage = 7"
| "cap_index StructuredOutput = 8"
| "cap_index JsonSchema = 9"
| "cap_index FunctionCalling = 10"
| "cap_index ToolChoice = 11"
| "cap_index CacheHints = 12"
| "cap_index Continuation = 13"
| "cap_index ResponseMetadata = 14"
| "cap_index EncryptedReasoning = 15"
| "cap_index Refusal = 16"
| "cap_index ErrorEvents = 17"
| "cap_index InputAudio = 18"
| "cap_index OutputAudio = 19"
| "cap_index CodeExecution = 20"
| "cap_index ComputerUse = 21"
| "cap_index Batch = 22"
| "cap_index Embeddings = 23"
| "cap_index Sse = 24"
| "cap_index WebSocket = 25"
| "cap_index ConnectRpc = 26"
| "cap_index Protobuf = 27"
| "cap_index ImageGeneration = 28"

fun cap_as_str :: "capability \<Rightarrow> string" where
  "cap_as_str Text = ''text''"
| "cap_as_str Images = ''images''"
| "cap_as_str Audio = ''audio''"
| "cap_as_str Files = ''files''"
| "cap_as_str Tools = ''tools''"
| "cap_as_str Reasoning = ''reasoning''"
| "cap_as_str Streaming = ''streaming''"
| "cap_as_str Usage = ''usage''"
| "cap_as_str StructuredOutput = ''structured_output''"
| "cap_as_str JsonSchema = ''json_schema''"
| "cap_as_str FunctionCalling = ''function_calling''"
| "cap_as_str ToolChoice = ''tool_choice''"
| "cap_as_str CacheHints = ''cache_hints''"
| "cap_as_str Continuation = ''continuation''"
| "cap_as_str ResponseMetadata = ''response_metadata''"
| "cap_as_str EncryptedReasoning = ''encrypted_reasoning''"
| "cap_as_str Refusal = ''refusal''"
| "cap_as_str ErrorEvents = ''error_events''"
| "cap_as_str InputAudio = ''input_audio''"
| "cap_as_str OutputAudio = ''output_audio''"
| "cap_as_str CodeExecution = ''code_execution''"
| "cap_as_str ComputerUse = ''computer_use''"
| "cap_as_str Batch = ''batch''"
| "cap_as_str Embeddings = ''embeddings''"
| "cap_as_str Sse = ''sse''"
| "cap_as_str WebSocket = ''web_socket''"
| "cap_as_str ConnectRpc = ''connect_rpc''"
| "cap_as_str Protobuf = ''protobuf''"
| "cap_as_str ImageGeneration = ''image_generation''"

definition cap_all :: "capability list" where
  "cap_all =
     [Text, Images, Audio, Files, Tools, Reasoning, Streaming, Usage, StructuredOutput,
      JsonSchema, FunctionCalling, ToolChoice, CacheHints, Continuation, ResponseMetadata,
      EncryptedReasoning, Refusal, ErrorEvents, InputAudio, OutputAudio, CodeExecution,
      ComputerUse, Batch, Embeddings, Sse, WebSocket, ConnectRpc, Protobuf, ImageGeneration]"

type_synonym capability_set = u64

definition cap_bit :: "capability \<Rightarrow> u64" where
  "cap_bit c = push_bit (cap_index c) 1"

definition cs_known_bits :: u64 where
  "cs_known_bits = push_bit (length cap_all) 1 - 1"

definition cs_new :: capability_set where "cs_new = 0"

definition cs_all :: capability_set where "cs_all = cs_known_bits"

definition cs_try_from_bits :: "u64 \<Rightarrow> u64 + capability_set" where
  "cs_try_from_bits b =
     (if b AND NOT cs_known_bits = 0 then Inr b else Inl (b AND NOT cs_known_bits))"

definition cs_is_empty :: "capability_set \<Rightarrow> bool" where "cs_is_empty s \<longleftrightarrow> s = 0"

definition cs_len :: "capability_set \<Rightarrow> nat" where
  "cs_len s = length (filter (bit s) [0..<64])"

definition cs_contains :: "capability_set \<Rightarrow> capability \<Rightarrow> bool" where
  "cs_contains s c \<longleftrightarrow> s AND cap_bit c \<noteq> 0"

definition cs_contains_all :: "capability_set \<Rightarrow> capability_set \<Rightarrow> bool" where
  "cs_contains_all s required \<longleftrightarrow> s AND required = required"

definition cs_contains_any :: "capability_set \<Rightarrow> capability_set \<Rightarrow> bool" where
  "cs_contains_any s candidates \<longleftrightarrow> s AND candidates \<noteq> 0"

definition cs_with :: "capability_set \<Rightarrow> capability \<Rightarrow> capability_set" where
  "cs_with s c = s OR cap_bit c"

definition cs_insert :: "capability \<Rightarrow> capability_set \<Rightarrow> capability_set" where
  "cs_insert c s = s OR cap_bit c"

definition cs_remove :: "capability \<Rightarrow> capability_set \<Rightarrow> capability_set" where
  "cs_remove c s = s AND NOT (cap_bit c)"

definition cs_union :: "capability_set \<Rightarrow> capability_set \<Rightarrow> capability_set" where
  "cs_union s t = s OR t"

definition cs_intersection :: "capability_set \<Rightarrow> capability_set \<Rightarrow> capability_set" where
  "cs_intersection s t = s AND t"

definition cs_difference :: "capability_set \<Rightarrow> capability_set \<Rightarrow> capability_set" where
  "cs_difference s t = s AND NOT t"

definition cs_iter :: "capability_set \<Rightarrow> capability list" where
  "cs_iter s = filter (cs_contains s) cap_all"

definition cs_from :: "capability \<Rightarrow> capability_set" where
  "cs_from c = cs_with cs_new c"

text \<open>\<open>FromIterator\<close>, \<open>Extend\<close> and \<open>Deserialize\<close> insert one element after the other.\<close>

definition cs_extend :: "capability list \<Rightarrow> capability_set \<Rightarrow> capability_set" where
  "cs_extend cs s = fold cs_insert cs s"

definition cs_from_iter :: "capability list \<Rightarrow> capability_set" where
  "cs_from_iter cs = cs_extend cs cs_new"

definition cs_display :: "capability_set \<Rightarrow> string" where
  "cs_display s =
     (case cs_iter s of
        [] \<Rightarrow> []
      | c # cs \<Rightarrow> cap_as_str c @ concat (map (\<lambda>d. '', '' @ cap_as_str d) cs))"

section \<open>The set a word stands for\<close>

definition cap_set :: "capability_set \<Rightarrow> capability set" where
  "cap_set s = {c. cs_contains s c}"

definition cs_valid :: "capability_set \<Rightarrow> bool" where
  "cs_valid s \<longleftrightarrow> s AND NOT cs_known_bits = 0"

lemma cap_all_complete: "c \<in> set cap_all"
  by (cases c) (simp_all add: cap_all_def)

lemma cap_all_index: "map cap_index cap_all = [0..<29]"
  by (simp add: cap_all_def upt_rec)

lemma length_cap_all [simp]: "length cap_all = 29"
  by (simp add: cap_all_def)

lemma cap_all_distinct: "distinct cap_all"
  by (metis cap_all_index distinct_map distinct_upt)

lemma cap_index_less: "cap_index c < 29"
proof -
  have "cap_index c \<in> set (map cap_index cap_all)" using cap_all_complete by simp
  then show ?thesis by (simp only: cap_all_index) simp
qed

lemma cap_index_inj: "cap_index c = cap_index d \<longleftrightarrow> c = d"
proof
  assume e: "cap_index c = cap_index d"
  have "inj_on cap_index (set cap_all)"
    using cap_all_index by (metis distinct_map distinct_upt)
  with e show "c = d" by (meson cap_all_complete inj_onD)
qed simp

lemma cap_index_surj: "n < 29 \<Longrightarrow> \<exists>c. cap_index c = n"
proof -
  assume "n < 29"
  then have "n \<in> set (map cap_index cap_all)" by (simp only: cap_all_index) simp
  then show ?thesis by auto
qed

lemma bit_cap_bit: "bit (cap_bit c) n \<longleftrightarrow> n = cap_index c"
  using cap_index_less [of c] by (auto simp: cap_bit_def bit_simps)

lemma cs_contains_bit: "cs_contains s c \<longleftrightarrow> bit s (cap_index c)"
proof
  assume "cs_contains s c"
  then obtain n where "bit (s AND cap_bit c) n"
    by (auto simp: cs_contains_def bit_eq_iff)
  then show "bit s (cap_index c)" by (auto simp: bit_simps bit_cap_bit)
next
  assume "bit s (cap_index c)"
  then have "bit (s AND cap_bit c) (cap_index c)" by (simp add: bit_simps bit_cap_bit)
  then show "cs_contains s c" by (auto simp: cs_contains_def)
qed

lemma mem_cap_set: "c \<in> cap_set s \<longleftrightarrow> bit s (cap_index c)"
  by (simp add: cap_set_def cs_contains_bit)

lemma cs_known_bits_mask: "cs_known_bits = mask 29"
  by (simp add: cs_known_bits_def mask_eq_exp_minus_1 push_bit_eq_mult)

lemma bit_known: "bit cs_known_bits n \<longleftrightarrow> n < 29"
  by (auto simp: cs_known_bits_mask bit_mask_iff)

lemma cs_valid_bit: "cs_valid s \<longleftrightarrow> (\<forall>n. bit s n \<longrightarrow> n < 29)"
proof -
  have "cs_valid s \<longleftrightarrow> (\<forall>n. \<not> bit (s AND NOT cs_known_bits) n)"
    unfolding cs_valid_def using bit_eqI [of "s AND NOT cs_known_bits" 0] by auto
  also have "\<dots> \<longleftrightarrow> (\<forall>n. bit s n \<longrightarrow> n < 29)"
    using bit_imp_le_length [of s] by (auto simp: bit_simps bit_known)
  finally show ?thesis .
qed

lemma cap_set_inject:
  assumes "cs_valid s" "cs_valid t"
  shows "cap_set s = cap_set t \<longleftrightarrow> s = t"
proof
  assume eq: "cap_set s = cap_set t"
  show "s = t"
  proof (rule bit_eqI)
    fix n
    show "bit s n \<longleftrightarrow> bit t n"
    proof (cases "n < 29")
      case True
      then obtain c where "cap_index c = n" using cap_index_surj by blast
      then show ?thesis using eq mem_cap_set by blast
    next
      case False
      then show ?thesis using assms by (auto simp: cs_valid_bit)
    qed
  qed
qed simp

lemma cap_set_ops:
  "cap_set cs_new = {}"
  "cap_set cs_all = UNIV"
  "cap_set (cs_with s c) = insert c (cap_set s)"
  "cap_set (cs_insert c s) = insert c (cap_set s)"
  "cap_set (cs_remove c s) = cap_set s - {c}"
  "cap_set (cs_union s t) = cap_set s \<union> cap_set t"
  "cap_set (cs_intersection s t) = cap_set s \<inter> cap_set t"
  "cap_set (cs_difference s t) = cap_set s - cap_set t"
  by (auto simp: set_eq_iff mem_cap_set cs_new_def cs_all_def cs_with_def cs_insert_def
      cs_remove_def cs_union_def cs_intersection_def cs_difference_def bit_simps bit_cap_bit
      bit_known cap_index_less cap_index_inj dest: bit_imp_le_length)

lemma cs_valid_ops:
  "cs_valid cs_new" "cs_valid cs_all"
  "cs_valid s \<Longrightarrow> cs_valid (cs_insert c s)"
  "cs_valid s \<Longrightarrow> cs_valid (cs_remove c s)"
  "cs_valid s \<Longrightarrow> cs_valid t \<Longrightarrow> cs_valid (cs_union s t)"
  "cs_valid s \<Longrightarrow> cs_valid (cs_intersection s t)"
  "cs_valid s \<Longrightarrow> cs_valid (cs_difference s t)"
  by (auto simp: cs_valid_bit cs_new_def cs_all_def cs_insert_def cs_remove_def cs_union_def
      cs_intersection_def cs_difference_def bit_simps bit_cap_bit bit_known cap_index_less)

lemma set_cs_iter: "set (cs_iter s) = cap_set s"
  by (auto simp: cs_iter_def cap_set_def cap_all_complete)

lemma cap_set_fold: "cap_set (fold cs_insert cs s) = set cs \<union> cap_set s"
  by (induction cs arbitrary: s) (auto simp: cap_set_ops)

lemma cs_valid_fold: "cs_valid s \<Longrightarrow> cs_valid (fold cs_insert cs s)"
  by (induction cs arbitrary: s) (auto simp: cs_valid_ops)

lemma cs_valid_from_iter: "cs_valid (cs_from_iter cs)"
  by (simp add: cs_from_iter_def cs_extend_def cs_valid_fold cs_valid_ops)

lemma cs_contains_from_iter: "cs_contains (cs_from_iter cs) c \<longleftrightarrow> c \<in> set cs"
proof -
  have "c \<in> cap_set (cs_from_iter cs) \<longleftrightarrow> c \<in> set cs"
    by (simp add: cs_from_iter_def cs_extend_def cap_set_fold cap_set_ops)
  then show ?thesis by (simp add: cap_set_def)
qed

lemma cs_from_iter_iter: "cs_valid s \<Longrightarrow> cs_from_iter (cs_iter s) = s"
  by (rule cap_set_inject [THEN iffD1])
    (simp_all add: cs_from_iter_def cs_extend_def cs_valid_fold cs_valid_ops cap_set_fold cap_set_ops set_cs_iter)

lemma cs_iter_Nil: "cs_valid s \<Longrightarrow> cs_iter s = [] \<longleftrightarrow> s = 0"
  using cap_set_inject [of s cs_new]
  by (metis cap_set_ops(1) cs_new_def cs_valid_ops(1) set_cs_iter set_empty)

lemma cs_contains_all_difference:
  "cs_contains_all s required \<longleftrightarrow> cs_difference required s = 0"
  by (auto simp: cs_contains_all_def cs_difference_def bit_eq_iff bit_simps dest: bit_imp_le_length)

lemma cs_is_empty_set: "cs_valid s \<Longrightarrow> cs_is_empty s \<longleftrightarrow> cap_set s = {}"
  using cap_set_inject [of s cs_new] by (simp add: cs_valid_ops cap_set_ops cs_is_empty_def) (simp add: cs_new_def)

lemma cs_contains_all_subset:
  "cs_valid required \<Longrightarrow> cs_contains_all s required \<longleftrightarrow> cap_set required \<subseteq> cap_set s"
  using cs_is_empty_set [of "cs_difference required s"]
  by (simp add: cs_contains_all_difference cap_set_ops cs_valid_ops cs_is_empty_def)

lemma cs_contains_any_inter:
  "cs_valid s \<Longrightarrow> cs_contains_any s t \<longleftrightarrow> cap_set s \<inter> cap_set t \<noteq> {}"
  using cs_is_empty_set [of "cs_intersection s t"]
  by (simp add: cs_contains_any_def cap_set_ops cs_valid_ops cs_is_empty_def) (simp add: cs_intersection_def)

lemma cs_len_card:
  assumes "cs_valid s"
  shows "cs_len s = card (cap_set s)"
proof -
  have "set (filter (bit s) [0..<64]) = cap_index ` cap_set s"
    using assms cap_index_surj cap_index_less by (fastforce simp: cs_valid_bit mem_cap_set)
  moreover have "cs_len s = card (set (filter (bit s) [0..<64]))"
    unfolding cs_len_def by (rule distinct_card [symmetric]) simp
  moreover have "inj_on cap_index (cap_set s)" by (simp add: inj_on_def cap_index_inj)
  ultimately show ?thesis by (simp add: card_image)
qed

section \<open>Properties\<close>

text \<open>C39. The capability bitset implements finite sets of capabilities: on words that carry known
  bits only, every query answers as the set does, every update is the set operation and keeps
  the word free of unknown bits, and a word is determined by its set.\<close>

theorem capability_bits_refine_sets:
  assumes "cs_valid s" "cs_valid t"
  shows "cap_set (cs_union s t) = cap_set s \<union> cap_set t \<and> cs_valid (cs_union s t)
    \<and> cap_set (cs_intersection s t) = cap_set s \<inter> cap_set t \<and> cs_valid (cs_intersection s t)
    \<and> cap_set (cs_difference s t) = cap_set s - cap_set t \<and> cs_valid (cs_difference s t)
    \<and> cap_set (cs_insert c s) = insert c (cap_set s) \<and> cs_valid (cs_insert c s)
    \<and> cap_set (cs_remove c s) = cap_set s - {c} \<and> cs_valid (cs_remove c s)
    \<and> (cs_contains_all s t \<longleftrightarrow> cap_set t \<subseteq> cap_set s)
    \<and> (cs_contains_any s t \<longleftrightarrow> cap_set s \<inter> cap_set t \<noteq> {})
    \<and> cs_len s = card (cap_set s)
    \<and> (cs_is_empty s \<longleftrightarrow> cap_set s = {})
    \<and> (cap_set s = cap_set t \<longleftrightarrow> s = t)"
  using assms
  by (simp add: cap_set_ops cs_valid_ops cs_contains_all_subset cs_contains_any_inter cs_len_card
      cap_set_inject cs_is_empty_set)

theorem capability_bits_refine_sets_witness:
  "cs_contains_all (cs_from_iter [Text, Tools, Streaming]) (cs_from_iter [Tools, Text])
   \<and> cap_set (cs_from_iter [Tools, Text]) \<subseteq> cap_set (cs_from_iter [Text, Tools, Streaming])"
proof -
  note v = cs_valid_from_iter [of "[Text, Tools, Streaming]"] cs_valid_from_iter [of "[Tools, Text]"]
  have "cap_set (cs_from_iter [Tools, Text]) \<subseteq> cap_set (cs_from_iter [Text, Tools, Streaming])"
    by (auto simp: cap_set_def cs_contains_from_iter)
  then show ?thesis using capability_bits_refine_sets [OF v] by blast
qed

text \<open>Serialisation of capability sets: the listed capabilities are in declaration order
  without repetition, collecting them gives back the same set, and the raw bits of a set are
  accepted while bits outside the known capabilities are refused and reported.\<close>

theorem capability_set_roundtrip:
  assumes "cs_valid s"
  shows "cs_from_iter (cs_iter s) = s
    \<and> distinct (cs_iter s) \<and> sorted (map cap_index (cs_iter s))
    \<and> cs_try_from_bits s = Inr s
    \<and> cs_try_from_bits b = (if cs_valid b then Inr b else Inl (b AND NOT cs_known_bits))"
proof -
  have "sorted (map cap_index (filter (cs_contains s) cap_all))"
    by (rule sorted_filter) (simp only: cap_all_index sorted_upt)
  then have "distinct (cs_iter s) \<and> sorted (map cap_index (cs_iter s))"
    by (simp add: cs_iter_def cap_all_distinct)
  moreover have "cs_try_from_bits x = (if cs_valid x then Inr x else Inl (x AND NOT cs_known_bits))" for x
    by (simp only: cs_try_from_bits_def cs_valid_def)
  ultimately show ?thesis using cs_from_iter_iter [OF assms] assms by simp
qed

theorem capability_set_roundtrip_witness:
  "cs_from_iter (cs_iter (cs_from_iter [Tools, Text])) = cs_from_iter [Tools, Text]
   \<and> cs_iter (cs_from_iter [Tools, Text]) = [Text, Tools]
   \<and> cs_try_from_bits (cs_from_iter [Tools, Text]) = Inr (cs_from_iter [Tools, Text])"
proof -
  have "cs_iter (cs_from_iter [Tools, Text]) = [Text, Tools]"
    by (simp add: cs_iter_def cap_all_def cs_contains_from_iter)
  with capability_set_roundtrip [OF cs_valid_from_iter] show ?thesis by blast
qed

end
