(* ===== verification/Core_Errors.thy ===== *)
theory Core_Errors
  imports Pooler_Prelude
begin

text \<open>
  The shared contracts of \<open>pooler-core\<close>: failure classes and classifications
  (\<open>error.rs\<close>), the route limits that bound every buffer (\<open>limits.rs\<close>) and the
  configuration generation (\<open>id.rs\<close>).
\<close>

section \<open>Failure classes\<close>

datatype error_class =
    DownstreamAuthentication | InvalidRequest | UnsupportedConversion | ProviderAuthentication
  | CredentialQuotaExhausted | ModelQuotaExhausted | ProviderRateLimited | ProviderUnavailable
  | Network | Timeout | InvalidUpstreamResponse | IncompleteStream | InternalInvariant
  | DownstreamDisconnected

datatype error_scope =
    EsDownstream | EsCredential | EsModel | EsProvider | EsRoute | EsInternal

datatype retryability = Never | BeforeCommit

datatype replay_safety = NotReplayable | Replayable | RequiresIdempotencyKey

record error_classification =
  ec_class :: error_class
  ec_scope :: error_scope
  ec_retryability :: retryability
  ec_replay_safety :: replay_safety
  ec_recovery_after :: "duration option"

definition error_classification_new ::
  "error_class \<Rightarrow> error_scope \<Rightarrow> retryability \<Rightarrow> replay_safety \<Rightarrow> error_classification" where
  "error_classification_new class sc retry replay =
     \<lparr>ec_class = class, ec_scope = sc, ec_retryability = retry, ec_replay_safety = replay,
      ec_recovery_after = None\<rparr>"

definition ec_with_recovery_after :: "duration \<Rightarrow> error_classification \<Rightarrow> error_classification" where
  "ec_with_recovery_after d c = c\<lparr>ec_recovery_after := Some d\<rparr>"

definition ec_can_retry_before_commit :: "error_classification \<Rightarrow> bool" where
  "ec_can_retry_before_commit c \<longleftrightarrow>
     ec_retryability c = BeforeCommit \<and> ec_replay_safety c \<noteq> NotReplayable"

text \<open>The serde form of a recovery hint: whole milliseconds in a \<open>u64\<close>, the cast wraps.\<close>

definition duration_millis_serialize :: "duration option \<Rightarrow> u64 option" where
  "duration_millis_serialize v = map_option (\<lambda>d. of_nat (d div 1000000)) v"

definition duration_millis_deserialize :: "u64 option \<Rightarrow> duration option" where
  "duration_millis_deserialize v = map_option (\<lambda>m. from_millis (unat m)) v"

lemma duration_millis_serialize_roundtrip:
  "(\<forall>d. v = Some d \<longrightarrow> 1000000 dvd d \<and> d div 1000000 < 2 ^ 64) \<Longrightarrow>
     duration_millis_deserialize (duration_millis_serialize v) = v"
  by (cases v)
    (auto simp: duration_millis_serialize_def duration_millis_deserialize_def from_millis_def
      unat_of_nat)

section \<open>Route limits\<close>

datatype limit_resource =
    LrRequestBody | LrResponseBody | LrHeaderCount | LrHeaderBytes | LrFrame | LrEvent
  | LrBootstrapBytes | LrBootstrapEvents | LrQueueBytes | LrQueueItems

datatype timeout_resource = TrRequest | TrConnect

datatype limit_validation_error = LimitZero limit_resource | ZeroTimeout timeout_resource

fun limit_resource_display :: "limit_resource \<Rightarrow> string" where
  "limit_resource_display LrRequestBody = ''request body''"
| "limit_resource_display LrResponseBody = ''response body''"
| "limit_resource_display LrHeaderCount = ''header count''"
| "limit_resource_display LrHeaderBytes = ''header bytes''"
| "limit_resource_display LrFrame = ''frame''"
| "limit_resource_display LrEvent = ''event''"
| "limit_resource_display LrBootstrapBytes = ''bootstrap bytes''"
| "limit_resource_display LrBootstrapEvents = ''bootstrap events''"
| "limit_resource_display LrQueueBytes = ''queue bytes''"
| "limit_resource_display LrQueueItems = ''queue items''"

fun timeout_resource_display :: "timeout_resource \<Rightarrow> string" where
  "timeout_resource_display TrRequest = ''request''"
| "timeout_resource_display TrConnect = ''connect''"

fun limit_validation_error_display :: "limit_validation_error \<Rightarrow> string" where
  "limit_validation_error_display (LimitZero r) =
     limit_resource_display r @ '' limit must be greater than zero''"
| "limit_validation_error_display (ZeroTimeout r) =
     timeout_resource_display r @ '' timeout must be greater than zero''"

datatype pooler_error =
    PeInvalidConfiguration string
  | PeInvalidRequest string
  | PeUnsupportedConversion string
  | PeDownstreamAuthentication
  | PeProviderAuthentication
  | PeProvider error_classification string
  | PeNetwork string
  | PeTimeout string
  | PeInvalidUpstreamResponse string
  | PeIncompleteStream string
  | PeDownstreamDisconnected
  | PeCancelled
  | PeLimitExceeded limit_resource u64 u64
  | PeInternalInvariant string

fun classification :: "pooler_error \<Rightarrow> error_classification" where
  "classification (PeInvalidConfiguration m) =
     error_classification_new InternalInvariant EsInternal Never NotReplayable"
| "classification (PeInvalidRequest m) =
     error_classification_new InvalidRequest EsDownstream Never NotReplayable"
| "classification (PeUnsupportedConversion m) =
     error_classification_new UnsupportedConversion EsRoute Never NotReplayable"
| "classification PeDownstreamAuthentication =
     error_classification_new DownstreamAuthentication EsDownstream Never NotReplayable"
| "classification PeProviderAuthentication =
     error_classification_new ProviderAuthentication EsCredential Never NotReplayable"
| "classification (PeProvider c m) = c"
| "classification (PeNetwork m) =
     error_classification_new Network EsProvider BeforeCommit Replayable"
| "classification (PeTimeout m) =
     error_classification_new Timeout EsProvider BeforeCommit Replayable"
| "classification (PeInvalidUpstreamResponse m) =
     error_classification_new InvalidUpstreamResponse EsProvider Never NotReplayable"
| "classification (PeIncompleteStream m) =
     error_classification_new IncompleteStream EsProvider BeforeCommit Replayable"
| "classification PeDownstreamDisconnected =
     error_classification_new DownstreamDisconnected EsDownstream Never NotReplayable"
| "classification PeCancelled =
     error_classification_new DownstreamDisconnected EsDownstream Never NotReplayable"
| "classification (PeLimitExceeded r l obs) =
     error_classification_new InvalidRequest EsRoute Never NotReplayable"
| "classification (PeInternalInvariant m) =
     error_classification_new InternalInvariant EsInternal Never NotReplayable"

definition pe_class :: "pooler_error \<Rightarrow> error_class" where
  "pe_class e = ec_class (classification e)"

definition pe_can_retry_before_commit :: "pooler_error \<Rightarrow> bool" where
  "pe_can_retry_before_commit e = ec_can_retry_before_commit (classification e)"

record route_limits =
  max_request_body_bytes :: u64
  max_response_body_bytes :: u64
  max_header_count :: u32
  max_header_bytes :: u64
  max_frame_bytes :: u64
  max_event_bytes :: u64
  max_bootstrap_bytes :: u64
  max_bootstrap_events :: u32
  max_queue_bytes :: u64
  max_queue_items :: u32
  request_timeout :: "duration option"
  connect_timeout :: "duration option"

definition route_limits_default :: route_limits where
  "route_limits_default =
     \<lparr>max_request_body_bytes = 16 * 1024 * 1024, max_response_body_bytes = 16 * 1024 * 1024,
      max_header_count = 128, max_header_bytes = 64 * 1024, max_frame_bytes = 16 * 1024 * 1024,
      max_event_bytes = 16 * 1024 * 1024, max_bootstrap_bytes = 64 * 1024,
      max_bootstrap_events = 1, max_queue_bytes = 4 * 1024 * 1024, max_queue_items = 256,
      request_timeout = Some (from_secs (30 * 60)), connect_timeout = Some (from_secs 5)\<rparr>"

text \<open>The table the validation loop walks, and the loop: the first zero resource is the error.\<close>

definition limit_table :: "route_limits \<Rightarrow> (u64 \<times> limit_resource) list" where
  "limit_table l =
     [(max_request_body_bytes l, LrRequestBody), (max_response_body_bytes l, LrResponseBody),
      (ucast (max_header_count l), LrHeaderCount), (max_header_bytes l, LrHeaderBytes),
      (max_frame_bytes l, LrFrame), (max_event_bytes l, LrEvent),
      (max_bootstrap_bytes l, LrBootstrapBytes),
      (ucast (max_bootstrap_events l), LrBootstrapEvents),
      (max_queue_bytes l, LrQueueBytes), (ucast (max_queue_items l), LrQueueItems)]"

fun first_zero :: "(u64 \<times> limit_resource) list \<Rightarrow> limit_resource option" where
  "first_zero [] = None"
| "first_zero ((v, r) # rest) = (if v = 0 then Some r else first_zero rest)"

definition limits_validate :: "route_limits \<Rightarrow> limit_validation_error + unit" where
  "limits_validate l =
     (case first_zero (limit_table l) of
        Some r \<Rightarrow> Inl (LimitZero r)
      | None \<Rightarrow>
          if request_timeout l = Some 0 then Inl (ZeroTimeout TrRequest)
          else if connect_timeout l = Some 0 then Inl (ZeroTimeout TrConnect)
          else Inr ())"

definition limits_validate_result :: "route_limits \<Rightarrow> pooler_error + unit" where
  "limits_validate_result l =
     (case limits_validate l of Inl e \<Rightarrow> 
        Inl (PeInvalidConfiguration (limit_validation_error_display e)) | Inr u \<Rightarrow> Inr u)"

definition check_limit :: "limit_resource \<Rightarrow> u64 \<Rightarrow> u64 \<Rightarrow> pooler_error + unit" where
  "check_limit r observed limit =
     (if limit < observed then Inl (PeLimitExceeded r limit observed) else Inr ())"

definition check_request_body :: "route_limits \<Rightarrow> u64 \<Rightarrow> pooler_error + unit" where
  "check_request_body l n = check_limit LrRequestBody n (max_request_body_bytes l)"

definition check_response_body :: "route_limits \<Rightarrow> u64 \<Rightarrow> pooler_error + unit" where
  "check_response_body l n = check_limit LrResponseBody n (max_response_body_bytes l)"

definition check_frame :: "route_limits \<Rightarrow> u64 \<Rightarrow> pooler_error + unit" where
  "check_frame l n = check_limit LrFrame n (max_frame_bytes l)"

definition check_event :: "route_limits \<Rightarrow> u64 \<Rightarrow> pooler_error + unit" where
  "check_event l n = check_limit LrEvent n (max_event_bytes l)"

definition check_headers :: "route_limits \<Rightarrow> u32 \<Rightarrow> u64 \<Rightarrow> pooler_error + unit" where
  "check_headers l count bytes =
     (case check_limit LrHeaderCount (ucast count) (ucast (max_header_count l)) of
        Inl e \<Rightarrow> Inl e
      | Inr _ \<Rightarrow> check_limit LrHeaderBytes bytes (max_header_bytes l))"

definition check_bootstrap :: "route_limits \<Rightarrow> u64 \<Rightarrow> u32 \<Rightarrow> pooler_error + unit" where
  "check_bootstrap l bytes events =
     (case check_limit LrBootstrapBytes bytes (max_bootstrap_bytes l) of
        Inl e \<Rightarrow> Inl e
      | Inr _ \<Rightarrow>
          check_limit LrBootstrapEvents (ucast events) (ucast (max_bootstrap_events l)))"

definition check_queue :: "route_limits \<Rightarrow> u64 \<Rightarrow> u32 \<Rightarrow> pooler_error + unit" where
  "check_queue l bytes items =
     (case check_limit LrQueueBytes bytes (max_queue_bytes l) of
        Inl e \<Rightarrow> Inl e
      | Inr _ \<Rightarrow> check_limit LrQueueItems (ucast items) (ucast (max_queue_items l)))"

section \<open>Configuration generations\<close>

type_synonym config_generation = u64

definition generation_initial :: config_generation where "generation_initial = 0"

definition generation_next :: "config_generation \<Rightarrow> config_generation" where
  "generation_next g = saturating_add g 1"

section \<open>Lemmas\<close>

lemma ucast_u32_u64_mono: "(ucast (x :: u32) :: u64) \<le> ucast y \<longleftrightarrow> x \<le> y"
  by (simp add: word_le_nat_alt)

lemma ucast_u32_u64_zero: "(ucast (x :: u32) :: u64) = 0 \<longleftrightarrow> x = 0"
  by (metis unat_eq_zero unat_ucast_u32)

lemma first_zero_None: "first_zero t = None \<longleftrightarrow> (\<forall>e \<in> set t. fst e \<noteq> 0)"
  by (induction t rule: first_zero.induct) auto

lemma check_limit_Inr [simp]: "check_limit r n l = Inr u \<longleftrightarrow> n \<le> l"
  by (auto simp: check_limit_def)

lemma generation_next_ge: "g \<le> generation_next g"
  using unsigned_less [of g, where 'a = nat]
  by (simp add: generation_next_def word_le_nat_alt saturation)

lemma generation_next_strict: "g \<noteq> - 1 \<Longrightarrow> g < generation_next g"
  by (simp add: generation_next_def word_less_nat_alt unat_saturating_add_one)

end
