(* ===== verification/Failure.thy ===== *)
theory Failure
  imports Core_Errors
begin

text \<open>
  Failure classification (\<open>pooler-policy/src/lib.rs\<close>, first section): what a classifier may
  observe of a failed attempt, the conservative classification of every failure class, and the
  provider classifier that reads status and reason codes. Classifiers are functions from an
  observation to a classification: no health state is among their arguments.
\<close>

datatype failure_source = FromDownstream | FromUpstream | FromTransport | FromInternal

record observed_failure =
  of_source :: failure_source
  of_status :: "u16 option"
  of_provider_code :: "string option"
  of_message :: "string option"
  of_retry_after :: "duration option"

definition observed_failure_new :: "failure_source \<Rightarrow> u16 option \<Rightarrow> observed_failure" where
  "observed_failure_new source status =
     \<lparr>of_source = source, of_status = status, of_provider_code = None, of_message = None,
      of_retry_after = None\<rparr>"

definition with_provider_code :: "string \<Rightarrow> observed_failure \<Rightarrow> observed_failure" where
  "with_provider_code code f = f\<lparr>of_provider_code := Some code\<rparr>"

definition with_message :: "string \<Rightarrow> observed_failure \<Rightarrow> observed_failure" where
  "with_message m f = f\<lparr>of_message := Some m\<rparr>"

definition with_retry_after :: "duration \<Rightarrow> observed_failure \<Rightarrow> observed_failure" where
  "with_retry_after d f = f\<lparr>of_retry_after := Some d\<rparr>"

record public_response =
  pr_status :: u16
  pr_code :: string
  pr_message :: string

definition public_response_new :: "u16 \<Rightarrow> string \<Rightarrow> string \<Rightarrow> public_response" where
  "public_response_new st code msg = \<lparr>pr_status = st, pr_code = code, pr_message = msg\<rparr>"

record redacted_evidence =
  re_status :: "u16 option"
  re_provider_code :: "string option"
  re_summary :: "string option"

definition redacted_evidence_default :: redacted_evidence where
  "redacted_evidence_default = \<lparr>re_status = None, re_provider_code = None, re_summary = None\<rparr>"

datatype credential_causation = UnknownCausation | ProvenCausation

datatype cooldown_scope_kind =
  KindCredential | KindCredentialModel | KindModel | KindProvider | KindProviderModel | KindRoute

record cooldown_spec =
  spec_scope :: cooldown_scope_kind
  spec_duration :: duration

record failure_classification =
  fc_classification :: error_classification
  fc_response :: public_response
  fc_evidence :: redacted_evidence
  fc_cooldown :: "cooldown_spec option"
  fc_credential_causation :: credential_causation

definition failure_classification_new ::
  "error_classification \<Rightarrow> public_response \<Rightarrow> redacted_evidence \<Rightarrow> failure_classification" where
  "failure_classification_new c r e =
     \<lparr>fc_classification = c, fc_response = r, fc_evidence = e, fc_cooldown = None,
      fc_credential_causation = UnknownCausation\<rparr>"

text \<open>The table inside \<open>FailureClassification::for_class\<close>.\<close>

fun for_class_parts ::
  "error_class \<Rightarrow> error_scope \<times> retryability \<times> replay_safety \<times> public_response" where
  "for_class_parts DownstreamAuthentication =
     (EsDownstream, Never, NotReplayable,
      public_response_new 401 ''downstream_authentication'' ''downstream authentication failed'')"
| "for_class_parts InvalidRequest =
     (EsDownstream, Never, NotReplayable,
      public_response_new 400 ''invalid_request'' ''the downstream request is invalid'')"
| "for_class_parts UnsupportedConversion =
     (EsRoute, Never, NotReplayable,
      public_response_new 422 ''unsupported_conversion''
        ''the requested conversion is unsupported'')"
| "for_class_parts ProviderAuthentication =
     (EsCredential, BeforeCommit, Replayable,
      public_response_new 401 ''provider_authentication'' ''provider authentication failed'')"
| "for_class_parts CredentialQuotaExhausted =
     (EsCredential, BeforeCommit, Replayable,
      public_response_new 429 ''credential_quota_exhausted'' ''credential quota is exhausted'')"
| "for_class_parts ModelQuotaExhausted =
     (EsModel, BeforeCommit, Replayable,
      public_response_new 429 ''model_quota_exhausted'' ''model quota is exhausted'')"
| "for_class_parts ProviderRateLimited =
     (EsProvider, BeforeCommit, Replayable,
      public_response_new 429 ''provider_rate_limited'' ''provider rate limited the request'')"
| "for_class_parts ProviderUnavailable =
     (EsProvider, BeforeCommit, Replayable,
      public_response_new 503 ''provider_unavailable'' ''provider is unavailable'')"
| "for_class_parts Network =
     (EsProvider, BeforeCommit, Replayable,
      public_response_new 503 ''upstream_unavailable'' ''the upstream operation failed'')"
| "for_class_parts Timeout =
     (EsProvider, BeforeCommit, Replayable,
      public_response_new 503 ''upstream_unavailable'' ''the upstream operation failed'')"
| "for_class_parts InvalidUpstreamResponse =
     (EsProvider, Never, NotReplayable,
      public_response_new 502 ''invalid_upstream_response'' ''upstream response was invalid'')"
| "for_class_parts IncompleteStream =
     (EsProvider, BeforeCommit, Replayable,
      public_response_new 502 ''incomplete_upstream_stream''
        ''upstream stream ended unexpectedly'')"
| "for_class_parts InternalInvariant =
     (EsInternal, Never, NotReplayable,
      public_response_new 500 ''internal_invariant'' ''an internal invariant failed'')"
| "for_class_parts DownstreamDisconnected =
     (EsDownstream, Never, NotReplayable,
      public_response_new 499 ''downstream_disconnected'' ''downstream client disconnected'')"

definition for_class :: "error_class \<Rightarrow> failure_classification" where
  "for_class class =
     (let (sc, retry, replay, response) = for_class_parts class in
      failure_classification_new (error_classification_new class sc retry replay) response
        redacted_evidence_default)"

definition fc_with_recovery_after ::
  "duration \<Rightarrow> failure_classification \<Rightarrow> failure_classification" where
  "fc_with_recovery_after d f =
     f\<lparr>fc_classification := ec_with_recovery_after d (fc_classification f)\<rparr>"

definition fc_with_cooldown :: "cooldown_spec \<Rightarrow> failure_classification \<Rightarrow> failure_classification" where
  "fc_with_cooldown spec f = f\<lparr>fc_cooldown := Some spec\<rparr>"

definition fc_with_credential_causation ::
  "credential_causation \<Rightarrow> failure_classification \<Rightarrow> failure_classification" where
  "fc_with_credential_causation c f = f\<lparr>fc_credential_causation := c\<rparr>"

definition is_request_invalid :: "failure_classification \<Rightarrow> bool" where
  "is_request_invalid f \<longleftrightarrow>
     (case ec_class (fc_classification f) of
        InvalidRequest \<Rightarrow> True | UnsupportedConversion \<Rightarrow> True | _ \<Rightarrow> False)"

section \<open>The provider classifier\<close>

definition provider_hint :: "observed_failure \<Rightarrow> string" where
  "provider_hint f =
     (let hint = (case of_provider_code f of
                    None \<Rightarrow> [] | Some code \<Rightarrow> to_ascii_lowercase code) in
      case of_message f of
        None \<Rightarrow> hint
      | Some msg \<Rightarrow> (if hint = [] then hint else hint @ '' '') @ to_ascii_lowercase msg)"

definition has_any :: "string \<Rightarrow> string list \<Rightarrow> bool" where
  "has_any v needles \<longleftrightarrow> list_ex (str_contains v) needles"

definition invalid_request_codes :: "string list" where
  "invalid_request_codes =
     [''invalid_request'', ''invalid_argument'', ''bad_request'', ''malformed'',
      ''validation_error'']"

definition quota_codes :: "string list" where
  "quota_codes =
     [''insufficient_quota'', ''quota_exceeded'', ''billing_hard_limit'', ''resource_exhausted'',
      ''quota'', ''daily_limit'', ''monthly_limit'', ''credit_exhausted'']"

definition model_quota_codes :: "string list" where
  "model_quota_codes = [''model_quota'', ''model_limit'', ''model_capacity'']"

definition authentication_codes :: "string list" where
  "authentication_codes =
     [''invalid_api_key'', ''invalid_auth'', ''authentication'', ''unauthorized'']"

definition rate_limit_codes :: "string list" where
  "rate_limit_codes =
     [''rate_limit'', ''too_many_requests'', ''throttl'', ''overload'',
      ''temporarily_unavailable'']"

definition classify_upstream_class :: "observed_failure \<Rightarrow> error_class" where
  "classify_upstream_class f =
     (let hint = provider_hint f; status = of_status f in
      if has_any hint invalid_request_codes then InvalidRequest
      else if has_any hint quota_codes then
        (if has_any hint model_quota_codes then ModelQuotaExhausted
         else CredentialQuotaExhausted)
      else if has_any hint authentication_codes
              \<or> (status \<in> {Some 401, Some 403}
                  \<and> \<not> has_any hint [''invalid_request'', ''invalid_argument''])
        then ProviderAuthentication
      else if status = Some 429 \<or> has_any hint rate_limit_codes then ProviderRateLimited
      else
        (case status of
           Some s \<Rightarrow>
             if s = 408 \<or> (500 \<le> s \<and> s \<le> 599) then ProviderUnavailable
             else if 400 \<le> s \<and> s \<le> 499 then InvalidRequest
             else InvalidUpstreamResponse
         | None \<Rightarrow> InvalidUpstreamResponse))"

fun default_recovery_for :: "error_class \<Rightarrow> duration" where
  "default_recovery_for ProviderAuthentication = from_secs 30"
| "default_recovery_for CredentialQuotaExhausted = from_secs 60"
| "default_recovery_for ModelQuotaExhausted = from_secs 60"
| "default_recovery_for ProviderRateLimited = from_secs 1"
| "default_recovery_for ProviderUnavailable = from_secs 1"
| "default_recovery_for _ = 0"

definition allows_recovery_hint :: "error_class \<Rightarrow> bool" where
  "allows_recovery_hint class \<longleftrightarrow>
     class \<in> {ProviderAuthentication, CredentialQuotaExhausted, ModelQuotaExhausted,
              ProviderRateLimited, ProviderUnavailable}"

fun cooldown_scope_for :: "error_class \<Rightarrow> cooldown_scope_kind option" where
  "cooldown_scope_for ProviderAuthentication = Some KindCredential"
| "cooldown_scope_for CredentialQuotaExhausted = Some KindCredential"
| "cooldown_scope_for ModelQuotaExhausted = Some KindModel"
| "cooldown_scope_for ProviderRateLimited = Some KindProvider"
| "cooldown_scope_for ProviderUnavailable = Some KindProvider"
| "cooldown_scope_for _ = None"

definition failure_class_of :: "observed_failure \<Rightarrow> error_class" where
  "failure_class_of f =
     (case of_source f of
        FromDownstream \<Rightarrow>
          if of_status f \<in> {Some 401, Some 403} then DownstreamAuthentication else InvalidRequest
      | FromTransport \<Rightarrow> Network
      | FromInternal \<Rightarrow> InternalInvariant
      | FromUpstream \<Rightarrow> classify_upstream_class f)"

definition classify_provider_failure :: "observed_failure \<Rightarrow> failure_classification" where
  "classify_provider_failure f =
     (let class = failure_class_of f;
          result = (for_class class)
            \<lparr>fc_evidence := \<lparr>re_status = of_status f, re_provider_code = of_provider_code f,
                             re_summary = of_message f\<rparr>\<rparr>;
          recovery = (case of_retry_after f of
                        Some d \<Rightarrow> d | None \<Rightarrow> default_recovery_for class) in
      if recovery > 0 \<and> allows_recovery_hint class then
        (let result = fc_with_recovery_after recovery result in
         case cooldown_scope_for class of
           Some sc \<Rightarrow> fc_with_cooldown \<lparr>spec_scope = sc, spec_duration = recovery\<rparr> result
         | None \<Rightarrow> result)
      else result)"

text \<open>A failure observed as the two classifiers see it.\<close>

definition provider_classify :: "observed_failure \<Rightarrow> failure_classification" where
  "provider_classify f = classify_provider_failure f"

definition http_classify :: "observed_failure \<Rightarrow> failure_classification" where
  "http_classify f = classify_provider_failure f"

section \<open>What classification guarantees\<close>

definition fc_class :: "failure_classification \<Rightarrow> error_class" where
  "fc_class f = ec_class (fc_classification f)"

lemmas fc_defs =
  fc_class_def for_class_def failure_classification_new_def error_classification_new_def
  fc_with_recovery_after_def fc_with_cooldown_def ec_with_recovery_after_def

lemma fc_class_for_class [simp]: "fc_class (for_class c) = c"
  by (simp add: fc_defs split: prod.split)

lemma for_class_cooldown [simp]: "fc_cooldown (for_class c) = None"
  by (simp add: fc_defs split: prod.split)

lemma fc_class_classify [simp]: "fc_class (classify_provider_failure f) = failure_class_of f"
proof -
  have c: "ec_class (fc_classification (for_class k)) = k" for k
    using fc_class_for_class by (simp add: fc_class_def)
  show ?thesis
    by (simp add: classify_provider_failure_def Let_def fc_class_def fc_with_recovery_after_def
        fc_with_cooldown_def ec_with_recovery_after_def c split: option.split)
qed

lemma classify_retryability:
  "ec_retryability (fc_classification (classify_provider_failure f)) =
     ec_retryability (fc_classification (for_class (failure_class_of f)))"
  by (simp add: classify_provider_failure_def Let_def fc_with_recovery_after_def
      fc_with_cooldown_def ec_with_recovery_after_def split: option.split)

lemma cooldown_scope_for_allows:
  "allows_recovery_hint c \<longleftrightarrow> cooldown_scope_for c \<noteq> None"
  by (cases c) (auto simp: allows_recovery_hint_def)

lemma classify_cooldown:
  "fc_cooldown (classify_provider_failure f) =
    (let class = failure_class_of f;
         recovery = (case of_retry_after f of Some d \<Rightarrow> d | None \<Rightarrow> default_recovery_for class) in
     if recovery = 0 then None
     else map_option (\<lambda>sc. \<lparr>spec_scope = sc, spec_duration = recovery\<rparr>)
            (cooldown_scope_for class))"
  using cooldown_scope_for_allows [of "failure_class_of f"]
  by (auto simp: classify_provider_failure_def Let_def fc_with_recovery_after_def
      fc_with_cooldown_def split: option.splits)

lemma for_class_recovery [simp]: "ec_recovery_after (fc_classification (for_class c)) = None"
  by (simp add: fc_defs split: prod.split)

lemma classify_recovery:
  "ec_recovery_after (fc_classification (classify_provider_failure f)) =
    (let class = failure_class_of f;
         recovery = (case of_retry_after f of Some d \<Rightarrow> d | None \<Rightarrow> default_recovery_for class) in
     if recovery = 0 \<or> cooldown_scope_for class = None then None else Some recovery)"
  using cooldown_scope_for_allows [of "failure_class_of f"]
  by (cases "cooldown_scope_for (failure_class_of f)")
    (simp_all add: classify_provider_failure_def Let_def fc_with_recovery_after_def
      fc_with_cooldown_def ec_with_recovery_after_def)

lemma for_class_cooling_retryable:
  "cooldown_scope_for c \<noteq> None \<Longrightarrow> ec_can_retry_before_commit (fc_classification (for_class c))"
  by (cases c) (simp_all add: fc_defs ec_can_retry_before_commit_def)

lemma classify_can_retry:
  "ec_can_retry_before_commit (fc_classification (classify_provider_failure f)) =
     ec_can_retry_before_commit (fc_classification (for_class (failure_class_of f)))"
  by (simp add: classify_provider_failure_def Let_def fc_with_recovery_after_def
      fc_with_cooldown_def ec_with_recovery_after_def ec_can_retry_before_commit_def
      split: option.split)

lemma default_recovery_positive:
  "cooldown_scope_for c \<noteq> None \<longleftrightarrow> default_recovery_for c > 0"
  by (cases c) (auto simp: from_secs_def nanos_per_sec_def)

section \<open>Properties\<close>



text \<open>Cooldowns and recovery hints agree: the classifier asks for a cooldown exactly when it
  gives a recovery hint, for the same positive duration, and only for a classification that may
  be retried before commitment; that duration is the provider's own hint when there is one.\<close>

theorem classified_cooldown_matches_recovery:
  "map_option spec_duration (fc_cooldown (classify_provider_failure f))
     = ec_recovery_after (fc_classification (classify_provider_failure f))
   \<and> (\<forall>spec. fc_cooldown (classify_provider_failure f) = Some spec \<longrightarrow>
        0 < spec_duration spec
        \<and> (\<forall>d. of_retry_after f = Some d \<longrightarrow> spec_duration spec = d)
        \<and> cooldown_scope_for (failure_class_of f) = Some (spec_scope spec)
        \<and> ec_can_retry_before_commit (fc_classification (classify_provider_failure f)))"
  using for_class_cooling_retryable [of "failure_class_of f"]
  by (cases "of_retry_after f"; cases "cooldown_scope_for (failure_class_of f)")
    (simp_all add: classify_cooldown classify_recovery classify_can_retry Let_def split: if_splits)

theorem classified_cooldown_matches_recovery_witness:
  "let f = with_retry_after (from_secs 7) (observed_failure_new FromUpstream (Some 429)) in
   fc_cooldown (classify_provider_failure f)
     = Some \<lparr>spec_scope = KindProvider, spec_duration = from_secs 7\<rparr>
   \<and> ec_can_retry_before_commit (fc_classification (classify_provider_failure f))"
proof -
  let ?f = "with_retry_after (from_secs 7) (observed_failure_new FromUpstream (Some 429))"
  have "failure_class_of ?f = ProviderRateLimited" by code_simp
  then have "fc_cooldown (classify_provider_failure ?f)
      = Some \<lparr>spec_scope = KindProvider, spec_duration = from_secs 7\<rparr>"
    by (simp add: classify_cooldown with_retry_after_def from_secs_def nanos_per_sec_def)
  then show ?thesis using classified_cooldown_matches_recovery [of ?f] by (simp add: Let_def)
qed

end
