(* ===== verification/Retry.thy ===== *)
theory Retry
  imports Failure
begin

text \<open>
  The retry policy (\<open>pooler-policy/src/lib.rs\<close>, second section): commitment state, replay
  checks, the decision whether a failed attempt is replayed, and the accounting the proxy's
  attempt loop does with a decision (\<open>wait_for_policy_retry\<close> in \<open>pooler-http/src/proxy.rs\<close>).
\<close>

section \<open>Commitment and replay\<close>

datatype commitment_state = Uncommitted | HeadersSent | Committed

definition is_committed :: "commitment_state \<Rightarrow> bool" where
  "is_committed c \<longleftrightarrow> c \<noteq> Uncommitted"

text \<open>\<open>Commitment\<close> wraps the state; \<open>state\<close> reads it back.\<close>

datatype commitment = Commitment (commitment_state: commitment_state)

definition commitment_new :: commitment where "commitment_new = Commitment Uncommitted"

definition commitment_mark_headers_sent :: "commitment \<Rightarrow> commitment" where
  "commitment_mark_headers_sent c =
     (if commitment_state c = Uncommitted then Commitment HeadersSent else c)"

definition commitment_mark_committed :: "commitment \<Rightarrow> commitment" where
  "commitment_mark_committed c = Commitment Committed"

record replay_check =
  body_replayable :: bool
  operation_replayable :: bool
  no_nonrepeatable_side_effect :: bool
  session_allows_replay :: bool

definition replay_safe :: replay_check where
  "replay_safe =
     \<lparr>body_replayable = True, operation_replayable = True, no_nonrepeatable_side_effect = True,
      session_allows_replay = True\<rparr>"

definition for_http_method :: "string \<Rightarrow> bool \<Rightarrow> replay_check" where
  "for_http_method meth idempotency_key_present =
     (let idempotent = (meth \<in> {''GET'', ''HEAD'', ''OPTIONS'', ''PUT'', ''DELETE'', ''TRACE''}) in
      \<lparr>body_replayable = True, operation_replayable = idempotent \<or> idempotency_key_present,
       no_nonrepeatable_side_effect = True, session_allows_replay = True\<rparr>)"

definition replay_is_safe :: "replay_check \<Rightarrow> bool" where
  "replay_is_safe r \<longleftrightarrow>
     body_replayable r \<and> operation_replayable r \<and> no_nonrepeatable_side_effect r
     \<and> session_allows_replay r"

section \<open>Contexts, policies and decisions\<close>

datatype retry_target_change = SameTarget | DifferentCredential | DifferentProvider

record retry_context =
  rc_attempt :: u32
  rc_commitment :: commitment_state
  rc_replay :: replay_check
  rc_elapsed_retry_delay :: duration
  rc_elapsed :: duration
  rc_credentials_used :: u32
  rc_providers_used :: u32
  rc_elapsed_recovery_wait :: duration
  rc_idempotency_key_present :: bool
  rc_target_change :: retry_target_change

definition retry_context_new :: "u32 \<Rightarrow> commitment_state \<Rightarrow> replay_check \<Rightarrow> retry_context" where
  "retry_context_new attempt com replay =
     \<lparr>rc_attempt = attempt, rc_commitment = com, rc_replay = replay, rc_elapsed_retry_delay = 0,
      rc_elapsed = 0, rc_credentials_used = 1, rc_providers_used = 1,
      rc_elapsed_recovery_wait = 0, rc_idempotency_key_present = False,
      rc_target_change = SameTarget\<rparr>"

definition with_elapsed_retry_delay :: "duration \<Rightarrow> retry_context \<Rightarrow> retry_context" where
  "with_elapsed_retry_delay d c = c\<lparr>rc_elapsed_retry_delay := d\<rparr>"

definition with_elapsed :: "duration \<Rightarrow> retry_context \<Rightarrow> retry_context" where
  "with_elapsed d c = c\<lparr>rc_elapsed := d\<rparr>"

definition with_used_targets :: "u32 \<Rightarrow> u32 \<Rightarrow> retry_context \<Rightarrow> retry_context" where
  "with_used_targets creds provs c = c\<lparr>rc_credentials_used := creds, rc_providers_used := provs\<rparr>"

definition with_elapsed_recovery_wait :: "duration \<Rightarrow> retry_context \<Rightarrow> retry_context" where
  "with_elapsed_recovery_wait d c = c\<lparr>rc_elapsed_recovery_wait := d\<rparr>"

definition with_idempotency_key :: "bool \<Rightarrow> retry_context \<Rightarrow> retry_context" where
  "with_idempotency_key present c = c\<lparr>rc_idempotency_key_present := present\<rparr>"

definition with_target_change :: "retry_target_change \<Rightarrow> retry_context \<Rightarrow> retry_context" where
  "with_target_change ch c = c\<lparr>rc_target_change := ch\<rparr>"

datatype retry_stop_reason =
    StopDownstreamCommitted | StopNotReplaySafe | StopClassificationNotRetryable
  | StopRequiresIdempotencyKey | StopAttemptsExhausted | StopCredentialsExhausted
  | StopProvidersExhausted | StopRecoveryWaitExhausted | StopRetryBudgetExhausted
  | StopNoAlternateTarget

datatype retry_reason = ReplaySafeBeforeCommit | AlternateCredential | AlternateProvider

text \<open>\<open>Retry\<close> carries the wall-clock delay, the two budget charges and the reason.\<close>

datatype retry_decision =
    RetryAfter duration duration duration retry_reason
  | DoNotRetry retry_stop_reason

fun is_retry :: "retry_decision \<Rightarrow> bool" where
  "is_retry (RetryAfter d rd rw r) = True"
| "is_retry (DoNotRetry r) = False"

fun decision_delay :: "retry_decision \<Rightarrow> duration" where
  "decision_delay (RetryAfter d rd rw r) = d"
| "decision_delay (DoNotRetry r) = 0"

fun decision_retry_delay :: "retry_decision \<Rightarrow> duration" where
  "decision_retry_delay (RetryAfter d rd rw r) = rd"
| "decision_retry_delay (DoNotRetry r) = 0"

fun decision_recovery_wait :: "retry_decision \<Rightarrow> duration" where
  "decision_recovery_wait (RetryAfter d rd rw r) = rw"
| "decision_recovery_wait (DoNotRetry r) = 0"

record retry_policy =
  max_attempts :: u32
  max_credentials :: u32
  max_providers :: u32
  base_delay :: duration
  max_delay :: duration
  max_total_delay :: duration
  max_elapsed :: "duration option"
  max_recovery_wait :: duration

definition retry_policy_default :: retry_policy where
  "retry_policy_default =
     \<lparr>max_attempts = 2, max_credentials = 2, max_providers = 2, base_delay = from_millis 100,
      max_delay = from_secs 30, max_total_delay = from_secs 60,
      max_elapsed = Some (from_secs 60), max_recovery_wait = from_secs 60\<rparr>"

datatype policy_error = InvalidRetryBudget

definition retry_policy_new ::
  "u32 \<Rightarrow> duration \<Rightarrow> duration \<Rightarrow> duration \<Rightarrow> policy_error + retry_policy" where
  "retry_policy_new attempts base maxd tot =
     (if attempts = 0 \<or> base > maxd then Inl InvalidRetryBudget
      else Inr \<lparr>max_attempts = attempts, max_credentials = attempts, max_providers = attempts,
                base_delay = base, max_delay = maxd, max_total_delay = tot,
                max_elapsed = Some tot, max_recovery_wait = tot\<rparr>)"

definition retry_policy_with_bounds ::
  "u32 \<Rightarrow> u32 \<Rightarrow> u32 \<Rightarrow> duration \<Rightarrow> duration \<Rightarrow> duration \<Rightarrow> duration \<Rightarrow> policy_error + retry_policy" where
  "retry_policy_with_bounds attempts creds provs base maxd tot wait =
     (if attempts = 0 \<or> creds = 0 \<or> provs = 0 \<or> base > maxd then Inl InvalidRetryBudget
      else Inr \<lparr>max_attempts = attempts, max_credentials = creds, max_providers = provs,
                base_delay = base, max_delay = maxd, max_total_delay = tot,
                max_elapsed = Some tot, max_recovery_wait = wait\<rparr>)"

definition with_max_elapsed :: "duration option \<Rightarrow> retry_policy \<Rightarrow> retry_policy" where
  "with_max_elapsed m p = p\<lparr>max_elapsed := m\<rparr>"

fun avoids :: "retry_target_change \<Rightarrow> error_scope \<Rightarrow> bool" where
  "avoids DifferentCredential EsCredential = True"
| "avoids DifferentProvider EsCredential = True"
| "avoids DifferentProvider EsProvider = True"
| "avoids _ _ = False"

text \<open>The shift amount \<open>min (attempt - 1) 31\<close> stays below the width of a \<open>u32\<close>.\<close>

definition delay_components ::
  "retry_policy \<Rightarrow> failure_classification \<Rightarrow> u32 \<Rightarrow> bool \<Rightarrow> duration \<times> duration" where
  "delay_components p f attempt avoids_failed_scope =
     (if avoids_failed_scope then (0, 0)
      else
        let multiplier = push_bit (unat (min (saturating_sub attempt 1) 31)) (1 :: u32);
            retry_delay = min (duration_mul (base_delay p) (unat multiplier)) (max_delay p);
            recovery_wait = (case ec_recovery_after (fc_classification f) of
                               Some d \<Rightarrow> d | None \<Rightarrow> 0)
        in (retry_delay, recovery_wait))"

fun retry_reason_for :: "retry_target_change \<Rightarrow> retry_reason" where
  "retry_reason_for SameTarget = ReplaySafeBeforeCommit"
| "retry_reason_for DifferentCredential = AlternateCredential"
| "retry_reason_for DifferentProvider = AlternateProvider"

fun exceeds :: "duration \<Rightarrow> duration option \<Rightarrow> bool" where
  "exceeds d (Some l) = (d > l)"
| "exceeds d None = False"

definition decide :: "retry_policy \<Rightarrow> failure_classification \<Rightarrow> retry_context \<Rightarrow> retry_decision" where
  "decide p f c =
     (let cl = fc_classification f in
      if is_committed (rc_commitment c) then DoNotRetry StopDownstreamCommitted
      else if exceeds (rc_elapsed c) (max_elapsed p) then DoNotRetry StopRetryBudgetExhausted
      else if ec_retryability cl \<noteq> BeforeCommit \<or> ec_replay_safety cl = NotReplayable
        then DoNotRetry StopClassificationNotRetryable
      else if \<not> replay_is_safe (rc_replay c) then DoNotRetry StopNotReplaySafe
      else if ec_replay_safety cl = RequiresIdempotencyKey \<and> \<not> rc_idempotency_key_present c
        then DoNotRetry StopRequiresIdempotencyKey
      else if rc_attempt c = 0 \<or> rc_attempt c \<ge> max_attempts p
        then DoNotRetry StopAttemptsExhausted
      else if ec_scope cl = EsCredential \<and> rc_credentials_used c \<ge> max_credentials p
        then DoNotRetry StopCredentialsExhausted
      else if ec_scope cl = EsProvider \<and> rc_providers_used c \<ge> max_providers p
        then DoNotRetry StopProvidersExhausted
      else
        let (retry_delay, recovery_wait) =
              delay_components p f (rc_attempt c) (avoids (rc_target_change c) (ec_scope cl));
            delay = max retry_delay recovery_wait in
        if exceeds (duration_add (rc_elapsed c) delay) (max_elapsed p)
          then DoNotRetry StopRetryBudgetExhausted
        else if duration_add (rc_elapsed_recovery_wait c) recovery_wait > max_recovery_wait p
          then DoNotRetry StopRecoveryWaitExhausted
        else if duration_add (rc_elapsed_retry_delay c) retry_delay > max_total_delay p
          then DoNotRetry StopRetryBudgetExhausted
        else RetryAfter delay retry_delay recovery_wait (retry_reason_for (rc_target_change c)))"

definition should_retry :: "retry_policy \<Rightarrow> failure_classification \<Rightarrow> retry_context \<Rightarrow> bool" where
  "should_retry p f c \<longleftrightarrow> is_retry (decide p f c)"

section \<open>The attempt loop's accounting\<close>

record retry_account =
  ra_attempt :: u32
  ra_retry_delay :: duration
  ra_recovery_wait :: duration

text \<open>
  \<open>wait_for_policy_retry\<close>: the remaining time to the retry deadline and whether the request is
  cancelled before the wait ends are arguments; a wait that does not complete is the proxy's
  \<open>Timeout\<close> error, here \<open>None\<close>. The loop then increments its attempt counter.
\<close>

definition wait_for_policy_retry ::
  "retry_decision \<Rightarrow> duration \<Rightarrow> bool \<Rightarrow> duration \<times> duration \<Rightarrow> (duration \<times> duration) option" where
  "wait_for_policy_retry dec remaining cancelled spent =
     (if decision_delay dec > remaining then None
      else if cancelled then None
      else Some (duration_add (fst spent) (decision_retry_delay dec),
                 duration_add (snd spent) (decision_recovery_wait dec)))"

definition next_attempt :: "retry_decision \<Rightarrow> duration \<Rightarrow> bool \<Rightarrow> retry_account \<Rightarrow> retry_account option" where
  "next_attempt dec remaining cancelled a =
     map_option
       (\<lambda>(rd, rw). \<lparr>ra_attempt = saturating_add (ra_attempt a) 1, ra_retry_delay = rd,
                    ra_recovery_wait = rw\<rparr>)
       (wait_for_policy_retry dec remaining cancelled (ra_retry_delay a, ra_recovery_wait a))"

definition first_attempt :: retry_account where
  "first_attempt = \<lparr>ra_attempt = 1, ra_retry_delay = 0, ra_recovery_wait = 0\<rparr>"

text \<open>
  The runs of the loop: each step is a failed attempt that the policy lets the proxy replay. The
  failure, the target change, the elapsed time and the remaining time are whatever the attempt
  produced; attempt number and spent delays are the loop's own.
\<close>

inductive retry_run :: "retry_policy \<Rightarrow> retry_account \<Rightarrow> nat \<Rightarrow> bool" for p where
  retry_start: "retry_run p first_attempt 0"
| retry_again:
    "\<lbrakk>retry_run p a n;
      rc_attempt c = ra_attempt a;
      rc_elapsed_retry_delay c = ra_retry_delay a;
      rc_elapsed_recovery_wait c = ra_recovery_wait a;
      is_retry (decide p f c);
      next_attempt (decide p f c) remaining cancelled a = Some a'\<rbrakk>
     \<Longrightarrow> retry_run p a' (Suc n)"

section \<open>What a decision guarantees\<close>

lemma is_retry_decide:
  "is_retry (decide p f c) \<longleftrightarrow>
     (let cl = fc_classification f;
          dc = delay_components p f (rc_attempt c) (avoids (rc_target_change c) (ec_scope cl)) in
      rc_commitment c = Uncommitted
      \<and> \<not> exceeds (rc_elapsed c) (max_elapsed p)
      \<and> ec_can_retry_before_commit cl
      \<and> replay_is_safe (rc_replay c)
      \<and> (ec_replay_safety cl = RequiresIdempotencyKey \<longrightarrow> rc_idempotency_key_present c)
      \<and> 0 < rc_attempt c \<and> rc_attempt c < max_attempts p
      \<and> (ec_scope cl = EsCredential \<longrightarrow> rc_credentials_used c < max_credentials p)
      \<and> (ec_scope cl = EsProvider \<longrightarrow> rc_providers_used c < max_providers p)
      \<and> \<not> exceeds (duration_add (rc_elapsed c) (max (fst dc) (snd dc))) (max_elapsed p)
      \<and> duration_add (rc_elapsed_recovery_wait c) (snd dc) \<le> max_recovery_wait p
      \<and> duration_add (rc_elapsed_retry_delay c) (fst dc) \<le> max_total_delay p)"
  by (auto simp: decide_def Let_def is_committed_def ec_can_retry_before_commit_def
      not_le not_less word_gt_0 split: prod.split)

lemma decide_retry_value:
  assumes "is_retry (decide p f c)"
  shows "decide p f c =
    (let dc = delay_components p f (rc_attempt c)
                (avoids (rc_target_change c) (ec_scope (fc_classification f))) in
     RetryAfter (max (fst dc) (snd dc)) (fst dc) (snd dc) (retry_reason_for (rc_target_change c)))"
  using assms by (auto simp: decide_def Let_def split: prod.splits if_splits)

lemma retry_delay_le: "fst (delay_components p f n b) \<le> max_delay p"
  by (simp add: delay_components_def Let_def)

text \<open>The account of a run: the attempt number counts the retries, and both budgets hold.\<close>

lemma retry_run_account:
  assumes "retry_run p a n"
  shows "unat (ra_attempt a) = n + 1 \<and> (n > 0 \<longrightarrow> n < unat (max_attempts p))
    \<and> ra_retry_delay a \<le> max_total_delay p \<and> ra_recovery_wait a \<le> max_recovery_wait p"
  using assms
proof (induction rule: retry_run.induct)
  case retry_start
  then show ?case by (simp add: first_attempt_def)
next
  case (retry_again a n c f remaining cancelled a')
  let ?dc = "delay_components p f (rc_attempt c)
    (avoids (rc_target_change c) (ec_scope (fc_classification f)))"
  note retry = \<open>is_retry (decide p f c)\<close>
  have below: "ra_attempt a < max_attempts p"
    and rw: "duration_add (ra_recovery_wait a) (snd ?dc) \<le> max_recovery_wait p"
    and rd: "duration_add (ra_retry_delay a) (fst ?dc) \<le> max_total_delay p"
    using retry retry_again.hyps(2-4) by (auto simp: is_retry_decide Let_def)
  have a': "a' = \<lparr>ra_attempt = saturating_add (ra_attempt a) 1,
      ra_retry_delay = duration_add (ra_retry_delay a) (fst ?dc),
      ra_recovery_wait = duration_add (ra_recovery_wait a) (snd ?dc)\<rparr>"
    using retry_again.hyps(6) decide_retry_value [OF retry]
    by (auto simp: next_attempt_def wait_for_policy_retry_def Let_def split: if_splits)
  have "ra_attempt a \<noteq> - 1" using below by (metis word_not_simps(3))
  then show ?case using retry_again.IH below rw rd
    by (simp add: a' unat_saturating_add_one word_less_nat_alt)
qed

section \<open>Properties\<close>

text \<open>C1. A retry is only ever granted safely: when the policy decides to retry, no downstream
  output is visible, the failure is retryable and replay-safe (with the idempotency key where one
  is required), the attempt limit is not reached, the wait is the larger of backoff and recovery
  window, the backoff is capped, a retry of the same target waits at least for its recovery
  window, and the charges fit the three time budgets.\<close>

theorem retry_decision_safe:
  assumes "decide p f c = RetryAfter d rd rw r"
    and "max_elapsed p = Some l" "l < duration_max"
    and "max_total_delay p < duration_max" "max_recovery_wait p < duration_max"
  shows "rc_commitment c = Uncommitted \<and> replay_is_safe (rc_replay c)
    \<and> ec_can_retry_before_commit (fc_classification f)
    \<and> (ec_replay_safety (fc_classification f) = RequiresIdempotencyKey \<longrightarrow>
         rc_idempotency_key_present c)
    \<and> 1 \<le> rc_attempt c \<and> rc_attempt c < max_attempts p
    \<and> d = max rd rw \<and> rd \<le> max_delay p
    \<and> (rc_target_change c = SameTarget \<longrightarrow>
         (\<forall>w. ec_recovery_after (fc_classification f) = Some w \<longrightarrow> w \<le> d))
    \<and> rc_elapsed c + d \<le> l
    \<and> rc_elapsed_retry_delay c + rd \<le> max_total_delay p
    \<and> rc_elapsed_recovery_wait c + rw \<le> max_recovery_wait p"
proof -
  let ?dc = "delay_components p f (rc_attempt c)
    (avoids (rc_target_change c) (ec_scope (fc_classification f)))"
  have retry: "is_retry (decide p f c)" using assms(1) by simp
  have v: "d = max (fst ?dc) (snd ?dc)" "rd = fst ?dc" "rw = snd ?dc"
    using decide_retry_value [OF retry] assms(1) by (auto simp: Let_def)
  have same: "rc_target_change c = SameTarget \<Longrightarrow>
      ec_recovery_after (fc_classification f) = Some w \<Longrightarrow> w \<le> d" for w
    by (simp add: v delay_components_def Let_def)
  have "rd \<le> max_delay p" by (simp add: v retry_delay_le)
  moreover have "1 \<le> rc_attempt c"
    using retry by (simp add: is_retry_decide Let_def word_le_nat_alt word_less_nat_alt)
  moreover have "rc_elapsed c + d \<le> l"
    using retry assms(2,3) duration_add_le [of "rc_elapsed c" d l]
    by (simp add: is_retry_decide Let_def v)
  moreover have "rc_elapsed_retry_delay c + rd \<le> max_total_delay p"
    using retry assms(4) duration_add_le [of _ rd] by (simp add: is_retry_decide Let_def v)
  moreover have "rc_elapsed_recovery_wait c + rw \<le> max_recovery_wait p"
    using retry assms(5) duration_add_le [of _ rw] by (simp add: is_retry_decide Let_def v)
  ultimately show ?thesis
    using retry same by (auto simp: is_retry_decide Let_def v)
qed

theorem retry_decision_safe_witness:
  "decide retry_policy_default (for_class ProviderUnavailable)
       (retry_context_new 1 Uncommitted replay_safe)
     = RetryAfter (from_millis 100) (from_millis 100) 0 ReplaySafeBeforeCommit
   \<and> 0 + from_millis 100 \<le> max_total_delay retry_policy_default"
proof -
  have d: "decide retry_policy_default (for_class ProviderUnavailable)
       (retry_context_new 1 Uncommitted replay_safe)
     = RetryAfter (from_millis 100) (from_millis 100) 0 ReplaySafeBeforeCommit"
    by code_simp
  have b: "max_elapsed retry_policy_default = Some (from_secs 60)" "from_secs 60 < duration_max"
    "max_total_delay retry_policy_default < duration_max"
    "max_recovery_wait retry_policy_default < duration_max"
    by (simp_all add: retry_policy_default_def from_secs_def nanos_per_sec_def duration_max_def)
  show ?thesis
    using d retry_decision_safe [OF d b] by (simp add: retry_context_new_def)
qed



end
