(* ===== verification/Stream_Commitment.thy ===== *)
theory Stream_Commitment
  imports Pooler_Prelude
begin

text \<open>
  The commitment state machine of one downstream stream (\<open>pooler-http/src/stream.rs\<close>): the
  transport milestones, the boundary after which output is visible, and the retry transition it
  gates. Runs are the reflexive transitive closure of the step relation.
\<close>

datatype stream_state =
    StCreated | StConnecting | StAwaitingHeaders | StValidatingHeaders | StBootstrapBuffering
  | StCommitted | StCompleted | StDisconnected | StRetryableFailure | StFailed

datatype stream_event =
    EvConnect | EvHeadersReceived | EvHeadersValidated | EvBootstrap | EvHeadersSent | EvCommit
  | EvComplete | EvDisconnect | EvRetryableFailure | EvFailure

record commitment_error =
  ce_state :: stream_state
  ce_event :: stream_event

datatype retry_error = RetryCommitted | RetryNotRetryable | RetryTerminal

datatype retry_wait_error = RetryWaitCanceled

record stream_commitment =
  sc_state :: stream_state
  sc_attempt :: u32
  sc_committed :: bool

definition stream_new :: stream_commitment where
  "stream_new = \<lparr>sc_state = StCreated, sc_attempt = 0, sc_committed = False\<rparr>"

definition can_retry :: "stream_commitment \<Rightarrow> bool" where
  "can_retry s \<longleftrightarrow> \<not> sc_committed s \<and> sc_state s = StRetryableFailure"

text \<open>The states before commitment and before any outcome, as the source lists them.\<close>

definition in_progress :: "stream_state \<Rightarrow> bool" where
  "in_progress st \<longleftrightarrow>
     st \<in> {StCreated, StConnecting, StAwaitingHeaders, StValidatingHeaders, StBootstrapBuffering}"

text \<open>The \<open>match\<close> of \<open>StreamCommitment::transition\<close>, first matching arm first.\<close>

definition next_state :: "stream_state \<Rightarrow> stream_event \<Rightarrow> stream_state option" where
  "next_state st ev =
     (if st = StCreated \<and> ev = EvConnect then Some StConnecting
      else if st = StConnecting \<and> ev = EvHeadersReceived then Some StAwaitingHeaders
      else if st = StAwaitingHeaders \<and> ev = EvHeadersValidated then Some StValidatingHeaders
      else if st = StValidatingHeaders \<and> ev = EvBootstrap then Some StBootstrapBuffering
      else if in_progress st \<and> ev = EvHeadersSent then Some StCommitted
      else if st = StBootstrapBuffering \<and> ev = EvCommit then Some StCommitted
      else if st = StCommitted \<and> ev = EvComplete then Some StCompleted
      else if st = StCommitted \<and> ev = EvDisconnect then Some StDisconnected
      else if st = StCommitted \<and> ev = EvFailure then Some StFailed
      else if in_progress st \<and> ev = EvRetryableFailure then Some StRetryableFailure
      else if in_progress st \<and> ev = EvFailure then Some StFailed
      else if in_progress st \<and> ev = EvDisconnect then Some StDisconnected
      else if st = StRetryableFailure \<and> ev = EvRetryableFailure then Some StRetryableFailure
      else None)"

definition transition ::
  "stream_event \<Rightarrow> stream_commitment \<Rightarrow> commitment_error + stream_commitment" where
  "transition ev s =
     (case next_state (sc_state s) ev of
        None \<Rightarrow> Inl \<lparr>ce_state = sc_state s, ce_event = ev\<rparr>
      | Some nxt \<Rightarrow>
          Inr (if nxt = StCommitted then s\<lparr>sc_committed := True, sc_state := nxt\<rparr>
               else s\<lparr>sc_state := nxt\<rparr>))"

definition stream_retry :: "stream_commitment \<Rightarrow> retry_error + u32 \<times> stream_commitment" where
  "stream_retry s =
     (if sc_committed s then Inl RetryCommitted
      else if sc_state s \<noteq> StRetryableFailure then
        Inl (if sc_state s \<in> {StCompleted, StDisconnected, StFailed} then RetryTerminal
             else RetryNotRetryable)
      else
        let n = saturating_add (sc_attempt s) 1 in
        Inr (n, s\<lparr>sc_attempt := n, sc_state := StConnecting\<rparr>))"

text \<open>\<open>wait_for_retry\<close>: cancellation before the wait, or during a nonzero wait, cancels it.\<close>

definition wait_for_retry :: "duration \<Rightarrow> bool \<Rightarrow> bool \<Rightarrow> retry_wait_error + unit" where
  "wait_for_retry delay cancelled_before cancelled_during =
     (if cancelled_before then Inl RetryWaitCanceled
      else if delay = 0 then Inr ()
      else if cancelled_during then Inl RetryWaitCanceled
      else Inr ())"

section \<open>Runs\<close>

inductive stream_step :: "stream_commitment \<Rightarrow> stream_commitment \<Rightarrow> bool" where
  step_transition: "transition ev s = Inr t \<Longrightarrow> stream_step s t"
| step_retry: "stream_retry s = Inr (n, t) \<Longrightarrow> stream_step s t"

inductive_cases stream_stepE: "stream_step s t"

definition stream_inv :: "stream_commitment \<Rightarrow> bool" where
  "stream_inv s \<longleftrightarrow>
     (sc_state s \<in> {StCommitted, StCompleted} \<longrightarrow> sc_committed s)
     \<and> (sc_committed s \<longrightarrow> sc_state s \<in> {StCommitted, StCompleted, StDisconnected, StFailed})"

lemmas transition_defs = transition_def next_state_def in_progress_def

lemma transition_Inr:
  "transition ev s = Inr t \<Longrightarrow>
     next_state (sc_state s) ev = Some (sc_state t) \<and> sc_attempt t = sc_attempt s
     \<and> sc_committed t = (sc_committed s \<or> sc_state t = StCommitted)"
  by (auto simp: transition_def split: option.splits if_splits)

lemma next_state_StCompleted: "next_state st ev = Some StCompleted \<Longrightarrow> st = StCommitted"
  by (cases st; cases ev; simp add: next_state_def in_progress_def)

lemma next_state_settled:
  "next_state st ev = Some nxt \<Longrightarrow> st \<in> {StCommitted, StCompleted, StDisconnected, StFailed} \<Longrightarrow>
     st = StCommitted \<and> nxt \<in> {StCompleted, StDisconnected, StFailed}"
  by (cases st; cases ev; simp add: next_state_def in_progress_def; blast)

lemma stream_step_inv: "stream_step s t \<Longrightarrow> stream_inv s \<Longrightarrow> stream_inv t"
proof (erule stream_stepE)
  fix ev assume tr: "transition ev s = Inr t" and inv: "stream_inv s"
  have nx: "next_state (sc_state s) ev = Some (sc_state t)"
    and cm: "sc_committed t = (sc_committed s \<or> sc_state t = StCommitted)"
    using transition_Inr [OF tr] by simp_all
  show "stream_inv t"
  proof (cases "sc_state s \<in> {StCommitted, StCompleted, StDisconnected, StFailed}")
    case True
    from next_state_settled [OF nx True] inv cm show ?thesis by (auto simp: stream_inv_def)
  next
    case False
    then have "\<not> sc_committed s" using inv unfolding stream_inv_def by blast
    moreover have "sc_state t \<noteq> StCompleted"
      using next_state_StCompleted nx False by (metis insertI1)
    ultimately show ?thesis using cm by (simp add: stream_inv_def)
  qed
next
  fix n assume "stream_retry s = Inr (n, t)" and "stream_inv s"
  then show "stream_inv t" by (auto simp: stream_retry_def stream_inv_def Let_def split: if_splits)
qed

lemma stream_run_inv: "stream_step\<^sup>*\<^sup>* s t \<Longrightarrow> stream_inv s \<Longrightarrow> stream_inv t"
  by (induction rule: rtranclp_induct) (auto intro: stream_step_inv)

lemma stream_inv_new: "stream_inv stream_new"
  by (simp add: stream_inv_def stream_new_def)

lemma stream_step_committed:
  "stream_step s t \<Longrightarrow> sc_committed s \<Longrightarrow> sc_committed t \<and> sc_attempt t = sc_attempt s"
  by (erule stream_stepE) (auto dest: transition_Inr simp: stream_retry_def)

lemma stream_run_committed:
  "stream_step\<^sup>*\<^sup>* s t \<Longrightarrow> sc_committed s \<Longrightarrow> sc_committed t \<and> sc_attempt t = sc_attempt s"
  by (induction rule: rtranclp_induct) (auto dest: stream_step_committed)

section \<open>Properties\<close>

text \<open>C37. Commitment is final: from a fresh stream, whatever milestones and retries happened, once
  headers or a byte of output are visible the stream stays committed over every continuation, the
  attempt counter never moves again, every retry is refused with \<open>Committed\<close>, and the only
  states left are committed or settled ones.\<close>

theorem committed_stream_never_retries:
  assumes "stream_step\<^sup>*\<^sup>* stream_new s" and "sc_committed s" and "stream_step\<^sup>*\<^sup>* s t"
  shows "sc_committed t \<and> sc_attempt t = sc_attempt s \<and> stream_retry t = Inl RetryCommitted
    \<and> \<not> can_retry t \<and> sc_state t \<in> {StCommitted, StCompleted, StDisconnected, StFailed}"
proof -
  have c: "sc_committed t" "sc_attempt t = sc_attempt s"
    using stream_run_committed [OF assms(3,2)] by simp_all
  have "stream_inv t"
    using stream_run_inv [OF assms(3) stream_run_inv [OF assms(1) stream_inv_new]] .
  with c show ?thesis by (simp add: stream_retry_def can_retry_def stream_inv_def)
qed

theorem committed_stream_never_retries_witness:
  "let s = \<lparr>sc_state = StCommitted, sc_attempt = 0, sc_committed = True\<rparr>;
       t = \<lparr>sc_state = StFailed, sc_attempt = 0, sc_committed = True\<rparr> in
   stream_step\<^sup>*\<^sup>* stream_new s \<and> stream_step\<^sup>*\<^sup>* s t \<and> stream_retry t = Inl RetryCommitted"
proof -
  let ?s = "\<lparr>sc_state = StCommitted, sc_attempt = 0, sc_committed = True\<rparr>"
  let ?t = "\<lparr>sc_state = StFailed, sc_attempt = 0, sc_committed = True\<rparr>"
  have s: "stream_step\<^sup>*\<^sup>* stream_new ?s"
    by (rule r_into_rtranclp, rule step_transition [of EvHeadersSent])
      (simp add: transition_defs stream_new_def)
  have t: "stream_step\<^sup>*\<^sup>* ?s ?t"
    by (rule r_into_rtranclp, rule step_transition [of EvFailure]) (simp add: transition_defs)
  show ?thesis using s t committed_stream_never_retries [OF s _ t] by (simp add: Let_def)
qed

end
