(* ===== verification/Health.thy ===== *)
theory Health
  imports Failure
begin

text \<open>
  Health and cooldowns (\<open>pooler-policy/src/lib.rs\<close>, third section): typed cooldown scopes, the
  subject that resolves an abstract scope to a concrete one, and the \<open>HealthRegistry\<close> with every
  operation that changes it. A registry is three hash maps; a panic of the code (an \<open>Instant\<close>
  beyond the clock's range) is the value \<open>None\<close>.
\<close>

type_synonym credential_id = string
type_synonym model_id = string
type_synonym provider_id = string
type_synonym route_id = string
type_synonym target_id = string

section \<open>Binding identities\<close>

text \<open>\<open>BindingKey\<close> is ordered by its fields from left to right, as the derived \<open>Ord\<close> does.\<close>

datatype binding_key =
  BindingKey (bk_target: target_id) (bk_account: credential_id) (bk_fingerprint: string)

instantiation binding_key :: linorder
begin

definition less_eq_binding_key :: "binding_key \<Rightarrow> binding_key \<Rightarrow> bool" where
  "less_eq_binding_key a b \<longleftrightarrow>
     (bk_target a, bk_account a, bk_fingerprint a) \<le> (bk_target b, bk_account b, bk_fingerprint b)"

definition less_binding_key :: "binding_key \<Rightarrow> binding_key \<Rightarrow> bool" where
  "less_binding_key a b \<longleftrightarrow>
     (bk_target a, bk_account a, bk_fingerprint a) < (bk_target b, bk_account b, bk_fingerprint b)"

instance
proof
  fix a b c :: binding_key
  show "a < b \<longleftrightarrow> a \<le> b \<and> \<not> b \<le> a"
    unfolding less_eq_binding_key_def less_binding_key_def by (rule less_le_not_le)
  show "a \<le> a" unfolding less_eq_binding_key_def by (rule order_refl)
  show "a \<le> b \<Longrightarrow> b \<le> c \<Longrightarrow> a \<le> c" unfolding less_eq_binding_key_def by (rule order_trans)
  show "a \<le> b \<Longrightarrow> b \<le> a \<Longrightarrow> a = b"
    unfolding less_eq_binding_key_def using antisym by (metis binding_key.expand prod.inject)
  show "a \<le> b \<or> b \<le> a" unfolding less_eq_binding_key_def by (rule linear)
qed

end

section \<open>Cooldown scopes and subjects\<close>

datatype cooldown_scope =
    ScopeCredential credential_id
  | ScopeCredentialModel credential_id model_id
  | ScopeBinding binding_key
  | ScopeBindingModel binding_key model_id
  | ScopeModel model_id
  | ScopeProvider provider_id
  | ScopeProviderModel provider_id model_id
  | ScopeRoute route_id

fun scope_kind :: "cooldown_scope \<Rightarrow> cooldown_scope_kind" where
  "scope_kind (ScopeCredential i) = KindCredential"
| "scope_kind (ScopeCredentialModel i m) = KindCredentialModel"
| "scope_kind (ScopeBinding b) = KindCredential"
| "scope_kind (ScopeBindingModel b m) = KindCredentialModel"
| "scope_kind (ScopeModel m) = KindModel"
| "scope_kind (ScopeProvider p) = KindProvider"
| "scope_kind (ScopeProviderModel p m) = KindProviderModel"
| "scope_kind (ScopeRoute r) = KindRoute"

fun scope_credential :: "cooldown_scope \<Rightarrow> credential_id option" where
  "scope_credential (ScopeCredential i) = Some i"
| "scope_credential (ScopeCredentialModel i m) = Some i"
| "scope_credential (ScopeBinding b) = Some (bk_account b)"
| "scope_credential (ScopeBindingModel b m) = Some (bk_account b)"
| "scope_credential _ = None"

fun scope_binding :: "cooldown_scope \<Rightarrow> binding_key option" where
  "scope_binding (ScopeBinding b) = Some b"
| "scope_binding (ScopeBindingModel b m) = Some b"
| "scope_binding _ = None"

definition spec_credential :: "duration \<Rightarrow> cooldown_spec" where
  "spec_credential d = \<lparr>spec_scope = KindCredential, spec_duration = d\<rparr>"

definition spec_credential_model :: "duration \<Rightarrow> cooldown_spec" where
  "spec_credential_model d = \<lparr>spec_scope = KindCredentialModel, spec_duration = d\<rparr>"

definition spec_model :: "duration \<Rightarrow> cooldown_spec" where
  "spec_model d = \<lparr>spec_scope = KindModel, spec_duration = d\<rparr>"

definition spec_provider :: "duration \<Rightarrow> cooldown_spec" where
  "spec_provider d = \<lparr>spec_scope = KindProvider, spec_duration = d\<rparr>"

definition spec_provider_model :: "duration \<Rightarrow> cooldown_spec" where
  "spec_provider_model d = \<lparr>spec_scope = KindProviderModel, spec_duration = d\<rparr>"

definition spec_route :: "duration \<Rightarrow> cooldown_spec" where
  "spec_route d = \<lparr>spec_scope = KindRoute, spec_duration = d\<rparr>"

record health_subject =
  hs_credential :: "credential_id option"
  hs_model :: "model_id option"
  hs_provider :: "provider_id option"
  hs_route :: "route_id option"
  hs_binding :: "binding_key option"

definition health_subject_new ::
  "provider_id \<Rightarrow> model_id \<Rightarrow> credential_id \<Rightarrow> route_id \<Rightarrow> health_subject" where
  "health_subject_new p m c r =
     \<lparr>hs_credential = Some c, hs_model = Some m, hs_provider = Some p, hs_route = Some r,
      hs_binding = None\<rparr>"

definition with_binding :: "binding_key \<Rightarrow> health_subject \<Rightarrow> health_subject" where
  "with_binding b s = s\<lparr>hs_credential := Some (bk_account b), hs_binding := Some b\<rparr>"

definition zip_with_model ::
  "('a \<Rightarrow> model_id \<Rightarrow> cooldown_scope) \<Rightarrow> 'a option \<Rightarrow> model_id option \<Rightarrow> cooldown_scope option" where
  "zip_with_model mk x m =
     (case (x, m) of (Some a, Some b) \<Rightarrow> Some (mk a b) | _ \<Rightarrow> None)"

fun subject_resolve :: "health_subject \<Rightarrow> cooldown_scope_kind \<Rightarrow> cooldown_scope option" where
  "subject_resolve s KindCredential =
     (case hs_binding s of
        Some b \<Rightarrow> Some (ScopeBinding b)
      | None \<Rightarrow> map_option ScopeCredential (hs_credential s))"
| "subject_resolve s KindCredentialModel =
     (case hs_binding s of
        Some b \<Rightarrow> map_option (ScopeBindingModel b) (hs_model s)
      | None \<Rightarrow> zip_with_model ScopeCredentialModel (hs_credential s) (hs_model s))"
| "subject_resolve s KindModel = map_option ScopeModel (hs_model s)"
| "subject_resolve s KindProvider = map_option ScopeProvider (hs_provider s)"
| "subject_resolve s KindProviderModel =
     zip_with_model ScopeProviderModel (hs_provider s) (hs_model s)"
| "subject_resolve s KindRoute = map_option ScopeRoute (hs_route s)"

section \<open>The health registry\<close>

datatype credential_status = Healthy | CoolingDown | StatusDisabled

datatype health_mutation_reason =
    NoCooldownRequested | InvalidRequestCannotCooldownCredential | MissingCooldownTarget
  | ZeroCooldown | CredentialDisabled | CredentialDisableNotPersisted
  | CredentialGenerationChanged | MutationCredentialUnavailable

datatype health_mutation =
    NoChange health_mutation_reason
  | CooldownApplied cooldown_scope instant

fun mutation_applied :: "health_mutation \<Rightarrow> bool" where
  "mutation_applied (CooldownApplied sc u) = True"
| "mutation_applied (NoChange r) = False"

record credential_health =
  ch_status :: credential_status
  ch_cooldown_until :: "instant option"

definition credential_health_default :: credential_health where
  "credential_health_default = \<lparr>ch_status = Healthy, ch_cooldown_until = None\<rparr>"

record health_registry =
  hr_cooldowns :: "(cooldown_scope \<times> instant) list"
  hr_credentials :: "(credential_id \<times> credential_health) list"
  hr_bindings :: "(binding_key \<times> credential_health) list"

definition health_new :: health_registry where
  "health_new = \<lparr>hr_cooldowns = [], hr_credentials = [], hr_bindings = []\<rparr>"

definition set_cooling_down :: "instant \<Rightarrow> credential_health \<Rightarrow> credential_health" where
  "set_cooling_down until h =
     (if ch_status h \<noteq> StatusDisabled
      then h\<lparr>ch_status := CoolingDown, ch_cooldown_until := Some until\<rparr> else h)"

definition clear_cooling_down :: "credential_health \<Rightarrow> credential_health" where
  "clear_cooling_down h =
     (if ch_status h = CoolingDown
      then h\<lparr>ch_status := Healthy, ch_cooldown_until := None\<rparr> else h)"

text \<open>The \<open>match\<close> shared by \<open>restore_cooldown\<close> and \<open>apply_failure\<close>: which health entry a
  scope marks.\<close>

definition mark_cooling :: "cooldown_scope \<Rightarrow> instant \<Rightarrow> health_registry \<Rightarrow> health_registry" where
  "mark_cooling sc until h =
     (case sc of
        ScopeCredential i \<Rightarrow>
          h\<lparr>hr_credentials :=
              hash_upsert i credential_health_default (set_cooling_down until) (hr_credentials h)\<rparr>
      | ScopeBinding b \<Rightarrow>
          h\<lparr>hr_bindings :=
              hash_upsert b credential_health_default (set_cooling_down until) (hr_bindings h)\<rparr>
      | ScopeBindingModel b m \<Rightarrow>
          h\<lparr>hr_bindings :=
              hash_upsert b credential_health_default (set_cooling_down until) (hr_bindings h)\<rparr>
      | _ \<Rightarrow> h)"

text \<open>\<open>entry(scope).and_modify(max).or_insert(until)\<close>: a vacant entry gets \<open>until\<close> itself, which
  is also what \<open>max until until\<close> gives.\<close>

definition restore_cooldown :: "cooldown_scope \<Rightarrow> instant \<Rightarrow> health_registry \<Rightarrow> health_registry" where
  "restore_cooldown sc until h =
     mark_cooling sc until
       (h\<lparr>hr_cooldowns := hash_upsert sc until (\<lambda>old. max old until) (hr_cooldowns h)\<rparr>)"

definition scope_disabled :: "cooldown_scope \<Rightarrow> health_registry \<Rightarrow> bool" where
  "scope_disabled sc h =
     (case scope_binding sc of
        Some b \<Rightarrow> (case map_of (hr_bindings h) b of
                     Some e \<Rightarrow> ch_status e = StatusDisabled | None \<Rightarrow> False)
      | None \<Rightarrow>
          (case scope_credential sc of
             Some i \<Rightarrow> (case map_of (hr_credentials h) i of
                          Some e \<Rightarrow> ch_status e = StatusDisabled | None \<Rightarrow> False)
           | None \<Rightarrow> False))"

text \<open>\<open>now + Duration::from_secs(60 * 60 * 24)\<close> is evaluated before \<open>unwrap_or\<close> runs and panics
  when it leaves the clock's range.\<close>

definition cooldown_deadline :: "instant \<Rightarrow> duration \<Rightarrow> instant option" where
  "cooldown_deadline now d =
     (case instant_checked_add now (from_secs (60 * 60 * 24)) of
        None \<Rightarrow> None
      | Some fallback \<Rightarrow>
          Some (case instant_checked_add now d of Some u \<Rightarrow> u | None \<Rightarrow> fallback))"

definition apply_failure ::
  "failure_classification \<Rightarrow> health_subject \<Rightarrow> instant \<Rightarrow> health_registry \<Rightarrow>
     (health_mutation \<times> health_registry) option" where
  "apply_failure f subject now h =
     (case fc_cooldown f of
        None \<Rightarrow> Some (NoChange NoCooldownRequested, h)
      | Some spec \<Rightarrow>
          if is_request_invalid f \<and> fc_credential_causation f \<noteq> ProvenCausation
             \<and> spec_scope spec \<in> {KindCredential, KindCredentialModel}
          then Some (NoChange InvalidRequestCannotCooldownCredential, h)
          else if spec_duration spec = 0 then Some (NoChange ZeroCooldown, h)
          else
            (case subject_resolve subject (spec_scope spec) of
               None \<Rightarrow> Some (NoChange MissingCooldownTarget, h)
             | Some sc \<Rightarrow>
                 if scope_disabled sc h then Some (NoChange CredentialDisabled, h)
                 else
                   (case cooldown_deadline now (spec_duration spec) of
                      None \<Rightarrow> None
                    | Some u \<Rightarrow>
                        let until = (case map_of (hr_cooldowns h) sc of
                                       None \<Rightarrow> u | Some old \<Rightarrow> max old u) in
                        Some (CooldownApplied sc until,
                              mark_cooling sc until
                                (h\<lparr>hr_cooldowns := hash_insert sc until (hr_cooldowns h)\<rparr>)))))"

definition cooldown_until :: "health_registry \<Rightarrow> cooldown_scope \<Rightarrow> instant \<Rightarrow> instant option" where
  "cooldown_until h sc now =
     (case map_of (hr_cooldowns h) sc of
        Some u \<Rightarrow> if u > now then Some u else None
      | None \<Rightarrow> None)"

definition is_cooling_down :: "health_registry \<Rightarrow> cooldown_scope \<Rightarrow> instant \<Rightarrow> bool" where
  "is_cooling_down h sc now \<longleftrightarrow> cooldown_until h sc now \<noteq> None"

definition all_kinds :: "cooldown_scope_kind list" where
  "all_kinds =
     [KindCredential, KindCredentialModel, KindModel, KindProvider, KindProviderModel, KindRoute]"

definition target_cooldown_scopes ::
  "health_registry \<Rightarrow> health_subject \<Rightarrow> instant \<Rightarrow> cooldown_scope_kind list" where
  "target_cooldown_scopes h subject now =
     map scope_kind
       (filter (\<lambda>sc. is_cooling_down h sc now)
          (List.map_filter (subject_resolve subject) all_kinds))"

definition target_is_cooling_down :: "health_registry \<Rightarrow> health_subject \<Rightarrow> instant \<Rightarrow> bool" where
  "target_is_cooling_down h subject now \<longleftrightarrow> target_cooldown_scopes h subject now \<noteq> []"

fun iter_min :: "'a::linorder list \<Rightarrow> 'a option" where
  "iter_min [] = None"
| "iter_min (x # xs) = Some (foldl min x xs)"

definition target_recovery_until ::
  "health_registry \<Rightarrow> health_subject \<Rightarrow> instant \<Rightarrow> instant option" where
  "target_recovery_until h subject now =
     iter_min
       (List.map_filter (\<lambda>sc. cooldown_until h sc now)
          (List.map_filter (subject_resolve subject) all_kinds))"

definition target_recovery_after ::
  "health_registry \<Rightarrow> health_subject \<Rightarrow> instant \<Rightarrow> duration option" where
  "target_recovery_after h subject now =
     map_option (\<lambda>u. saturating_duration_since u now) (target_recovery_until h subject now)"

definition credential_health_of :: "health_registry \<Rightarrow> credential_id \<Rightarrow> credential_health option" where
  "credential_health_of h i = map_of (hr_credentials h) i"

definition binding_health_of :: "health_registry \<Rightarrow> binding_key \<Rightarrow> credential_health option" where
  "binding_health_of h b = map_of (hr_bindings h) b"

definition disabled_health :: credential_health where
  "disabled_health = \<lparr>ch_status = StatusDisabled, ch_cooldown_until = None\<rparr>"

definition disable_credential :: "credential_id \<Rightarrow> health_registry \<Rightarrow> health_registry" where
  "disable_credential i h =
     h\<lparr>hr_credentials := hash_insert i disabled_health (hr_credentials h)\<rparr>"

definition disable_binding :: "binding_key \<Rightarrow> health_registry \<Rightarrow> health_registry" where
  "disable_binding b h = h\<lparr>hr_bindings := hash_insert b disabled_health (hr_bindings h)\<rparr>"

definition reenable :: "credential_health \<Rightarrow> credential_health" where
  "reenable e =
     (if ch_status e = StatusDisabled
      then e\<lparr>ch_status := Healthy, ch_cooldown_until := None\<rparr> else e)"

definition enable_credential :: "credential_id \<Rightarrow> health_registry \<Rightarrow> health_registry" where
  "enable_credential i h =
     h\<lparr>hr_credentials := hash_upsert i credential_health_default reenable (hr_credentials h)\<rparr>"

definition enable_binding :: "binding_key \<Rightarrow> health_registry \<Rightarrow> health_registry" where
  "enable_binding b h =
     h\<lparr>hr_bindings := hash_upsert b credential_health_default reenable (hr_bindings h)\<rparr>"

definition remove_binding :: "binding_key \<Rightarrow> health_registry \<Rightarrow> health_registry" where
  "remove_binding b h =
     h\<lparr>hr_bindings := map_remove b (hr_bindings h),
        hr_cooldowns := filter (\<lambda>e. scope_binding (fst e) \<noteq> Some b) (hr_cooldowns h)\<rparr>"

definition clear_scope :: "cooldown_scope \<Rightarrow> health_registry \<Rightarrow> health_registry" where
  "clear_scope sc h =
     (let h = h\<lparr>hr_cooldowns := map_remove sc (hr_cooldowns h)\<rparr> in
      case sc of
        ScopeCredential i \<Rightarrow>
          h\<lparr>hr_credentials := map_modify i clear_cooling_down (hr_credentials h)\<rparr>
      | ScopeBinding b \<Rightarrow> h\<lparr>hr_bindings := map_modify b clear_cooling_down (hr_bindings h)\<rparr>
      | ScopeBindingModel b m \<Rightarrow>
          h\<lparr>hr_bindings := map_modify b clear_cooling_down (hr_bindings h)\<rparr>
      | _ \<Rightarrow> h)"

definition expired_scopes :: "instant \<Rightarrow> health_registry \<Rightarrow> cooldown_scope list" where
  "expired_scopes now h = map fst (filter (\<lambda>e. snd e \<le> now) (hr_cooldowns h))"

definition clear_expired :: "instant \<Rightarrow> health_registry \<Rightarrow> nat \<times> health_registry" where
  "clear_expired now h =
     (let expired = expired_scopes now h in (length expired, fold clear_scope expired h))"

section \<open>Runs and the invariant\<close>

datatype health_op =
    HealthRestore cooldown_scope instant
  | HealthApply failure_classification health_subject instant
  | HealthDisableCredential credential_id
  | HealthDisableBinding binding_key
  | HealthEnableCredential credential_id
  | HealthEnableBinding binding_key
  | HealthRemoveBinding binding_key
  | HealthClearExpired instant

fun health_step :: "health_op \<Rightarrow> health_registry \<Rightarrow> health_registry" where
  "health_step (HealthRestore sc u) h = restore_cooldown sc u h"
| "health_step (HealthApply f subject now) h =
     (case apply_failure f subject now h of Some (m, h') \<Rightarrow> h' | None \<Rightarrow> h)"
| "health_step (HealthDisableCredential i) h = disable_credential i h"
| "health_step (HealthDisableBinding b) h = disable_binding b h"
| "health_step (HealthEnableCredential i) h = enable_credential i h"
| "health_step (HealthEnableBinding b) h = enable_binding b h"
| "health_step (HealthRemoveBinding b) h = remove_binding b h"
| "health_step (HealthClearExpired now) h = snd (clear_expired now h)"

definition entry_ok :: "credential_health \<Rightarrow> bool" where
  "entry_ok e \<longleftrightarrow> (ch_status e = CoolingDown \<longleftrightarrow> ch_cooldown_until e \<noteq> None)"

definition health_inv :: "health_registry \<Rightarrow> bool" where
  "health_inv h \<longleftrightarrow>
     hash_ok (hr_cooldowns h) \<and> hash_ok (hr_credentials h) \<and> hash_ok (hr_bindings h)
     \<and> all_values entry_ok (hr_credentials h) \<and> all_values entry_ok (hr_bindings h)"

lemma entry_ok_simps [simp]:
  "entry_ok credential_health_default" "entry_ok disabled_health"
  "entry_ok e \<Longrightarrow> entry_ok (set_cooling_down u e)"
  "entry_ok e \<Longrightarrow> entry_ok (clear_cooling_down e)"
  "entry_ok e \<Longrightarrow> entry_ok (reenable e)"
  by (auto simp: entry_ok_def credential_health_default_def disabled_health_def
      set_cooling_down_def clear_cooling_down_def reenable_def)

lemma health_inv_mark:
  "health_inv h \<Longrightarrow> health_inv (mark_cooling sc u h)"
  by (cases sc)
    (auto simp: health_inv_def mark_cooling_def hash_ok_upsert intro!: all_values_intros)

lemma health_inv_cooldowns: "health_inv h \<Longrightarrow> hash_ok c \<Longrightarrow> health_inv (h\<lparr>hr_cooldowns := c\<rparr>)"
  by (simp add: health_inv_def)

lemma health_inv_ok [simp]: "health_inv h \<Longrightarrow> hash_ok (hr_cooldowns h)"
  by (simp add: health_inv_def)

lemma health_inv_restore: "health_inv h \<Longrightarrow> health_inv (restore_cooldown sc u h)"
  by (simp add: restore_cooldown_def health_inv_mark health_inv_cooldowns hash_ok_upsert)

lemma health_inv_apply:
  "health_inv h \<Longrightarrow> apply_failure f subject now h = Some (m, h') \<Longrightarrow> health_inv h'"
  by (auto simp: apply_failure_def Let_def health_inv_mark health_inv_cooldowns hash_ok_insert
      split: option.splits if_splits)

lemma health_inv_clear_scope: "health_inv h \<Longrightarrow> health_inv (clear_scope sc h)"
  by (cases sc)
    (auto simp: clear_scope_def health_inv_def hash.ok_remove hash.ok_modify
      intro!: all_values_intros)

lemma health_inv_clear_fold: "health_inv h \<Longrightarrow> health_inv (fold clear_scope scs h)"
  by (induction scs arbitrary: h) (auto simp: health_inv_clear_scope)

lemma health_step_inv: "health_inv h \<Longrightarrow> health_inv (health_step a h)"
proof (cases a)
  case (HealthApply f subject now)
  assume "health_inv h"
  then show ?thesis using HealthApply health_inv_apply by (auto split: option.split)
qed (auto simp: health_inv_restore health_inv_clear_fold clear_expired_def Let_def,
     auto simp: health_inv_def disable_credential_def disable_binding_def enable_credential_def
       enable_binding_def remove_binding_def hash_ok_insert hash_ok_upsert
       hash.ok_filter hash.ok_remove intro!: all_values_intros)

lemma health_inv_new [simp]: "health_inv health_new"
  by (simp add: health_inv_def health_new_def)

interpretation health: preserved_by health_step health_inv
  by unfold_locales (rule health_step_inv)

section \<open>Deadlines\<close>

abbreviation deadline :: "health_registry \<Rightarrow> cooldown_scope \<Rightarrow> instant option" where
  "deadline h sc \<equiv> map_of (hr_cooldowns h) sc"

lemma cooldowns_mark [simp]: "hr_cooldowns (mark_cooling sc u h) = hr_cooldowns h"
  by (simp add: mark_cooling_def split: cooldown_scope.split)

lemma deadline_restore:
  "deadline (restore_cooldown sc u h) sc' =
     (if sc' = sc then Some (case deadline h sc of None \<Rightarrow> u | Some old \<Rightarrow> max old u)
      else deadline h sc')"
  by (simp add: restore_cooldown_def map_of_hash_upsert split: option.split)

lemma cooldown_deadline_ge:
  assumes "cooldown_deadline now d = Some u"
  shows "now < u \<or> d = 0" and "instant_checked_add now d = Some e \<Longrightarrow> u = e"
  using assms
  by (auto simp: cooldown_deadline_def instant_checked_add_def from_secs_def nanos_per_sec_def
      split: option.splits if_splits)

lemma apply_failure_applied:
  assumes "apply_failure f subject now h = Some (CooldownApplied sc u, h')"
  obtains spec v where "fc_cooldown f = Some spec" "spec_duration spec \<noteq> 0"
    "subject_resolve subject (spec_scope spec) = Some sc"
    "\<not> (is_request_invalid f \<and> fc_credential_causation f \<noteq> ProvenCausation
        \<and> spec_scope spec \<in> {KindCredential, KindCredentialModel})"
    "\<not> scope_disabled sc h" "cooldown_deadline now (spec_duration spec) = Some v"
    "u = (case deadline h sc of None \<Rightarrow> v | Some old \<Rightarrow> max old v)"
    "h' = mark_cooling sc u (h\<lparr>hr_cooldowns := hash_insert sc u (hr_cooldowns h)\<rparr>)"
proof (cases "fc_cooldown f")
  case None
  then show ?thesis using assms by (simp add: apply_failure_def)
next
  case spec: (Some spec)
  show ?thesis
  proof (cases "subject_resolve subject (spec_scope spec)")
    case None
    then show ?thesis using assms spec by (simp add: apply_failure_def split: if_splits)
  next
    case scope: (Some sc')
    show ?thesis
    proof (cases "cooldown_deadline now (spec_duration spec)")
      case None
      then show ?thesis using assms spec scope by (simp add: apply_failure_def split: if_splits)
    next
      case (Some v)
      then show ?thesis
        using assms spec scope that [of spec v]
        by (auto simp: apply_failure_def Let_def split: if_splits)
    qed
  qed
qed

lemma apply_failure_cases:
  assumes "apply_failure f subject now h = Some (m, h')"
  obtains (same) r where "m = NoChange r" "h' = h"
  | (applied) sc u where "m = CooldownApplied sc u"
  using assms unfolding apply_failure_def Let_def by (auto split: option.splits if_splits)

lemma deadline_apply:
  assumes "apply_failure f subject now h = Some (m, h')"
  shows "(\<forall>sc. deadline h' sc = deadline h sc) \<or>
    (\<exists>sc u. m = CooldownApplied sc u \<and> deadline h' = (deadline h)(sc \<mapsto> u)
       \<and> (\<forall>old. deadline h sc = Some old \<longrightarrow> old \<le> u))"
  using assms
proof (cases rule: apply_failure_cases)
  case (applied sc u)
  then obtain v where "u = (case deadline h sc of None \<Rightarrow> v | Some old \<Rightarrow> max old v)"
    "h' = mark_cooling sc u (h\<lparr>hr_cooldowns := hash_insert sc u (hr_cooldowns h)\<rparr>)"
    using assms apply_failure_applied by metis
  then show ?thesis using applied by (auto simp: map_of_hash_insert split: option.split)
qed simp

lemma cooldowns_clear_scope [simp]:
  "hr_cooldowns (clear_scope sc h) = map_remove sc (hr_cooldowns h)"
  by (simp add: clear_scope_def Let_def split: cooldown_scope.split)

lemma deadline_clear_fold:
  "deadline (fold clear_scope scs h) sc = (if sc \<in> set scs then None else deadline h sc)"
  by (induction scs arbitrary: h) (auto simp: map_of_remove)

lemma mem_expired:
  "health_inv h \<Longrightarrow> sc \<in> set (expired_scopes now h) \<longleftrightarrow> (\<exists>u. deadline h sc = Some u \<and> u \<le> now)"
  unfolding expired_scopes_def using hash.mem_iff [OF health_inv_ok, of h] by force

lemma deadline_clear_expired:
  "health_inv h \<Longrightarrow> deadline (snd (clear_expired now h)) sc =
     (case deadline h sc of Some u \<Rightarrow> if u \<le> now then None else Some u | None \<Rightarrow> None)"
  by (auto simp: clear_expired_def Let_def deadline_clear_fold mem_expired split: option.split)

lemma deadline_remove_binding:
  "health_inv h \<Longrightarrow> deadline (remove_binding b h) sc =
     (if scope_binding sc = Some b then None else deadline h sc)"
  by (auto simp: remove_binding_def hash.get_filter split: option.split)

lemma deadline_other_ops [simp]:
  "hr_cooldowns (disable_credential i h) = hr_cooldowns h"
  "hr_cooldowns (disable_binding b h) = hr_cooldowns h"
  "hr_cooldowns (enable_credential i h) = hr_cooldowns h"
  "hr_cooldowns (enable_binding b h) = hr_cooldowns h"
  by (simp_all add: disable_credential_def disable_binding_def enable_credential_def
      enable_binding_def)

text \<open>One step never shortens the deadline of a scope it does not remove.\<close>

fun may_drop :: "health_op \<Rightarrow> cooldown_scope \<Rightarrow> instant \<Rightarrow> bool" where
  "may_drop (HealthRemoveBinding b) sc t = (scope_binding sc = Some b)"
| "may_drop (HealthClearExpired now) sc t = (now > t)"
| "may_drop _ sc t = False"

lemma health_step_deadline:
  assumes inv: "health_inv h" and u: "deadline h sc = Some u" "t < u" and "\<not> may_drop a sc t"
  shows "\<exists>u'. deadline (health_step a h) sc = Some u' \<and> u \<le> u'"
proof (cases a)
  case (HealthApply f subject now)
  show ?thesis
  proof (cases "apply_failure f subject now h")
    case (Some r)
    obtain m h' where "r = (m, h')" by (cases r)
    then have "deadline h' sc = deadline h sc \<or> (\<exists>u'. deadline h' sc = Some u' \<and> u \<le> u')"
      using deadline_apply [of f subject now h m h'] Some u by auto
    then show ?thesis using HealthApply Some \<open>r = (m, h')\<close> u by auto
  qed (use HealthApply u in simp)
next
  case (HealthRestore sc' v)
  then show ?thesis using u by (cases "sc = sc'") (simp_all add: deadline_restore)
next
  case (HealthClearExpired now)
  then show ?thesis using assms by (simp add: deadline_clear_expired)
next
  case (HealthRemoveBinding b)
  then show ?thesis using assms by (simp add: deadline_remove_binding)
qed (use u in simp_all)

lemma health_run_deadline:
  "health_inv h \<Longrightarrow> deadline h sc = Some u \<Longrightarrow> t < u \<Longrightarrow> \<forall>a \<in> set ops. \<not> may_drop a sc t \<Longrightarrow>
     \<exists>u'. deadline (fold health_step ops h) sc = Some u' \<and> u \<le> u'"
proof (induction ops arbitrary: h u)
  case (Cons a ops)
  obtain v where v: "deadline (health_step a h) sc = Some v" "u \<le> v"
    using health_step_deadline [OF Cons.prems(1-3)] Cons.prems(4) by auto
  have "\<exists>u'. deadline (fold health_step ops (health_step a h)) sc = Some u' \<and> v \<le> u'"
    by (rule Cons.IH [OF health_step_inv [OF Cons.prems(1)] v(1)]) (use Cons.prems v in auto)
  then show ?case using v by auto
qed auto

section \<open>Disabled bindings\<close>

definition binding_disabled :: "binding_key \<Rightarrow> health_registry \<Rightarrow> bool" where
  "binding_disabled b h \<longleftrightarrow>
     (case map_of (hr_bindings h) b of Some e \<Rightarrow> ch_status e = StatusDisabled | None \<Rightarrow> False)"

lemma disabled_mark [simp]: "binding_disabled b h \<Longrightarrow> binding_disabled b (mark_cooling sc u h)"
  by (auto simp: binding_disabled_def mark_cooling_def map_of_hash_upsert set_cooling_down_def
      split: cooldown_scope.split option.splits)

lemma disabled_cooldowns [simp]:
  "binding_disabled b (h\<lparr>hr_cooldowns := c\<rparr>) = binding_disabled b h"
  by (simp add: binding_disabled_def)

lemma disabled_clear_scope: "binding_disabled b h \<Longrightarrow> binding_disabled b (clear_scope sc h)"
  by (auto simp: binding_disabled_def clear_scope_def Let_def map_of_modify clear_cooling_down_def
      split: cooldown_scope.split option.splits)

lemma disabled_clear_fold:
  "binding_disabled b h \<Longrightarrow> binding_disabled b (fold clear_scope scs h)"
  by (induction scs arbitrary: h) (auto simp: disabled_clear_scope)

lemma disabled_apply:
  "apply_failure f subject now h = Some (m, h') \<Longrightarrow> binding_disabled b h \<Longrightarrow> binding_disabled b h'"
  by (auto simp: apply_failure_def Let_def split: option.splits if_splits)

lemma health_step_disabled:
  assumes "binding_disabled b h" "a \<noteq> HealthEnableBinding b" "a \<noteq> HealthRemoveBinding b"
  shows "binding_disabled b (health_step a h)"
proof (cases a)
  case (HealthApply f subject now)
  then show ?thesis using assms disabled_apply by (auto split: option.split)
qed (use assms in \<open>auto simp: restore_cooldown_def clear_expired_def Let_def disabled_clear_fold\<close>,
     use assms in \<open>auto simp: binding_disabled_def disable_credential_def disable_binding_def
       disabled_health_def enable_credential_def enable_binding_def remove_binding_def
       map_of_hash_insert map_of_hash_upsert map_of_remove split: option.splits\<close>)

lemma health_run_disabled:
  "binding_disabled b h \<Longrightarrow>
     HealthEnableBinding b \<notin> set ops \<Longrightarrow> HealthRemoveBinding b \<notin> set ops \<Longrightarrow>
     binding_disabled b (fold health_step ops h)"
proof (induction ops arbitrary: h)
  case (Cons a ops)
  have "binding_disabled b (health_step a h)"
    by (rule health_step_disabled) (use Cons.prems in auto)
  then show ?case using Cons by simp
qed simp

section \<open>Targets\<close>

lemma scope_kind_resolve: "subject_resolve subject k = Some sc \<Longrightarrow> scope_kind sc = k"
  by (cases k) (auto simp: zip_with_model_def split: option.splits)

lemma all_kinds_complete: "k \<in> set all_kinds"
  by (cases k) (simp_all add: all_kinds_def)

lemma set_resolved:
  "set (List.map_filter (subject_resolve subject) all_kinds) =
     {sc. \<exists>k. subject_resolve subject k = Some sc}"
  using all_kinds_complete by (force simp: List.map_filter_def)

lemma foldl_min: "foldl min x xs = Min (set (x # xs))"
proof (induction xs arbitrary: x)
  case (Cons y ys)
  then show ?case by (cases "ys = []") (simp_all add: min.assoc)
qed simp

lemma iter_min_eq: "xs \<noteq> [] \<Longrightarrow> iter_min xs = Some (Min (set xs))"
  by (cases xs) (simp_all add: foldl_min del: list.set)

lemma iter_min_None: "iter_min xs = None \<longleftrightarrow> xs = []"
  by (cases xs) simp_all

section \<open>Properties\<close>

text \<open>C7. Applying a failure writes exactly one cooldown: the scope is the one the subject resolves,
  the deadline lies in the future, is the requested one when the clock can represent it and no
  longer one was active, is never earlier than the deadline the scope already had, and no other
  scope's deadline changes.\<close>

theorem apply_failure_cooldown:
  assumes "apply_failure f subject now h = Some (CooldownApplied sc u, h')"
  shows "\<exists>spec. fc_cooldown f = Some spec \<and> subject_resolve subject (spec_scope spec) = Some sc
    \<and> now < u
    \<and> (\<forall>e. instant_checked_add now (spec_duration spec) = Some e \<longrightarrow>
         u = (case deadline h sc of None \<Rightarrow> e | Some old \<Rightarrow> max old e))
    \<and> (\<forall>old. deadline h sc = Some old \<longrightarrow> old \<le> u)
    \<and> deadline h' = (deadline h)(sc \<mapsto> u)
    \<and> (\<forall>t. is_cooling_down h' sc t \<longleftrightarrow> t < u)"
  using assms
proof (rule apply_failure_applied)
  fix spec v
  assume spec: "fc_cooldown f = Some spec" "spec_duration spec \<noteq> 0"
      "subject_resolve subject (spec_scope spec) = Some sc"
    and v: "cooldown_deadline now (spec_duration spec) = Some v"
    and u: "u = (case deadline h sc of None \<Rightarrow> v | Some old \<Rightarrow> max old v)"
    and h': "h' = mark_cooling sc u (h\<lparr>hr_cooldowns := hash_insert sc u (hr_cooldowns h)\<rparr>)"
  have d: "deadline h' = (deadline h)(sc \<mapsto> u)" by (simp add: h' map_of_hash_insert fun_eq_iff)
  have "now < v" using cooldown_deadline_ge(1) [OF v] spec(2) by simp
  then have "now < u" by (auto simp: u split: option.split)
  moreover have "\<forall>e. instant_checked_add now (spec_duration spec) = Some e \<longrightarrow>
      u = (case deadline h sc of None \<Rightarrow> e | Some old \<Rightarrow> max old e)"
    using cooldown_deadline_ge(2) [OF v] u by blast
  moreover have "\<forall>old. deadline h sc = Some old \<longrightarrow> old \<le> u" by (simp add: u)
  moreover have "is_cooling_down h' sc t \<longleftrightarrow> t < u" for t
    by (simp add: is_cooling_down_def cooldown_until_def d)
  ultimately show ?thesis using spec d by blast
qed

definition example_binding :: binding_key where
  "example_binding = BindingKey ''t1'' ''acct'' ''fp''"

definition example_subject :: health_subject where
  "example_subject =
     with_binding example_binding (health_subject_new ''prov'' ''model'' ''acct'' ''route'')"

lemma example_apply:
  "apply_failure (classify_provider_failure (observed_failure_new FromUpstream (Some 401)))
     example_subject 0 health_new =
   Some (CooldownApplied (ScopeBinding example_binding) 30000000000,
     \<lparr>hr_cooldowns = [(ScopeBinding example_binding, 30000000000)], hr_credentials = [],
      hr_bindings = [(example_binding,
        \<lparr>ch_status = CoolingDown, ch_cooldown_until = Some 30000000000\<rparr>)]\<rparr>)"
  by code_simp

theorem apply_failure_cooldown_witness:
  "\<exists>h'. apply_failure (classify_provider_failure (observed_failure_new FromUpstream (Some 401)))
          example_subject 0 health_new
        = Some (CooldownApplied (ScopeBinding example_binding) 30000000000, h')
      \<and> (\<forall>t. is_cooling_down h' (ScopeBinding example_binding) t \<longleftrightarrow> t < 30000000000)"
  using apply_failure_cooldown [OF example_apply] example_apply by blast

text \<open>C6. Cooldowns are never cut short: after any history, over any further sequence of registry
  operations, a scope that is cooling down at time \<open>t\<close> is still cooling down at \<open>t\<close>, with a
  deadline no earlier than before, unless its own binding was removed or expired entries were
  cleared at a time later than \<open>t\<close>.\<close>

theorem active_cooldown_survives:
  assumes "h = fold health_step history health_new"
    and "cooldown_until h sc t = Some u"
    and "\<forall>b. scope_binding sc = Some b \<longrightarrow> HealthRemoveBinding b \<notin> set ops"
    and "\<forall>now. HealthClearExpired now \<in> set ops \<longrightarrow> now \<le> t"
  shows "\<exists>u'. cooldown_until (fold health_step ops h) sc t = Some u' \<and> u \<le> u'"
proof -
  have inv: "health_inv h" using assms(1) health.run_inv [of health_new] by simp
  have u: "deadline h sc = Some u" "t < u"
    using assms(2) by (auto simp: cooldown_until_def split: option.splits if_splits)
  have "\<not> may_drop a sc t" if "a \<in> set ops" for a
    using assms(3,4) that by (cases a) (auto simp: not_less)
  then obtain u' where "deadline (fold health_step ops h) sc = Some u'" "u \<le> u'"
    using health_run_deadline [OF inv u] by blast
  then show ?thesis using u by (auto simp: cooldown_until_def)
qed

theorem active_cooldown_survives_witness:
  "let h = fold health_step [HealthRestore (ScopeModel ''m'') 50] health_new;
       ops = [HealthClearExpired 9, HealthRestore (ScopeModel ''m'') 20] in
   cooldown_until h (ScopeModel ''m'') 10 = Some 50
   \<and> (\<exists>u'. cooldown_until (fold health_step ops h) (ScopeModel ''m'') 10 = Some u' \<and> 50 \<le> u')"
  using active_cooldown_survives [of _ "[HealthRestore (ScopeModel ''m'') 50]" "ScopeModel ''m''"
      10 50 "[HealthClearExpired 9, HealthRestore (ScopeModel ''m'') 20]"]
  by (simp add: Let_def cooldown_until_def deadline_restore health_new_def)

text \<open>A malformed request cannot cool a credential: applying an invalid-request classification
  without proven credential causation leaves every credential- and binding-scoped deadline and
  every credential and binding status as it was, whatever cooldown the classification carries.\<close>

theorem invalid_request_spares_credentials:
  assumes "is_request_invalid f" and "fc_credential_causation f \<noteq> ProvenCausation"
    and "apply_failure f subject now h = Some (m, h')"
  shows "hr_credentials h' = hr_credentials h \<and> hr_bindings h' = hr_bindings h
    \<and> (\<forall>sc. scope_credential sc \<noteq> None \<longrightarrow> deadline h' sc = deadline h sc)"
  using assms(3)
proof (cases rule: apply_failure_cases)
  case (applied sc u)
  from assms(3) [unfolded applied] obtain spec :: cooldown_spec where
    spec: "subject_resolve subject (spec_scope spec) = Some sc"
    and req: "\<not> (is_request_invalid f \<and> fc_credential_causation f \<noteq> ProvenCausation
        \<and> spec_scope spec \<in> {KindCredential, KindCredentialModel})"
    and h': "h' = mark_cooling sc u (h\<lparr>hr_cooldowns := hash_insert sc u (hr_cooldowns h)\<rparr>)"
    by (rule apply_failure_applied) blast
  have k: "scope_kind sc \<notin> {KindCredential, KindCredentialModel}"
    using scope_kind_resolve [OF spec] req assms(1,2) by simp
  then have "mark_cooling sc u = (\<lambda>h. h)" by (cases sc) (auto simp: mark_cooling_def fun_eq_iff)
  moreover have "scope_credential sc = None" using k by (cases sc) auto
  ultimately show ?thesis by (auto simp: h' map_of_hash_insert)
qed simp

theorem invalid_request_spares_credentials_witness:
  "let f = fc_with_cooldown (spec_credential (from_secs 60)) (for_class InvalidRequest) in
   apply_failure f example_subject 0 health_new
     = Some (NoChange InvalidRequestCannotCooldownCredential, health_new)
   \<and> hr_bindings health_new = []"
proof -
  let ?f = "fc_with_cooldown (spec_credential (from_secs 60)) (for_class InvalidRequest)"
  have a: "apply_failure ?f example_subject 0 health_new
     = Some (NoChange InvalidRequestCannotCooldownCredential, health_new)" by code_simp
  have "is_request_invalid ?f" "fc_credential_causation ?f \<noteq> ProvenCausation" by code_simp+
  from invalid_request_spares_credentials [OF this a] show ?thesis
    using a by (simp add: Let_def health_new_def)
qed

text \<open>A target's cooldowns are reported exactly: the reported kinds are those whose scope the
  subject resolves and which are active, the target counts as cooling down exactly when there is
  such a scope, and the reported recovery deadline is then the earliest of the active ones and
  lies in the future.\<close>

theorem target_cooldown_exact:
  "set (target_cooldown_scopes h subject now)
     = {k. \<exists>sc. subject_resolve subject k = Some sc \<and> is_cooling_down h sc now}
   \<and> (target_is_cooling_down h subject now \<longleftrightarrow> target_recovery_until h subject now \<noteq> None)
   \<and> (\<forall>u. target_recovery_until h subject now = Some u \<longrightarrow>
        now < u
        \<and> (\<exists>k sc. subject_resolve subject k = Some sc \<and> cooldown_until h sc now = Some u)
        \<and> (\<forall>k sc v. subject_resolve subject k = Some sc \<longrightarrow> cooldown_until h sc now = Some v \<longrightarrow>
             u \<le> v))"
proof -
  let ?scs = "List.map_filter (subject_resolve subject) all_kinds"
  let ?us = "List.map_filter (\<lambda>sc. cooldown_until h sc now) ?scs"
  have us: "set ?us = {u. \<exists>k sc. subject_resolve subject k = Some sc \<and> cooldown_until h sc now = Some u}"
    using set_resolved [of subject] by (force simp: List.map_filter_def)
  have kinds: "set (target_cooldown_scopes h subject now)
     = {k. \<exists>sc. subject_resolve subject k = Some sc \<and> is_cooling_down h sc now}"
    unfolding target_cooldown_scopes_def set_map set_filter set_resolved
    using scope_kind_resolve by blast
  have "target_is_cooling_down h subject now \<longleftrightarrow> set (target_cooldown_scopes h subject now) \<noteq> {}"
    by (simp add: target_is_cooling_down_def)
  also have "\<dots> \<longleftrightarrow> set ?us \<noteq> {}" unfolding kinds us is_cooling_down_def by blast
  finally have t: "target_is_cooling_down h subject now \<longleftrightarrow> target_recovery_until h subject now \<noteq> None"
    by (simp add: target_recovery_until_def iter_min_None)
  have "now < u \<and> u \<in> set ?us \<and> (\<forall>v \<in> set ?us. u \<le> v)"
    if "target_recovery_until h subject now = Some u" for u
  proof -
    have ne: "?us \<noteq> []" using that by (auto simp: target_recovery_until_def)
    then have u: "u = Min (set ?us)"
      using that iter_min_eq [of ?us] by (simp add: target_recovery_until_def)
    then have "u \<in> set ?us" "\<forall>v \<in> set ?us. u \<le> v" using ne by simp_all
    moreover from this(1) have "now < u"
      unfolding us by (auto simp: cooldown_until_def split: option.splits if_splits)
    ultimately show ?thesis by blast
  qed
  with kinds t show ?thesis unfolding us by blast
qed

theorem target_cooldown_exact_witness:
  "let h = restore_cooldown (ScopeModel ''model'') 7
             (restore_cooldown (ScopeProvider ''prov'') 5 health_new) in
   target_recovery_until h example_subject 1 = Some 5
   \<and> set (target_cooldown_scopes h example_subject 1) = {KindModel, KindProvider} \<and> (1::int) < 5"
proof -
  let ?h = "restore_cooldown (ScopeModel ''model'') 7
             (restore_cooldown (ScopeProvider ''prov'') 5 health_new)"
  have "target_recovery_until ?h example_subject 1 = Some 5"
    "target_cooldown_scopes ?h example_subject 1 = [KindModel, KindProvider]" by code_simp+
  then show ?thesis using target_cooldown_exact [of ?h example_subject 1] by (simp add: Let_def)
qed

text \<open>Clearing expired entries is invisible to the present and the future: it reports how many
  entries it removed, leaves only deadlines later than the clearing time, and every query at that
  time or later answers as before.\<close>

theorem clear_expired_transparent:
  assumes "h = fold health_step history health_new"
  shows "length (hr_cooldowns h) = fst (clear_expired now h)
           + length (hr_cooldowns (snd (clear_expired now h)))
    \<and> (\<forall>sc u. deadline (snd (clear_expired now h)) sc = Some u \<longrightarrow> now < u)
    \<and> (\<forall>sc t. now \<le> t \<longrightarrow> cooldown_until (snd (clear_expired now h)) sc t = cooldown_until h sc t)"
proof -
  have inv: "health_inv h" using assms health.run_inv [of health_new] by simp
  have "hr_cooldowns (fold clear_scope scs g) = filter (\<lambda>e. fst e \<notin> set scs) (hr_cooldowns g)"
    for scs g
    by (induction scs arbitrary: g) (auto simp: map_remove_def intro: filter_cong)
  then have c: "hr_cooldowns (snd (clear_expired now h))
      = filter (\<lambda>e. fst e \<notin> set (expired_scopes now h)) (hr_cooldowns h)"
    by (simp add: clear_expired_def Let_def)
  have "fst e \<in> set (expired_scopes now h) \<longleftrightarrow> snd e \<le> now" if "e \<in> set (hr_cooldowns h)" for e
    using that inv hash.mem_iff [OF health_inv_ok, of h "fst e" "snd e"]
    by (auto simp: mem_expired)
  then have "hr_cooldowns (snd (clear_expired now h))
      = filter (\<lambda>e. \<not> snd e \<le> now) (hr_cooldowns h)" unfolding c by (auto intro: filter_cong)
  then have "length (hr_cooldowns h) = fst (clear_expired now h)
      + length (hr_cooldowns (snd (clear_expired now h)))"
    using sum_length_filter_compl [of "\<lambda>e. snd e \<le> now" "hr_cooldowns h"]
    by (simp add: clear_expired_def Let_def expired_scopes_def)
  then show ?thesis
    using inv by (auto simp: deadline_clear_expired cooldown_until_def split: option.splits if_splits)
qed

theorem clear_expired_transparent_witness:
  "let h = fold health_step [HealthRestore (ScopeModel ''a'') 5, HealthRestore (ScopeModel ''b'') 9]
             health_new in
   fst (clear_expired 6 h) = 1
   \<and> cooldown_until (snd (clear_expired 6 h)) (ScopeModel ''b'') 7 = cooldown_until h (ScopeModel ''b'') 7"
proof -
  let ?ops = "[HealthRestore (ScopeModel ''a'') 5, HealthRestore (ScopeModel ''b'') 9]"
  have "fst (clear_expired 6 (fold health_step ?ops health_new)) = 1" by code_simp
  then show ?thesis using clear_expired_transparent [OF refl, of ?ops 6] by (simp add: Let_def)
qed

text \<open>Removing a binding forgets that binding and nothing else: its status and its scoped
  cooldowns are gone, while every other scope keeps its deadline, every other binding and every
  credential keeps its health, so a sibling binding that reuses the account is unaffected.\<close>

theorem remove_binding_isolates:
  assumes "h = fold health_step history health_new"
  shows "binding_health_of (remove_binding b h) b = None
    \<and> (\<forall>sc. deadline (remove_binding b h) sc =
              (if scope_binding sc = Some b then None else deadline h sc))
    \<and> (\<forall>b'. b' \<noteq> b \<longrightarrow> binding_health_of (remove_binding b h) b' = binding_health_of h b')
    \<and> (\<forall>i. credential_health_of (remove_binding b h) i = credential_health_of h i)"
proof -
  have "health_inv h" using assms health.run_inv [of health_new] by simp
  then show ?thesis
    by (auto simp: deadline_remove_binding binding_health_of_def credential_health_of_def)
      (auto simp: remove_binding_def map_of_remove)
qed

theorem remove_binding_isolates_witness:
  "let b' = BindingKey ''t2'' ''acct'' ''fp'';
       h = fold health_step [HealthDisableBinding b', HealthDisableBinding example_binding] health_new in
   binding_health_of (remove_binding example_binding h) b' = Some disabled_health
   \<and> binding_health_of (remove_binding example_binding h) example_binding = None"
  using remove_binding_isolates [OF refl, of example_binding
      "[HealthDisableBinding (BindingKey ''t2'' ''acct'' ''fp''), HealthDisableBinding example_binding]"]
  by (simp add: Let_def binding_health_of_def disable_binding_def health_new_def example_binding_def)

text \<open>C40. A disabled binding stays disabled: over every run that neither re-enables nor removes it,
  no failure, restored cooldown or expiry brings it back, and every failure that would cool it
  is refused with \<open>CredentialDisabled\<close> and changes nothing.\<close>

theorem disabled_binding_stays_disabled:
  assumes "HealthEnableBinding b \<notin> set ops" "HealthRemoveBinding b \<notin> set ops"
    and "h = fold health_step ops (disable_binding b g)"
  shows "\<exists>e. binding_health_of h b = Some e \<and> ch_status e = StatusDisabled
    \<and> (\<forall>f subject now m h'. apply_failure f subject now h = Some (m, h') \<longrightarrow>
         hs_binding subject = Some b \<longrightarrow> (\<exists>spec. fc_cooldown f = Some spec
           \<and> spec_scope spec \<in> {KindCredential, KindCredentialModel}) \<longrightarrow>
         h' = h \<and> \<not> mutation_applied m)"
proof -
  have "binding_disabled b (disable_binding b g)"
    by (simp add: binding_disabled_def disable_binding_def map_of_hash_insert disabled_health_def)
  then have dis: "binding_disabled b h" using health_run_disabled assms by simp
  have "h' = h \<and> \<not> mutation_applied m"
    if a: "apply_failure f subject now h = Some (m, h')" and "hs_binding subject = Some b"
      and "fc_cooldown f = Some spec" "spec_scope spec \<in> {KindCredential, KindCredentialModel}"
    for f subject now m h' spec
  proof -
    have "\<not> mutation_applied m"
    proof
      assume "mutation_applied m"
      then obtain sc u where "m = CooldownApplied sc u" by (cases m) auto
      then have "\<not> scope_disabled sc h" "subject_resolve subject (spec_scope spec) = Some sc"
        using a that(3) by (auto elim: apply_failure_applied)
      moreover have "scope_binding sc = Some b" using calculation(2) that by auto
      ultimately show False using dis by (simp add: scope_disabled_def binding_disabled_def)
    qed
    then show ?thesis by (cases rule: apply_failure_cases [OF a]) auto
  qed
  then show ?thesis
    using dis by (auto simp: binding_disabled_def binding_health_of_def split: option.splits)
qed

theorem disabled_binding_stays_disabled_witness:
  "let ops = [HealthRestore (ScopeBinding example_binding) 100, HealthClearExpired 200] in
   \<exists>e. binding_health_of (fold health_step ops (disable_binding example_binding health_new))
         example_binding = Some e \<and> ch_status e = StatusDisabled"
  using disabled_binding_stays_disabled [OF _ _ refl, of example_binding
      "[HealthRestore (ScopeBinding example_binding) 100, HealthClearExpired 200]" health_new]
  by (auto simp: Let_def)

text \<open>
  The status of a binding can nevertheless lag behind its cooldowns: a model-scoped cooldown also
  marks the whole binding, and when it expires the binding reads \<open>Healthy\<close> although its own,
  longer cooldown is still active. Target selection consults the scoped deadlines, not this
  status.
\<close>

lemma status_forgets_active_cooldown:
  "let h = restore_cooldown (ScopeBindingModel example_binding ''model'') 10
             (restore_cooldown (ScopeBinding example_binding) 100 health_new);
       h' = snd (clear_expired 20 h) in
   is_cooling_down h' (ScopeBinding example_binding) 20
   \<and> map_option ch_status (binding_health_of h' example_binding) = Some Healthy"
  by code_simp

end
