(* ===== verification/Quota.thy ===== *)
theory Quota
  imports Health
begin

text \<open>
  Quota windows (\<open>pooler-policy/src/quota.rs\<close>): scopes, units, subjects, the monotonic runtime
  snapshot, the wall-clock record it is persisted as, and the classifier of typed provider
  evidence. SHA-256 comes from the \<open>ring\<close> crate and is the parameter \<open>sha256\<close>, of which only the
  length of its output matters here.
\<close>

section \<open>Scopes, units, subjects\<close>

datatype quota_scope =
  QCredential | QCredentialModel | QProject | QProjectModel | QProvider | QProviderModel

datatype quota_unit = Requests | Tokens | InputTokens | OutputTokens | Credits | Compute

datatype quota_state = QuotaUnknown | QuotaAvailable | QuotaExhaustedState

type_synonym project_key = string

datatype quota_subject =
    SubjCredential credential_id
  | SubjCredentialModel credential_id model_id
  | SubjProject provider_id project_key
  | SubjProjectModel provider_id project_key model_id
  | SubjProvider provider_id
  | SubjProviderModel provider_id model_id

text \<open>The derived orders: units by position, subjects by variant and then field by field.\<close>

fun quota_unit_rank :: "quota_unit \<Rightarrow> nat" where
  "quota_unit_rank Requests = 0"
| "quota_unit_rank Tokens = 1"
| "quota_unit_rank InputTokens = 2"
| "quota_unit_rank OutputTokens = 3"
| "quota_unit_rank Credits = 4"
| "quota_unit_rank Compute = 5"

fun quota_subject_rank :: "quota_subject \<Rightarrow> nat \<times> string \<times> string \<times> string" where
  "quota_subject_rank (SubjCredential c) = (0, c, [], [])"
| "quota_subject_rank (SubjCredentialModel c m) = (1, c, m, [])"
| "quota_subject_rank (SubjProject p k) = (2, p, k, [])"
| "quota_subject_rank (SubjProjectModel p k m) = (3, p, k, m)"
| "quota_subject_rank (SubjProvider p) = (4, p, [], [])"
| "quota_subject_rank (SubjProviderModel p m) = (5, p, m, [])"

lemma quota_unit_rank_inj: "quota_unit_rank a = quota_unit_rank b \<Longrightarrow> a = b"
  by (cases a; cases b; simp)

lemma quota_subject_rank_inj: "quota_subject_rank a = quota_subject_rank b \<Longrightarrow> a = b"
  by (cases a; cases b; simp)

instantiation quota_unit :: linorder
begin

definition less_eq_quota_unit :: "quota_unit \<Rightarrow> quota_unit \<Rightarrow> bool" where
  "less_eq_quota_unit a b \<longleftrightarrow> quota_unit_rank a \<le> quota_unit_rank b"

definition less_quota_unit :: "quota_unit \<Rightarrow> quota_unit \<Rightarrow> bool" where
  "less_quota_unit a b \<longleftrightarrow> quota_unit_rank a < quota_unit_rank b"

instance
  by standard (auto simp: less_eq_quota_unit_def less_quota_unit_def dest: quota_unit_rank_inj)

end

instantiation quota_subject :: linorder
begin

definition less_eq_quota_subject :: "quota_subject \<Rightarrow> quota_subject \<Rightarrow> bool" where
  "less_eq_quota_subject a b \<longleftrightarrow> quota_subject_rank a \<le> quota_subject_rank b"

definition less_quota_subject :: "quota_subject \<Rightarrow> quota_subject \<Rightarrow> bool" where
  "less_quota_subject a b \<longleftrightarrow> quota_subject_rank a < quota_subject_rank b"

instance
proof
  fix a b c :: quota_subject
  show "a < b \<longleftrightarrow> a \<le> b \<and> \<not> b \<le> a"
    unfolding less_eq_quota_subject_def less_quota_subject_def by (rule less_le_not_le)
  show "a \<le> a" unfolding less_eq_quota_subject_def by (rule order_refl)
  show "a \<le> b \<Longrightarrow> b \<le> c \<Longrightarrow> a \<le> c" unfolding less_eq_quota_subject_def by (rule order_trans)
  show "a \<le> b \<Longrightarrow> b \<le> a \<Longrightarrow> a = b"
    unfolding less_eq_quota_subject_def using antisym quota_subject_rank_inj by metis
  show "a \<le> b \<or> b \<le> a" unfolding less_eq_quota_subject_def by (rule linear)
qed

end

section \<open>Redacted labels\<close>

definition hex_digit :: "nat \<Rightarrow> char" where
  "hex_digit n = ''0123456789abcdef'' ! n"

definition byte_hex :: "char \<Rightarrow> string" where
  "byte_hex b = (let n = of_char b :: nat in [hex_digit (n div 16), hex_digit (n mod 16)])"

definition digest_label :: "(string \<Rightarrow> string) \<Rightarrow> string \<Rightarrow> string \<Rightarrow> string" where
  "digest_label sha256 prefix v = prefix @ ''-'' @ concat (map byte_hex (take 16 (sha256 v)))"

definition valid_digest_label :: "string \<Rightarrow> string \<Rightarrow> bool" where
  "valid_digest_label prefix v \<longleftrightarrow>
     length v = length prefix + 1 + 32 \<and> starts_with v prefix
     \<and> v ! length prefix = CHR ''-'' \<and> list_all is_ascii_hexdigit (drop (length prefix + 1) v)"

datatype quota_error =
  EmptyProjectKey | InvalidProjectKey | UnsupportedSchemaVersion u8 | DeadlineOutOfRange

definition project_key_new :: "(string \<Rightarrow> string) \<Rightarrow> string \<Rightarrow> quota_error + project_key" where
  "project_key_new sha256 v =
     (if v = [] then Inl EmptyProjectKey else Inr (digest_label sha256 ''project'' v))"

definition project_key_from_redacted :: "string \<Rightarrow> quota_error + project_key" where
  "project_key_from_redacted v =
     (if valid_digest_label ''project'' v then Inr (to_ascii_lowercase v)
      else Inl InvalidProjectKey)"

type_synonym quota_credential_key = string

definition credential_key_new :: "(string \<Rightarrow> string) \<Rightarrow> credential_id \<Rightarrow> quota_credential_key" where
  "credential_key_new sha256 c = digest_label sha256 ''quota-credential'' c"

definition credential_key_matches ::
  "(string \<Rightarrow> string) \<Rightarrow> quota_credential_key \<Rightarrow> credential_id \<Rightarrow> bool" where
  "credential_key_matches sha256 k c \<longleftrightarrow> k = credential_key_new sha256 c"

text \<open>Deserialization of a stored credential key; a label that is not a digest is an error.\<close>

definition credential_key_deserialize :: "string \<Rightarrow> quota_credential_key option" where
  "credential_key_deserialize v =
     (if valid_digest_label ''quota-credential'' v then Some (to_ascii_lowercase v) else None)"

datatype quota_persistence_identity =
    IdCredential quota_credential_key
  | IdCredentialModel quota_credential_key model_id
  | IdProject provider_id project_key
  | IdProjectModel provider_id project_key model_id
  | IdProvider provider_id
  | IdProviderModel provider_id model_id

fun identity_scope :: "quota_persistence_identity \<Rightarrow> quota_scope" where
  "identity_scope (IdCredential k) = QCredential"
| "identity_scope (IdCredentialModel k m) = QCredentialModel"
| "identity_scope (IdProject p k) = QProject"
| "identity_scope (IdProjectModel p k m) = QProjectModel"
| "identity_scope (IdProvider p) = QProvider"
| "identity_scope (IdProviderModel p m) = QProviderModel"

fun identity_from_subject ::
  "(string \<Rightarrow> string) \<Rightarrow> quota_subject \<Rightarrow> quota_persistence_identity" where
  "identity_from_subject sha256 (SubjCredential c) = IdCredential (credential_key_new sha256 c)"
| "identity_from_subject sha256 (SubjCredentialModel c m) =
     IdCredentialModel (credential_key_new sha256 c) m"
| "identity_from_subject sha256 (SubjProject p k) = IdProject p k"
| "identity_from_subject sha256 (SubjProjectModel p k m) = IdProjectModel p k m"
| "identity_from_subject sha256 (SubjProvider p) = IdProvider p"
| "identity_from_subject sha256 (SubjProviderModel p m) = IdProviderModel p m"

section \<open>Snapshots\<close>

record quota_snapshot =
  qs_scope :: quota_scope
  qs_unit :: quota_unit
  qs_state :: quota_state
  qs_limit :: "u64 option"
  qs_remaining :: "u64 option"
  qs_reset_at :: "instant option"
  qs_observed_at :: instant

definition quota_snapshot_new ::
  "quota_scope \<Rightarrow> quota_unit \<Rightarrow> quota_state \<Rightarrow> instant \<Rightarrow> quota_snapshot" where
  "quota_snapshot_new sc unit st observed =
     \<lparr>qs_scope = sc, qs_unit = unit, qs_state = st, qs_limit = None, qs_remaining = None,
      qs_reset_at = None, qs_observed_at = observed\<rparr>"

text \<open>\<open>QuotaSnapshot::unlimited\<close> reads the clock: the reading is an argument.\<close>

definition quota_unlimited :: "instant \<Rightarrow> quota_snapshot" where
  "quota_unlimited now = quota_snapshot_new QCredential Requests QuotaAvailable now"

definition qs_with_window :: "u64 option \<Rightarrow> u64 option \<Rightarrow> quota_snapshot \<Rightarrow> quota_snapshot" where
  "qs_with_window limit remaining q = q\<lparr>qs_limit := limit, qs_remaining := remaining\<rparr>"

definition qs_with_reset_at :: "instant option \<Rightarrow> quota_snapshot \<Rightarrow> quota_snapshot" where
  "qs_with_reset_at r q = q\<lparr>qs_reset_at := r\<rparr>"

definition qs_expired_at :: "quota_snapshot \<Rightarrow> instant \<Rightarrow> bool" where
  "qs_expired_at q now \<longleftrightarrow> (case qs_reset_at q of Some r \<Rightarrow> r \<le> now | None \<Rightarrow> False)"

definition qs_exhausted :: "quota_snapshot \<Rightarrow> instant \<Rightarrow> bool" where
  "qs_exhausted q now \<longleftrightarrow>
     (if (case qs_reset_at q of Some r \<Rightarrow> r \<le> now | None \<Rightarrow> False) then False
      else qs_state q = QuotaExhaustedState \<or> qs_remaining q = Some 0)"

definition qs_recovery_after :: "quota_snapshot \<Rightarrow> instant \<Rightarrow> duration option" where
  "qs_recovery_after q now =
     (case qs_reset_at q of
        Some r \<Rightarrow> if r > now then Some (saturating_duration_since r now) else None
      | None \<Rightarrow> None)"

section \<open>Persistence\<close>

definition quota_state_schema_version :: u8 where "quota_state_schema_version = 2"

text \<open>Whole seconds and the rounded-up milliseconds of the rest, each in a \<open>u64\<close>.\<close>

definition duration_millis :: "duration \<Rightarrow> u64" where
  "duration_millis d =
     saturating_add (saturating_mul (of_nat (d div nanos_per_sec)) 1000)
       (of_nat ((d mod nanos_per_sec + 999999) div 1000000))"

record persisted_quota_snapshot =
  pq_schema_version :: u8
  pq_identity :: quota_persistence_identity
  pq_unit :: quota_unit
  pq_state :: quota_state
  pq_limit :: "u64 option"
  pq_remaining :: "u64 option"
  pq_reset_at_unix_ms :: "u64 option"
  pq_observed_at_unix_ms :: u64

definition from_runtime ::
  "(string \<Rightarrow> string) \<Rightarrow> quota_subject \<Rightarrow> quota_snapshot \<Rightarrow> instant \<Rightarrow> u64 \<Rightarrow>
     persisted_quota_snapshot" where
  "from_runtime sha256 subject q now now_unix_ms =
     (let observed_age = saturating_duration_since now (qs_observed_at q) in
      \<lparr>pq_schema_version = quota_state_schema_version,
       pq_identity = identity_from_subject sha256 subject,
       pq_unit = qs_unit q, pq_state = qs_state q, pq_limit = qs_limit q,
       pq_remaining = qs_remaining q,
       pq_reset_at_unix_ms =
         map_option (\<lambda>r. saturating_add now_unix_ms
                            (duration_millis (saturating_duration_since r now))) (qs_reset_at q),
       pq_observed_at_unix_ms = saturating_sub now_unix_ms (duration_millis observed_age)\<rparr>)"

definition to_runtime ::
  "persisted_quota_snapshot \<Rightarrow> instant \<Rightarrow> u64 \<Rightarrow> quota_error + quota_snapshot option" where
  "to_runtime p now now_unix_ms =
     (if pq_schema_version p \<noteq> quota_state_schema_version
        then Inl (UnsupportedSchemaVersion (pq_schema_version p))
      else if (case pq_reset_at_unix_ms p of Some r \<Rightarrow> r \<le> now_unix_ms | None \<Rightarrow> False)
        then Inr None
      else
        let observed_age = from_millis (unat (saturating_sub now_unix_ms (pq_observed_at_unix_ms p)));
            observed_at = (case instant_checked_sub now observed_age of Some t \<Rightarrow> t | None \<Rightarrow> now);
            restored = (\<lambda>reset_at. qs_with_reset_at reset_at
              (qs_with_window (pq_limit p) (pq_remaining p)
                (quota_snapshot_new (identity_scope (pq_identity p)) (pq_unit p) (pq_state p)
                  observed_at)))
        in (case pq_reset_at_unix_ms p of
              None \<Rightarrow> Inr (Some (restored None))
            | Some r \<Rightarrow>
                (case instant_checked_add now (from_millis (unat (saturating_sub r now_unix_ms))) of
                   None \<Rightarrow> Inl DeadlineOutOfRange
                 | Some t \<Rightarrow> Inr (Some (restored (Some t))))))"

definition pq_scope :: "persisted_quota_snapshot \<Rightarrow> quota_scope" where
  "pq_scope p = identity_scope (pq_identity p)"

section \<open>Observations and their classification\<close>

datatype quota_signal = SignalSnapshot | SignalExhausted | SignalRateLimited | SignalRecovered

record quota_observation =
  qo_signal :: quota_signal
  qo_scope :: quota_scope
  qo_unit :: quota_unit
  qo_limit :: "u64 option"
  qo_remaining :: "u64 option"
  qo_retry_after :: "duration option"
  qo_reset_after :: "duration option"
  qo_provider_code :: "string option"

definition quota_observation_new ::
  "quota_signal \<Rightarrow> quota_scope \<Rightarrow> quota_unit \<Rightarrow> quota_observation" where
  "quota_observation_new sg sc unit =
     \<lparr>qo_signal = sg, qo_scope = sc, qo_unit = unit, qo_limit = None, qo_remaining = None,
      qo_retry_after = None, qo_reset_after = None, qo_provider_code = None\<rparr>"

definition qo_with_window :: "u64 option \<Rightarrow> u64 option \<Rightarrow> quota_observation \<Rightarrow> quota_observation" where
  "qo_with_window limit remaining q = q\<lparr>qo_limit := limit, qo_remaining := remaining\<rparr>"

definition qo_with_retry_after :: "duration \<Rightarrow> quota_observation \<Rightarrow> quota_observation" where
  "qo_with_retry_after d q = q\<lparr>qo_retry_after := Some d\<rparr>"

definition qo_with_reset_after :: "duration \<Rightarrow> quota_observation \<Rightarrow> quota_observation" where
  "qo_with_reset_after d q = q\<lparr>qo_reset_after := Some d\<rparr>"

definition bounded_provider_code :: "string \<Rightarrow> string option" where
  "bounded_provider_code v =
     (let v = trim v in
      if v \<noteq> [] \<and> length v \<le> 64
         \<and> list_all (\<lambda>c. is_ascii_alphanumeric c \<or> c = CHR ''_'' \<or> c = CHR ''-'') v
      then Some (to_ascii_lowercase v) else None)"

definition qo_with_provider_code :: "string \<Rightarrow> quota_observation \<Rightarrow> quota_observation" where
  "qo_with_provider_code code q = q\<lparr>qo_provider_code := bounded_provider_code code\<rparr>"

record quota_classification =
  qc_signal :: quota_signal
  qc_snapshot :: quota_snapshot
  qc_failure :: "failure_classification option"

definition qc_exhausted :: "quota_classification \<Rightarrow> instant \<Rightarrow> bool" where
  "qc_exhausted c now \<longleftrightarrow> qs_exhausted (qc_snapshot c) now"

record quota_classifier =
  default_exhaustion_recovery :: duration
  default_rate_limit_recovery :: duration

definition quota_classifier_default :: quota_classifier where
  "quota_classifier_default =
     \<lparr>default_exhaustion_recovery = from_secs 60, default_rate_limit_recovery = from_secs 1\<rparr>"

text \<open>The table inside \<open>quota_failure\<close>.\<close>

fun quota_failure_parts ::
  "quota_scope \<Rightarrow> duration option \<Rightarrow>
     error_class \<times> error_scope \<times> cooldown_spec option \<times> credential_causation \<times> string \<times> string" where
  "quota_failure_parts QCredential r =
     (CredentialQuotaExhausted, EsCredential, map_option spec_credential r, ProvenCausation,
      ''credential_quota_exhausted'', ''credential quota is exhausted'')"
| "quota_failure_parts QCredentialModel r =
     (ModelQuotaExhausted, EsCredential, map_option spec_credential_model r, ProvenCausation,
      ''credential_model_quota_exhausted'',
      ''credential quota for the requested model is exhausted'')"
| "quota_failure_parts QProject r =
     (CredentialQuotaExhausted, EsCredential, None, ProvenCausation,
      ''project_quota_exhausted'', ''upstream project quota is exhausted'')"
| "quota_failure_parts QProjectModel r =
     (CredentialQuotaExhausted, EsCredential, None, ProvenCausation,
      ''project_quota_exhausted'', ''upstream project quota is exhausted'')"
| "quota_failure_parts QProvider r =
     (ProviderRateLimited, EsProvider, map_option spec_provider r, UnknownCausation,
      ''provider_rate_limited'', ''provider rate limited the request'')"
| "quota_failure_parts QProviderModel r =
     (ProviderRateLimited, EsProvider, map_option spec_provider_model r, UnknownCausation,
      ''provider_model_rate_limited'', ''provider rate limited the requested model'')"

definition quota_failure :: "quota_observation \<Rightarrow> duration option \<Rightarrow> failure_classification" where
  "quota_failure obs recovery =
     (let (class, sc, cooldown, causation, code, msg) =
            quota_failure_parts (qo_scope obs) recovery;
          f = fc_with_credential_causation causation
                (failure_classification_new
                  (error_classification_new class sc BeforeCommit Replayable)
                  (public_response_new 429 code msg)
                  \<lparr>re_status = Some 429, re_provider_code = qo_provider_code obs,
                   re_summary = Some code\<rparr>);
          f = (case recovery of
                 Some d \<Rightarrow> if d \<noteq> 0 then fc_with_recovery_after d f else f
               | None \<Rightarrow> f)
      in (case cooldown of
            Some spec \<Rightarrow> if spec_duration spec \<noteq> 0 then fc_with_cooldown spec f else f
          | None \<Rightarrow> f))"

fun option_max :: "'a::linorder option \<Rightarrow> 'a option \<Rightarrow> 'a option" where
  "option_max (Some a) (Some b) = Some (max a b)"
| "option_max (Some a) None = Some a"
| "option_max None b = b"

text \<open>The steps of \<open>classify\<close>: the effective signal, whether it means exhaustion, and the delay
  until recovery.\<close>

definition effective_signal :: "quota_observation \<Rightarrow> quota_signal" where
  "effective_signal obs =
     (if qo_signal obs = SignalRecovered \<and> qo_remaining obs = Some 0
      then SignalExhausted else qo_signal obs)"

definition signals_exhaustion :: "quota_observation \<Rightarrow> bool" where
  "signals_exhaustion obs \<longleftrightarrow>
     effective_signal obs \<in> {SignalExhausted, SignalRateLimited}
     \<or> (effective_signal obs = SignalSnapshot \<and> qo_remaining obs = Some 0)"

definition quota_recovery :: "quota_classifier \<Rightarrow> quota_observation \<Rightarrow> duration option" where
  "quota_recovery cl obs =
     (let fallback = (case effective_signal obs of
                        SignalExhausted \<Rightarrow> default_exhaustion_recovery cl
                      | SignalRateLimited \<Rightarrow> default_rate_limit_recovery cl
                      | SignalSnapshot \<Rightarrow> 0 | SignalRecovered \<Rightarrow> 0) in
      case option_max (qo_reset_after obs) (qo_retry_after obs) of
        Some d \<Rightarrow> Some d
      | None \<Rightarrow> if signals_exhaustion obs \<and> fallback \<noteq> 0 then Some fallback else None)"

definition quota_classify ::
  "quota_classifier \<Rightarrow> quota_observation \<Rightarrow> instant \<Rightarrow> quota_classification" where
  "quota_classify cl obs now =
     (let signal = effective_signal obs;
          exhausted = signals_exhaustion obs;
          state = (if signal = SignalRecovered then QuotaAvailable
                   else if exhausted then QuotaExhaustedState
                   else if qo_remaining obs \<noteq> None then QuotaAvailable
                   else QuotaUnknown);
          recovery = quota_recovery cl obs;
          reset_at = Option.bind recovery (instant_checked_add now)
      in \<lparr>qc_signal = signal,
          qc_snapshot = qs_with_reset_at reset_at
            (qs_with_window (qo_limit obs) (qo_remaining obs)
              (quota_snapshot_new (qo_scope obs) (qo_unit obs) state now)),
          qc_failure = (if exhausted then Some (quota_failure obs recovery) else None)\<rparr>)"

section \<open>Facts about labels, windows and clocks\<close>

lemma hex_digit_lower:
  "n < 16 \<Longrightarrow> is_ascii_hexdigit (hex_digit n) \<and> ascii_lower (hex_digit n) = hex_digit n"
proof -
  have "\<forall>n \<in> {..<16}. is_ascii_hexdigit (hex_digit n) \<and> ascii_lower (hex_digit n) = hex_digit n"
    by code_simp
  then show "n < 16 \<Longrightarrow> ?thesis" by simp
qed

lemma byte_hex_props:
  "length (byte_hex b) = 2" "list_all is_ascii_hexdigit (byte_hex b)"
  "map ascii_lower (byte_hex b) = byte_hex b"
proof -
  have "of_char b < (256 :: nat)" using of_char_of [of "of_char b :: nat"] by (cases b) simp
  then have "of_char b div 16 < (16 :: nat)" "of_char b mod 16 < (16 :: nat)"
    by (simp_all add: less_mult_imp_div_less)
  then show "list_all is_ascii_hexdigit (byte_hex b)" "map ascii_lower (byte_hex b) = byte_hex b"
    by (simp_all add: byte_hex_def Let_def hex_digit_lower)
qed (simp add: byte_hex_def Let_def)

lemma concat_byte_hex:
  "length (concat (map byte_hex bs)) = 2 * length bs"
  "list_all is_ascii_hexdigit (concat (map byte_hex bs))"
  "map ascii_lower (concat (map byte_hex bs)) = concat (map byte_hex bs)"
  by (induction bs) (simp_all add: byte_hex_props)

lemma valid_digest_label_digest:
  "16 \<le> length (sha256 v) \<Longrightarrow> valid_digest_label prefix (digest_label sha256 prefix v)"
  by (simp add: valid_digest_label_def digest_label_def starts_with_def concat_byte_hex nth_append)

lemma lower_digest_label:
  "to_ascii_lowercase prefix = prefix \<Longrightarrow>
     to_ascii_lowercase (digest_label sha256 prefix v) = digest_label sha256 prefix v"
proof -
  have "ascii_lower CHR ''-'' = CHR ''-''" by code_simp
  then show "to_ascii_lowercase prefix = prefix \<Longrightarrow> ?thesis"
    by (simp add: to_ascii_lowercase_def digest_label_def concat_byte_hex)
qed

definition millis_ceil :: "nat \<Rightarrow> nat" where
  "millis_ceil d = (d + 999999) div 1000000"

lemma millis_ceil_bounds:
  "0 \<le> t \<Longrightarrow> t \<le> int (millis_ceil (nat t)) * 1000000 \<and> int (millis_ceil (nat t)) * 1000000 < t + 1000000"
  unfolding millis_ceil_def by linarith

lemma restored_reset:
  "k < w \<Longrightarrow> now + int w * 1000000 \<le> instant_max \<Longrightarrow>
     instant_checked_add (now + int k * 1000000) (from_millis (w - k)) = Some (now + int w * 1000000)"
  by (simp add: instant_checked_add_def from_millis_def of_nat_diff algebra_simps)

lemma restored_observation:
  "instant_min \<le> now - int a * 1000000 \<Longrightarrow>
     instant_checked_sub (now + int k * 1000000) (from_millis (a + k)) = Some (now - int a * 1000000)"
  by (simp add: instant_checked_sub_def from_millis_def algebra_simps)

lemma unat_duration_millis:
  assumes "millis_ceil d < 2 ^ 64"
  shows "unat (duration_millis d) = millis_ceil d"
  using assms unfolding millis_ceil_def
proof -
  assume assms: "(d + 999999) div 1000000 < 2 ^ 64"
  let ?s = "d div 1000000000" and ?n = "d mod 1000000000"
  have split: "(d + 999999) div 1000000 = ?s * 1000 + (?n + 999999) div 1000000"
  proof -
    have "d + 999999 = ?s * 1000 * 1000000 + (?n + 999999)"
      using div_mult_mod_eq [of d 1000000000] by linarith
    then show ?thesis by (metis div_mult_self3 zero_neq_numeral)
  qed
  have n: "(?n + 999999) div 1000000 \<le> 1000"
    using mod_less_divisor [of 1000000000 d] by linarith
  have s: "?s * 1000 < 2 ^ 64" using assms split by linarith
  have us: "unat (of_nat ?s :: u64) = ?s" "unat (of_nat ((?n + 999999) div 1000000) :: u64)
      = (?n + 999999) div 1000000"
    using s n by (simp_all add: unat_of_nat)
  show "unat (duration_millis d) = (d + 999999) div 1000000"
    using s assms unfolding duration_millis_def nanos_per_sec_def
    by (simp add: saturation us split min_def)
qed

fun subject_scope :: "quota_subject \<Rightarrow> quota_scope" where
  "subject_scope (SubjCredential c) = QCredential"
| "subject_scope (SubjCredentialModel c m) = QCredentialModel"
| "subject_scope (SubjProject p k) = QProject"
| "subject_scope (SubjProjectModel p k m) = QProjectModel"
| "subject_scope (SubjProvider p) = QProvider"
| "subject_scope (SubjProviderModel p m) = QProviderModel"

lemma identity_scope_subject [simp]:
  "identity_scope (identity_from_subject sha256 subject) = subject_scope subject"
  by (cases subject) simp_all

text \<open>What a classification is made of, whatever the signal.\<close>

lemma quota_recovery_hints:
  "d \<in> set_option (qo_reset_after obs) \<union> set_option (qo_retry_after obs) \<Longrightarrow>
     \<exists>m. quota_recovery cl obs = Some m \<and> d \<le> m"
  by (cases "qo_reset_after obs"; cases "qo_retry_after obs") (auto simp: quota_recovery_def)

lemma quota_classify_shape:
  "qc_failure (quota_classify cl obs now) =
     (if signals_exhaustion obs then Some (quota_failure obs (quota_recovery cl obs)) else None)"
  "qs_reset_at (qc_snapshot (quota_classify cl obs now)) =
     Option.bind (quota_recovery cl obs) (instant_checked_add now)"
  "qs_state (qc_snapshot (quota_classify cl obs now)) = QuotaExhaustedState \<longleftrightarrow> signals_exhaustion obs"
  "\<not> signals_exhaustion obs \<Longrightarrow> qs_remaining (qc_snapshot (quota_classify cl obs now)) \<noteq> Some 0"
  by (cases "qo_signal obs"; auto simp: quota_classify_def Let_def qs_with_reset_at_def
      qs_with_window_def quota_snapshot_new_def signals_exhaustion_def effective_signal_def)+

lemma quota_failure_shape:
  "pr_status (fc_response (quota_failure obs r)) = 429
   \<and> ec_can_retry_before_commit (fc_classification (quota_failure obs r))
   \<and> (\<forall>spec. fc_cooldown (quota_failure obs r) = Some spec \<longrightarrow> 0 < spec_duration spec
        \<and> ec_recovery_after (fc_classification (quota_failure obs r)) = Some (spec_duration spec)
        \<and> (qo_scope obs, spec_scope spec) \<in> {(QCredential, KindCredential),
             (QCredentialModel, KindCredentialModel), (QProvider, KindProvider),
             (QProviderModel, KindProviderModel)})"
  by (cases "qo_scope obs"; cases r)
    (auto simp: quota_failure_def Let_def fc_defs fc_with_credential_causation_def public_response_new_def
      ec_can_retry_before_commit_def spec_credential_def spec_credential_model_def
      spec_provider_def spec_provider_model_def)

section \<open>Properties\<close>

text \<open>Redacted project keys are stable: hashing a non-empty project identifier gives a label that
  the validator accepts and that reads back as itself, so a key survives being stored and restored;
  SHA-256 is any function whose digests have at least the sixteen bytes the label uses.\<close>

theorem project_key_roundtrip:
  assumes "16 \<le> length (sha256 v)" and "v \<noteq> []"
  shows "\<exists>k. project_key_new sha256 v = Inr k \<and> project_key_from_redacted k = Inr k
    \<and> length k = 40"
proof -
  have "to_ascii_lowercase ''project'' = ''project''" by code_simp
  then show ?thesis
    using assms lower_digest_label [of "''project''" sha256 v]
      valid_digest_label_digest [of sha256 v "''project''"]
    by (simp add: project_key_new_def project_key_from_redacted_def digest_label_def concat_byte_hex)
qed

theorem project_key_roundtrip_witness:
  "project_key_from_redacted ''project-5a5a5a5a5a5a5a5a5a5a5a5a5a5a5a5a''
     = Inr ''project-5a5a5a5a5a5a5a5a5a5a5a5a5a5a5a5a''"
proof -
  have "project_key_new (\<lambda>_. replicate 32 CHR 0x5A) ''tenant''
      = Inr ''project-5a5a5a5a5a5a5a5a5a5a5a5a5a5a5a5a''" by code_simp
  then show ?thesis using project_key_roundtrip [of "\<lambda>_. replicate 32 CHR 0x5A" "''tenant''"] by simp
qed


definition example_window :: quota_snapshot where
  "example_window =
     qs_with_reset_at (Some 5500000) (quota_snapshot_new QProvider Requests QuotaExhaustedState 0)"


text \<open>C38. Quota evidence is classified consistently: a failure is produced exactly when the window is
  recorded as exhausted; it is then a replayable 429 whose cooldown, if any, has the window's own
  kind and a positive duration, and the window stays exhausted at every instant before each of the
  provider's hints has elapsed; without a failure the window never blocks a selection.\<close>

theorem quota_classify_consistent:
  assumes "c = quota_classify cl obs now"
  shows "(qc_failure c \<noteq> None \<longleftrightarrow> qs_state (qc_snapshot c) = QuotaExhaustedState)
    \<and> (\<forall>f. qc_failure c = Some f \<longrightarrow>
         pr_status (fc_response f) = 429 \<and> ec_can_retry_before_commit (fc_classification f)
         \<and> (\<forall>spec. fc_cooldown f = Some spec \<longrightarrow> 0 < spec_duration spec
              \<and> ec_recovery_after (fc_classification f) = Some (spec_duration spec)
              \<and> (qo_scope obs, spec_scope spec) \<in> {(QCredential, KindCredential),
                   (QCredentialModel, KindCredentialModel), (QProvider, KindProvider),
                   (QProviderModel, KindProviderModel)})
         \<and> (\<forall>d e t. d \<in> set_option (qo_reset_after obs) \<union> set_option (qo_retry_after obs) \<longrightarrow>
              instant_checked_add now d = Some e \<longrightarrow> t < e \<longrightarrow> qs_exhausted (qc_snapshot c) t))
    \<and> (qc_failure c = None \<longrightarrow> (\<forall>t. \<not> qs_exhausted (qc_snapshot c) t))"
proof -
  have hints: "qs_exhausted (qc_snapshot c) t"
    if ex: "signals_exhaustion obs" and e: "instant_checked_add now d = Some e" "t < e"
      and d: "d \<in> set_option (qo_reset_after obs) \<union> set_option (qo_retry_after obs)" for d e t
  proof -
    obtain m where m: "quota_recovery cl obs = Some m" "d \<le> m"
      using quota_recovery_hints [OF d, of cl] by blast
    have "\<not> r \<le> t" if "instant_checked_add now m = Some r" for r
      using that m e by (auto simp: instant_checked_add_def split: if_splits)
    then show ?thesis using ex m
      by (simp add: assms qs_exhausted_def quota_classify_shape split: option.split)
  qed
  have "\<not> qs_exhausted (qc_snapshot c) t" if "\<not> signals_exhaustion obs" for t
    using that by (simp add: assms qs_exhausted_def quota_classify_shape)
  then show ?thesis
    using hints quota_failure_shape [of obs "quota_recovery cl obs"]
    by (cases "signals_exhaustion obs") (simp_all add: assms quota_classify_shape)
qed

theorem quota_classify_consistent_witness:
  "let obs = qo_with_retry_after (from_secs 5)
               (qo_with_reset_after (from_secs 2) (quota_observation_new SignalExhausted QProvider Tokens));
       c = quota_classify quota_classifier_default obs 0 in
   qc_failure c \<noteq> None \<and> qs_exhausted (qc_snapshot c) 4999999999"
proof -
  let ?obs = "qo_with_retry_after (from_secs 5)
      (qo_with_reset_after (from_secs 2) (quota_observation_new SignalExhausted QProvider Tokens))"
  let ?c = "quota_classify quota_classifier_default ?obs 0"
  have "qc_failure ?c \<noteq> None" by code_simp
  moreover have "from_secs 5 \<in> set_option (qo_retry_after ?obs)"
    "instant_checked_add 0 (from_secs 5) = Some 5000000000"
    by (simp_all add: qo_with_retry_after_def instant_checked_add_def from_secs_def
        nanos_per_sec_def instant_max_def)
  ultimately show ?thesis
    using quota_classify_consistent [OF refl, of quota_classifier_default ?obs 0]
    by (auto simp: Let_def)
qed

end
