(* ===== verification/Identifiers.thy ===== *)
theory Identifiers
  imports Pooler_Prelude
begin

text \<open>
  Validated identifiers (\<open>pooler-core/src/id.rs\<close>). A string is its UTF-8 bytes; \<open>utf8_chars\<close>
  reads the code points that \<open>str::chars\<close> iterates over, so that the validator's character tests
  are about characters and its length test about bytes, as in the source.
\<close>

definition max_identifier_length :: nat where "max_identifier_length = 256"

datatype identifier_error =
    IdEmpty
  | IdTooLong nat
  | IdInvalidCharacter nat
  | IdInvalidComponent string

text \<open>The number of bytes of a character, by its first byte, and the value of the character.\<close>

definition utf8_width :: "char \<Rightarrow> nat" where
  "utf8_width c =
     (let n = of_char c :: nat in
      if n < 0x80 then 1 else if n < 0xE0 then 2 else if n < 0xF0 then 3 else 4)"

definition utf8_value :: "string \<Rightarrow> nat" where
  "utf8_value bs =
     (case bs of
        [] \<Rightarrow> 0
      | c # rest \<Rightarrow>
          let n = of_char c :: nat;
              lead = (if n < 0x80 then n else if n < 0xE0 then n mod 0x20
                      else if n < 0xF0 then n mod 0x10 else n mod 0x08)
          in foldl (\<lambda>v b. v * 0x40 + of_char b mod 0x40) lead rest)"

function utf8_chars :: "string \<Rightarrow> nat list" where
  "utf8_chars [] = []"
| "utf8_chars (c # cs) =
     utf8_value (take (utf8_width c) (c # cs)) # utf8_chars (drop (utf8_width c) (c # cs))"
  by pat_completeness auto
termination
  by (relation "measure length") (auto simp: utf8_width_def Let_def)

text \<open>\<open>char::is_control\<close> (general category Cc) and \<open>char::is_whitespace\<close> (White_Space).\<close>

definition is_control :: "nat \<Rightarrow> bool" where
  "is_control n \<longleftrightarrow> n < 0x20 \<or> (0x7F \<le> n \<and> n \<le> 0x9F)"

definition is_whitespace :: "nat \<Rightarrow> bool" where
  "is_whitespace n \<longleftrightarrow>
     (0x09 \<le> n \<and> n \<le> 0x0D) \<or> n = 0x20 \<or> n = 0x85 \<or> n = 0xA0 \<or> n = 0x1680
     \<or> (0x2000 \<le> n \<and> n \<le> 0x200A) \<or> n = 0x2028 \<or> n = 0x2029 \<or> n = 0x202F \<or> n = 0x205F
     \<or> n = 0x3000"

definition validate_named :: "string \<Rightarrow> identifier_error + unit" where
  "validate_named v =
     (if v = [] then Inl IdEmpty
      else if length v > max_identifier_length then Inl (IdTooLong max_identifier_length)
      else case find (\<lambda>n. is_control n \<or> is_whitespace n) (utf8_chars v) of
        Some n \<Rightarrow> Inl (IdInvalidCharacter n)
      | None \<Rightarrow> Inr ())"

text \<open>\<open>str::split\<close> on an ASCII separator: one piece more than there are separators.\<close>

fun split_on :: "char \<Rightarrow> string \<Rightarrow> string list" where
  "split_on s [] = [[]]"
| "split_on s (c # cs) =
     (if c = s then [] # split_on s cs
      else case split_on s cs of [] \<Rightarrow> [[c]] | p # ps \<Rightarrow> (c # p) # ps)"

definition component_char :: "char \<Rightarrow> bool" where
  "component_char c \<longleftrightarrow> is_ascii_alphanumeric c \<or> c = CHR ''_'' \<or> c = CHR ''-''"

definition validate_component :: "string \<Rightarrow> identifier_error + unit" where
  "validate_component v =
     (case validate_named v of
        Inl e \<Rightarrow> Inl e
      | Inr _ \<Rightarrow>
          (case find (\<lambda>p. p = [] \<or> \<not> list_all component_char p) (split_on CHR ''.'' v) of
             Some p \<Rightarrow> Inl (IdInvalidComponent p)
           | None \<Rightarrow> Inr ()))"

text \<open>The constructors the macro generates: \<open>new\<close> of the named identifiers and of \<open>ComponentId\<close>.\<close>

definition named_identifier_new :: "string \<Rightarrow> identifier_error + string" where
  "named_identifier_new v = (case validate_named v of Inl e \<Rightarrow> Inl e | Inr _ \<Rightarrow> Inr v)"

definition component_identifier_new :: "string \<Rightarrow> identifier_error + string" where
  "component_identifier_new v = (case validate_component v of Inl e \<Rightarrow> Inl e | Inr _ \<Rightarrow> Inr v)"

text \<open>\<open>TargetBindingId\<close>: a model and a target, shown with a slash between them.\<close>

definition target_binding_id_new :: "string \<Rightarrow> string \<Rightarrow> identifier_error + string \<times> string" where
  "target_binding_id_new model target =
     (case named_identifier_new model of
        Inl e \<Rightarrow> Inl e
      | Inr m \<Rightarrow> (case named_identifier_new target of Inl e \<Rightarrow> Inl e | Inr t \<Rightarrow> Inr (m, t)))"

definition target_binding_id_display :: "string \<times> string \<Rightarrow> string" where
  "target_binding_id_display b = fst b @ ''/'' @ snd b"

section \<open>Facts\<close>

lemma find_check:
  "(case find P xs of Some x \<Rightarrow> Inl (f x) | None \<Rightarrow> Inr u) = Inr u \<longleftrightarrow> (\<forall>x \<in> set xs. \<not> P x)"
  by (induction xs) auto

lemma validate_named_Inr:
  "validate_named v = Inr () \<longleftrightarrow>
     v \<noteq> [] \<and> length v \<le> max_identifier_length
     \<and> (\<forall>n \<in> set (utf8_chars v). \<not> is_control n \<and> \<not> is_whitespace n)"
  by (auto simp: validate_named_def find_check)

lemma split_on_nonempty: "split_on s v \<noteq> []"
  by (induction v) (auto split: list.split)

lemma set_split_on: "c \<in> set v \<Longrightarrow> c = s \<or> (\<exists>p \<in> set (split_on s v). c \<in> set p)"
proof (induction v)
  case (Cons d v)
  then show ?case using split_on_nonempty [of s v] by (cases "split_on s v") auto
qed simp

lemma utf8_chars_ascii:
  "\<forall>c \<in> set v. of_char c < (128 :: nat) \<Longrightarrow> utf8_chars v = map of_char v"
  by (induction v) (simp_all add: utf8_width_def utf8_value_def)

lemma component_char_ascii:
  assumes "component_char c \<or> c = CHR ''.''"
  shows "of_char c < (128 :: nat) \<and> \<not> is_control (of_char c) \<and> \<not> is_whitespace (of_char c)"
  using assms unfolding component_char_def is_ascii_alphanumeric_def is_control_def is_whitespace_def
    Let_def by auto

section \<open>Properties\<close>

text \<open>A component identifier is exactly a dot-separated sequence of non-empty segments of ASCII
  letters, digits, underscores and hyphens, at most 256 bytes long: the general character rules of
  named identifiers exclude nothing more.\<close>

theorem component_identifier_exact:
  "component_identifier_new v = Inr v \<longleftrightarrow>
     length v \<le> 256 \<and> (\<forall>p \<in> set (split_on CHR ''.'' v). p \<noteq> [] \<and> list_all component_char p)"
proof -
  let ?segments = "\<forall>p \<in> set (split_on CHR ''.'' v). p \<noteq> [] \<and> list_all component_char p"
  have "validate_named v = Inr ()" if "length v \<le> 256" ?segments
  proof -
    have "component_char c \<or> c = CHR ''.''" if "c \<in> set v" for c
      using set_split_on [OF that, of "CHR ''.''"] \<open>?segments\<close> by (auto simp: list_all_iff)
    then have "\<forall>c \<in> set v. of_char c < (128 :: nat) \<and> \<not> is_control (of_char c)
        \<and> \<not> is_whitespace (of_char c)" using component_char_ascii by blast
    moreover have "v \<noteq> []" using \<open>?segments\<close> by auto
    ultimately show ?thesis
      using that(1) by (simp add: validate_named_Inr utf8_chars_ascii max_identifier_length_def)
  qed
  moreover have "component_identifier_new v = Inr v \<longleftrightarrow> validate_named v = Inr () \<and> ?segments"
  proof -
    have "component_identifier_new v = Inr v \<longleftrightarrow> validate_component v = Inr ()"
      by (simp add: component_identifier_new_def split: sum.split)
    also have "\<dots> \<longleftrightarrow> validate_named v = Inr () \<and> ?segments"
      by (auto simp: validate_component_def find_check split: sum.splits)
    finally show ?thesis .
  qed
  ultimately show ?thesis
    by (auto simp: validate_named_Inr max_identifier_length_def)
qed

theorem component_identifier_exact_witness:
  "component_identifier_new ''pool.a-1'' = Inr ''pool.a-1''
   \<and> component_identifier_new ''pool..a'' \<noteq> Inr ''pool..a''"
proof -
  have "\<forall>p \<in> set (split_on CHR ''.'' ''pool.a-1''). p \<noteq> [] \<and> list_all component_char p"
    by code_simp
  moreover have "[] \<in> set (split_on CHR ''.'' ''pool..a'')" by code_simp
  ultimately show ?thesis
    using component_identifier_exact [of "''pool.a-1''"] component_identifier_exact [of "''pool..a''"]
    by auto
qed

end
