(* ===== verification/Selection_Types.thy ===== *)
theory Selection_Types
  imports Quota Capabilities Retry Identifiers
begin

text \<open>
  The data of target selection (\<open>pooler-policy/src/selection.rs\<close> and the explanation types at the
  end of \<open>pooler-policy/src/lib.rs\<close>): routing facts and requirements, registrations, requests,
  explanations and errors, each with the constructors the source gives it. A \<open>BTreeSet\<close> is the
  ascending list of its elements.
\<close>

section \<open>Routing facts and requirements\<close>

definition btree_set_of :: "'a::linorder list \<Rightarrow> 'a list" where
  "btree_set_of xs = sort (remdups xs)"

datatype 'a routing_fact = Verified 'a | OperatorDeclared 'a | FactUnknown

definition fact_is_known :: "'a routing_fact \<Rightarrow> bool" where
  "fact_is_known f \<longleftrightarrow> (case f of FactUnknown \<Rightarrow> False | _ \<Rightarrow> True)"

fun fact_value :: "'a routing_fact \<Rightarrow> 'a option" where
  "fact_value (Verified v) = Some v"
| "fact_value (OperatorDeclared v) = Some v"
| "fact_value FactUnknown = None"

record candidate_facts =
  cf_parameters :: "string list routing_fact"
  cf_capabilities :: "capability_set routing_fact"
  cf_context_window :: "u64 routing_fact"
  cf_quantization :: "string list routing_fact"
  cf_privacy :: "string routing_fact"
  cf_zdr :: "bool routing_fact"
  cf_data_policy :: "string routing_fact"
  cf_region :: "string routing_fact"
  cf_price :: "u64 routing_fact"

definition candidate_facts_default :: candidate_facts where
  "candidate_facts_default =
     \<lparr>cf_parameters = FactUnknown, cf_capabilities = FactUnknown, cf_context_window = FactUnknown,
      cf_quantization = FactUnknown, cf_privacy = FactUnknown, cf_zdr = FactUnknown,
      cf_data_policy = FactUnknown, cf_region = FactUnknown, cf_price = FactUnknown\<rparr>"

definition operator_capabilities :: "capability_set \<Rightarrow> candidate_facts" where
  "operator_capabilities caps = candidate_facts_default\<lparr>cf_capabilities := OperatorDeclared caps\<rparr>"

definition cf_with_parameters :: "string list \<Rightarrow> candidate_facts \<Rightarrow> candidate_facts" where
  "cf_with_parameters vs f = f\<lparr>cf_parameters := OperatorDeclared (btree_set_of vs)\<rparr>"

definition cf_with_context_window :: "u64 \<Rightarrow> candidate_facts \<Rightarrow> candidate_facts" where
  "cf_with_context_window v f = f\<lparr>cf_context_window := OperatorDeclared v\<rparr>"

definition cf_with_quantization :: "string list \<Rightarrow> candidate_facts \<Rightarrow> candidate_facts" where
  "cf_with_quantization vs f = f\<lparr>cf_quantization := OperatorDeclared (btree_set_of vs)\<rparr>"

definition cf_with_privacy :: "string \<Rightarrow> candidate_facts \<Rightarrow> candidate_facts" where
  "cf_with_privacy v f = f\<lparr>cf_privacy := OperatorDeclared v\<rparr>"

definition cf_with_zdr :: "bool \<Rightarrow> candidate_facts \<Rightarrow> candidate_facts" where
  "cf_with_zdr v f = f\<lparr>cf_zdr := OperatorDeclared v\<rparr>"

definition cf_with_data_policy :: "string \<Rightarrow> candidate_facts \<Rightarrow> candidate_facts" where
  "cf_with_data_policy v f = f\<lparr>cf_data_policy := OperatorDeclared v\<rparr>"

definition cf_with_region :: "string \<Rightarrow> candidate_facts \<Rightarrow> candidate_facts" where
  "cf_with_region v f = f\<lparr>cf_region := OperatorDeclared v\<rparr>"

definition cf_with_price :: "u64 \<Rightarrow> candidate_facts \<Rightarrow> candidate_facts" where
  "cf_with_price v f = f\<lparr>cf_price := OperatorDeclared v\<rparr>"

record routing_requirements =
  rr_provider_order :: "string list"
  rr_provider_allow :: "string list"
  rr_provider_deny :: "string list"
  rr_target_order :: "string list"
  rr_target_allow :: "string list"
  rr_target_deny :: "string list"
  rr_allow_fallbacks :: bool
  rr_required_parameters :: "string list"
  rr_required_capabilities :: capability_set
  rr_minimum_context :: "u64 option"
  rr_quantization :: "string list"
  rr_privacy :: "string option"
  rr_require_zdr :: bool
  rr_data_policy :: "string option"
  rr_region :: "string option"
  rr_max_price :: "u64 option"
  rr_prefer_price :: bool
  rr_prefer_latency :: bool
  rr_prefer_throughput :: bool
  rr_max_latency_ms :: "u64 option"
  rr_min_throughput :: "u64 option"
  rr_min_samples :: u32
  rr_stale_after_ms :: u64

definition routing_requirements_default :: routing_requirements where
  "routing_requirements_default =
     \<lparr>rr_provider_order = [], rr_provider_allow = [], rr_provider_deny = [], rr_target_order = [],
      rr_target_allow = [], rr_target_deny = [], rr_allow_fallbacks = True,
      rr_required_parameters = [], rr_required_capabilities = cs_new, rr_minimum_context = None,
      rr_quantization = [], rr_privacy = None, rr_require_zdr = False, rr_data_policy = None,
      rr_region = None, rr_max_price = None, rr_prefer_price = False, rr_prefer_latency = False,
      rr_prefer_throughput = False, rr_max_latency_ms = None, rr_min_throughput = None,
      rr_min_samples = 1, rr_stale_after_ms = 5 * 60 * 1000\<rparr>"

definition adaptive :: "routing_requirements \<Rightarrow> bool" where
  "adaptive r \<longleftrightarrow> rr_prefer_price r \<or> rr_prefer_latency r \<or> rr_prefer_throughput r"

record telemetry_sample =
  ts_observed_at_ms :: u64
  ts_sample_count :: u32
  ts_rolling_window_ms :: u64
  ts_stale_after_ms :: u64
  ts_latency_ms :: "u64 option"
  ts_ttft_ms :: "u64 option"
  ts_throughput_per_second :: "u64 option"

definition fresh_at :: "telemetry_sample \<Rightarrow> u64 \<Rightarrow> u32 \<Rightarrow> u64 \<Rightarrow> bool" where
  "fresh_at s now_ms min_samples stale_after_ms \<longleftrightarrow>
     ts_sample_count s \<ge> min_samples
     \<and> saturating_sub now_ms (ts_observed_at_ms s) \<le> min stale_after_ms (max (ts_stale_after_ms s) 1)"

section \<open>Identities\<close>

datatype selection_strategy =
  RoundRobin | SmoothWeightedRoundRobin | FillFirst | LeastInFlight | HealthWeighted | OrderedFallback

definition binding_display :: "binding_key \<Rightarrow> string" where
  "binding_display b = bk_target b @ ''/'' @ bk_account b @ ''/'' @ bk_fingerprint b"

definition binding_pseudonym :: "(string \<Rightarrow> string) \<Rightarrow> binding_key \<Rightarrow> string" where
  "binding_pseudonym sha256 b = digest_label sha256 ''binding'' (binding_display b)"

definition credential_pseudonym :: "(string \<Rightarrow> string) \<Rightarrow> credential_id \<Rightarrow> string" where
  "credential_pseudonym sha256 c = digest_label sha256 ''cred'' c"

text \<open>\<open>BindingKey::legacy\<close> hashes the three identifiers joined by NUL bytes.\<close>

definition legacy_binding ::
  "(string \<Rightarrow> string) \<Rightarrow> credential_id \<Rightarrow> provider_id \<Rightarrow> model_id \<Rightarrow> binding_key" where
  "legacy_binding sha256 c p m =
     (let source = c @ [CHR 0x00] @ p @ [CHR 0x00] @ m in
      BindingKey (''legacy-'' @ digest_label sha256 ''binding'' source) c
        (digest_label sha256 ''account'' source))"

type_synonym affinity_key = string

section \<open>Explanations\<close>

record selection_target =
  st_provider :: provider_id
  st_model :: model_id
  st_credential_pseudonym :: string
  st_target_id :: "target_id option"
  st_binding_pseudonym :: "string option"
  st_priority :: "u32 option"
  st_pool_id :: "string option"

definition selection_target_new :: "provider_id \<Rightarrow> model_id \<Rightarrow> string \<Rightarrow> selection_target" where
  "selection_target_new p m c =
     \<lparr>st_provider = p, st_model = m, st_credential_pseudonym = c, st_target_id = None,
      st_binding_pseudonym = None, st_priority = None, st_pool_id = None\<rparr>"

definition selection_target_structured ::
  "provider_id \<Rightarrow> model_id \<Rightarrow> string \<Rightarrow> target_id \<Rightarrow> string \<Rightarrow> u32 \<Rightarrow> string option \<Rightarrow> selection_target" where
  "selection_target_structured p m c t b prio pool =
     \<lparr>st_provider = p, st_model = m, st_credential_pseudonym = c, st_target_id = Some t,
      st_binding_pseudonym = Some b, st_priority = Some prio, st_pool_id = pool\<rparr>"

datatype filter_reason =
    ModelMismatch | MissingCapability string | CodecUnavailable string | ProviderNotAllowed
  | ProviderDenied | TargetNotAllowed | TargetDenied | FallbackDisabled | MissingParameter string
  | UnknownParameters | MissingContext | UnknownContext | MissingQuantization string
  | UnknownQuantization | PrivacyMismatch | UnknownPrivacy | ZdrRequired | UnknownZdr
  | DataPolicyMismatch | UnknownDataPolicy | RegionMismatch | UnknownRegion | PriceExceeded
  | UnknownPrice | StaleTelemetry | UnknownTelemetry | CredentialUnavailable | CredentialCooldown
  | CredentialModelCooldown | ModelCooldown | ProviderCooldown | ProviderModelCooldown
  | RouteCooldown | ConcurrencyLimit | RoutePolicy | SessionAffinity | LossPolicy
  | QuotaExhausted | FilterDisabled

text \<open>A score is the \<open>f64\<close> quotient of two integers; the model keeps the pair.\<close>

type_synonym score = "nat \<times> nat"

record candidate_explanation =
  ce_target :: selection_target
  ce_score :: "score option"
  ce_filter_reasons :: "filter_reason list"

definition candidate_eligible :: "selection_target \<Rightarrow> score \<Rightarrow> candidate_explanation" where
  "candidate_eligible t sc = \<lparr>ce_target = t, ce_score = Some sc, ce_filter_reasons = []\<rparr>"

definition candidate_filtered :: "selection_target \<Rightarrow> filter_reason \<Rightarrow> candidate_explanation" where
  "candidate_filtered t r = \<lparr>ce_target = t, ce_score = None, ce_filter_reasons = [r]\<rparr>"

definition candidate_is_eligible :: "candidate_explanation \<Rightarrow> bool" where
  "candidate_is_eligible c \<longleftrightarrow> ce_filter_reasons c = []"

datatype affinity_decision =
    NotRequested
  | NoMatch string
  | Matched string selection_target
  | Rebound string provider_id selection_target
  | Unavailable string selection_target

record model_alias_resolution =
  mar_requested :: model_id
  mar_resolved :: model_id
  mar_alias_used :: bool

definition alias_exact :: "model_id \<Rightarrow> model_alias_resolution" where
  "alias_exact m = \<lparr>mar_requested = m, mar_resolved = m, mar_alias_used = False\<rparr>"

definition alias_alias :: "model_id \<Rightarrow> model_id \<Rightarrow> model_alias_resolution" where
  "alias_alias requested resolved =
     \<lparr>mar_requested = requested, mar_resolved = resolved, mar_alias_used = True\<rparr>"

record selection_explanation =
  ex_candidates :: "candidate_explanation list"
  ex_affinity :: affinity_decision
  ex_selected :: "selection_target option"
  ex_selected_score :: "score option"
  ex_selected_priority :: "u32 option"
  ex_model_alias_resolution :: model_alias_resolution
  ex_attempt :: u32
  ex_configuration_generation :: config_generation

definition explanation_new ::
  "model_alias_resolution \<Rightarrow> u32 \<Rightarrow> config_generation \<Rightarrow> selection_explanation" where
  "explanation_new m attempt gen =
     \<lparr>ex_candidates = [], ex_affinity = NotRequested, ex_selected = None, ex_selected_score = None,
      ex_selected_priority = None, ex_model_alias_resolution = m, ex_attempt = attempt,
      ex_configuration_generation = gen\<rparr>"

definition push_candidate ::
  "candidate_explanation \<Rightarrow> selection_explanation \<Rightarrow> selection_explanation" where
  "push_candidate c e = e\<lparr>ex_candidates := ex_candidates e @ [c]\<rparr>"

definition set_affinity :: "affinity_decision \<Rightarrow> selection_explanation \<Rightarrow> selection_explanation" where
  "set_affinity a e = e\<lparr>ex_affinity := a\<rparr>"

definition set_selected ::
  "selection_target \<Rightarrow> score option \<Rightarrow> selection_explanation \<Rightarrow> selection_explanation" where
  "set_selected t sc e =
     e\<lparr>ex_selected_priority := st_priority t, ex_selected := Some t, ex_selected_score := sc\<rparr>"

definition selected_provider :: "selection_explanation \<Rightarrow> provider_id option" where
  "selected_provider e = map_option st_provider (ex_selected e)"

definition selected_credential_pseudonym :: "selection_explanation \<Rightarrow> string option" where
  "selected_credential_pseudonym e = map_option st_credential_pseudonym (ex_selected e)"

datatype selection_error =
    EmptyAffinityKey | EmptyAccountFingerprint | AccountFingerprintTooLong | EmptyPoolId
  | EmptyCodec | ZeroAffinityTtl | ZeroWeight | ZeroTargetWeight | ZeroPriority
  | ZeroConcurrencyLimit | ModelAliasCycle | MissingQuotaProject | QuotaNotExhausted
  | InvalidQuotaState quota_error | ForeignLease | StaleLease | StaleQuotaObservation
  | InvalidIdentifier identifier_error
  | LockPoisoned
  | NoEligible model_id selection_explanation

definition binding_key_new :: "string \<Rightarrow> string \<Rightarrow> string \<Rightarrow> selection_error + binding_key" where
  "binding_key_new target account fingerprint =
     (if trim fingerprint = [] then Inl EmptyAccountFingerprint
      else if length fingerprint > max_identifier_length then Inl AccountFingerprintTooLong
      else case named_identifier_new target of
        Inl e \<Rightarrow> Inl (InvalidIdentifier e)
      | Inr t \<Rightarrow>
          (case named_identifier_new account of
             Inl e \<Rightarrow> Inl (InvalidIdentifier e)
           | Inr a \<Rightarrow> Inr (BindingKey t a fingerprint)))"

section \<open>Registrations\<close>

record registration =
  cr_binding :: binding_key
  cr_credential :: credential_id
  cr_provider :: provider_id
  cr_model :: model_id
  cr_capabilities :: capability_set
  cr_facts :: candidate_facts
  cr_codecs :: "string list"
  cr_weight :: u32
  cr_target_weight :: u32
  cr_priority :: u32
  cr_pool_id :: "string option"
  cr_max_in_flight :: "u32 option"
  cr_quota_project :: "project_key option"

definition registration_with_binding ::
  "binding_key \<Rightarrow> provider_id \<Rightarrow> model_id \<Rightarrow> capability_set \<Rightarrow> registration" where
  "registration_with_binding b p m caps =
     \<lparr>cr_binding = b, cr_credential = bk_account b, cr_provider = p, cr_model = m,
      cr_capabilities = caps, cr_facts = operator_capabilities caps, cr_codecs = [],
      cr_weight = 1, cr_target_weight = 1, cr_priority = 1, cr_pool_id = None,
      cr_max_in_flight = None, cr_quota_project = None\<rparr>"

definition registration_new ::
  "(string \<Rightarrow> string) \<Rightarrow> credential_id \<Rightarrow> provider_id \<Rightarrow> model_id \<Rightarrow> capability_set \<Rightarrow> registration" where
  "registration_new sha256 c p m caps =
     registration_with_binding (legacy_binding sha256 c p m) p m caps"

definition cr_with_facts :: "candidate_facts \<Rightarrow> registration \<Rightarrow> registration" where
  "cr_with_facts f r = r\<lparr>cr_facts := f\<rparr>"

definition effective_weight :: "registration \<Rightarrow> u32" where
  "effective_weight r = max (saturating_mul (cr_weight r) (cr_target_weight r)) 1"

definition cr_with_weight :: "u32 \<Rightarrow> registration \<Rightarrow> selection_error + registration" where
  "cr_with_weight w r = (if w = 0 then Inl ZeroWeight else Inr (r\<lparr>cr_weight := w\<rparr>))"

definition cr_with_target_weight :: "u32 \<Rightarrow> registration \<Rightarrow> selection_error + registration" where
  "cr_with_target_weight w r =
     (if w = 0 then Inl ZeroTargetWeight else Inr (r\<lparr>cr_target_weight := w\<rparr>))"

definition cr_with_priority :: "u32 \<Rightarrow> registration \<Rightarrow> selection_error + registration" where
  "cr_with_priority p r = (if p = 0 then Inl ZeroPriority else Inr (r\<lparr>cr_priority := p\<rparr>))"

definition cr_with_pool_id :: "string \<Rightarrow> registration \<Rightarrow> selection_error + registration" where
  "cr_with_pool_id pool r =
     (if trim pool = [] then Inl EmptyPoolId else Inr (r\<lparr>cr_pool_id := Some pool\<rparr>))"

definition cr_with_binding_key :: "binding_key \<Rightarrow> registration \<Rightarrow> registration" where
  "cr_with_binding_key b r = r\<lparr>cr_credential := bk_account b, cr_binding := b\<rparr>"

definition cr_with_max_in_flight :: "u32 \<Rightarrow> registration \<Rightarrow> selection_error + registration" where
  "cr_with_max_in_flight m r =
     (if m = 0 then Inl ZeroConcurrencyLimit else Inr (r\<lparr>cr_max_in_flight := Some m\<rparr>))"

definition cr_with_quota_project :: "project_key \<Rightarrow> registration \<Rightarrow> registration" where
  "cr_with_quota_project p r = r\<lparr>cr_quota_project := Some p\<rparr>"

definition cr_with_codec :: "string \<Rightarrow> registration \<Rightarrow> selection_error + registration" where
  "cr_with_codec c r =
     (if trim c = [] then Inl EmptyCodec
      else Inr (r\<lparr>cr_codecs := btree_set_of (c # cr_codecs r)\<rparr>))"

fun cr_with_codecs :: "string list \<Rightarrow> registration \<Rightarrow> selection_error + registration" where
  "cr_with_codecs [] r = Inr r"
| "cr_with_codecs (c # cs) r =
     (case cr_with_codec c r of Inl e \<Rightarrow> Inl e | Inr r' \<Rightarrow> cr_with_codecs cs r')"

definition registration_target :: "(string \<Rightarrow> string) \<Rightarrow> registration \<Rightarrow> selection_target" where
  "registration_target sha256 r =
     selection_target_structured (cr_provider r) (cr_model r)
       (credential_pseudonym sha256 (cr_credential r)) (bk_target (cr_binding r))
       (binding_pseudonym sha256 (cr_binding r)) (cr_priority r) (cr_pool_id r)"

section \<open>Requests\<close>

record selection_request =
  sr_model :: model_id
  sr_allowed_credentials :: "credential_id list option"
  sr_allowed_bindings :: "binding_key list option"
  sr_ordered_credentials :: "credential_id list"
  sr_ordered_bindings :: "binding_key list"
  sr_excluded_credentials :: "credential_id list"
  sr_excluded_bindings :: "binding_key list"
  sr_required_capabilities :: capability_set
  sr_codec :: "string option"
  sr_strategy :: selection_strategy
  sr_affinity_key :: "affinity_key option"
  sr_affinity_ttl :: duration
  sr_affinity_rebind :: bool
  sr_pool_id :: "string option"
  sr_routing :: "routing_requirements option"
  sr_telemetry :: "(binding_key \<times> telemetry_sample) list"
  sr_telemetry_now_ms :: u64
  sr_route :: "route_id option"
  sr_attempt :: u32
  sr_configuration_generation :: config_generation
  sr_now :: instant

text \<open>\<open>SelectionRequest::new\<close> reads the clock for its default \<open>now\<close>.\<close>

definition selection_request_new :: "model_id \<Rightarrow> instant \<Rightarrow> selection_request" where
  "selection_request_new m now =
     \<lparr>sr_model = m, sr_allowed_credentials = None, sr_allowed_bindings = None,
      sr_ordered_credentials = [], sr_ordered_bindings = [], sr_excluded_credentials = [],
      sr_excluded_bindings = [], sr_required_capabilities = cs_new, sr_codec = None,
      sr_strategy = HealthWeighted, sr_affinity_key = None, sr_affinity_ttl = from_secs (30 * 60),
      sr_affinity_rebind = True, sr_pool_id = None, sr_routing = None, sr_telemetry = [],
      sr_telemetry_now_ms = 0, sr_route = None, sr_attempt = 1,
      sr_configuration_generation = generation_initial, sr_now = now\<rparr>"

definition with_allowed_credentials ::
  "credential_id list \<Rightarrow> selection_request \<Rightarrow> selection_request" where
  "with_allowed_credentials cs r =
     r\<lparr>sr_ordered_credentials := cs, sr_allowed_credentials := Some (btree_set_of cs)\<rparr>"

definition with_allowed_bindings :: "binding_key list \<Rightarrow> selection_request \<Rightarrow> selection_request" where
  "with_allowed_bindings bs r =
     r\<lparr>sr_ordered_bindings := bs, sr_allowed_bindings := Some (btree_set_of bs)\<rparr>"

definition with_excluded_credentials ::
  "credential_id list \<Rightarrow> selection_request \<Rightarrow> selection_request" where
  "with_excluded_credentials cs r =
     r\<lparr>sr_excluded_credentials := btree_set_of (sr_excluded_credentials r @ cs)\<rparr>"

definition with_excluded_bindings :: "binding_key list \<Rightarrow> selection_request \<Rightarrow> selection_request" where
  "with_excluded_bindings bs r =
     r\<lparr>sr_excluded_bindings := btree_set_of (sr_excluded_bindings r @ bs)\<rparr>"

definition sr_with_pool_id :: "string \<Rightarrow> selection_request \<Rightarrow> selection_error + selection_request" where
  "sr_with_pool_id pool r =
     (if trim pool = [] then Inl EmptyPoolId else Inr (r\<lparr>sr_pool_id := Some pool\<rparr>))"

definition sr_with_codec :: "string \<Rightarrow> selection_request \<Rightarrow> selection_error + selection_request" where
  "sr_with_codec c r = (if trim c = [] then Inl EmptyCodec else Inr (r\<lparr>sr_codec := Some c\<rparr>))"

definition sr_with_capabilities :: "capability_set \<Rightarrow> selection_request \<Rightarrow> selection_request" where
  "sr_with_capabilities caps r = r\<lparr>sr_required_capabilities := caps\<rparr>"

definition sr_with_routing :: "routing_requirements \<Rightarrow> selection_request \<Rightarrow> selection_request" where
  "sr_with_routing routing r = r\<lparr>sr_routing := Some routing\<rparr>"

definition sr_with_telemetry ::
  "(binding_key \<times> telemetry_sample) list \<Rightarrow> u64 \<Rightarrow> selection_request \<Rightarrow> selection_request" where
  "sr_with_telemetry t now_ms r = r\<lparr>sr_telemetry := t, sr_telemetry_now_ms := now_ms\<rparr>"

definition sr_with_strategy :: "selection_strategy \<Rightarrow> selection_request \<Rightarrow> selection_request" where
  "sr_with_strategy st r = r\<lparr>sr_strategy := st\<rparr>"

definition sr_with_affinity_rebind :: "bool \<Rightarrow> selection_request \<Rightarrow> selection_request" where
  "sr_with_affinity_rebind b r = r\<lparr>sr_affinity_rebind := b\<rparr>"

definition sr_with_route :: "route_id \<Rightarrow> selection_request \<Rightarrow> selection_request" where
  "sr_with_route route r = r\<lparr>sr_route := Some route\<rparr>"

definition sr_with_attempt :: "u32 \<Rightarrow> selection_request \<Rightarrow> selection_request" where
  "sr_with_attempt a r = r\<lparr>sr_attempt := a\<rparr>"

definition sr_with_generation :: "config_generation \<Rightarrow> selection_request \<Rightarrow> selection_request" where
  "sr_with_generation g r = r\<lparr>sr_configuration_generation := g\<rparr>"

definition sr_at :: "instant \<Rightarrow> selection_request \<Rightarrow> selection_request" where
  "sr_at now r = r\<lparr>sr_now := now\<rparr>"

definition affinity_key_new :: "(string \<Rightarrow> string) \<Rightarrow> string \<Rightarrow> selection_error + affinity_key" where
  "affinity_key_new sha256 v =
     (if v = [] then Inl EmptyAffinityKey else Inr (digest_label sha256 ''session'' v))"

definition affinity_key_from_redacted :: "string \<Rightarrow> selection_error + affinity_key" where
  "affinity_key_from_redacted v =
     (if length v = 40 \<and> starts_with v ''session-'' \<and> list_all is_ascii_hexdigit (drop 8 v)
      then Inr v else Inl EmptyAffinityKey)"

definition with_affinity_key ::
  "(string \<Rightarrow> string) \<Rightarrow> string \<Rightarrow> duration \<Rightarrow> selection_request \<Rightarrow> selection_error + selection_request" where
  "with_affinity_key sha256 v ttl r =
     (if ttl = 0 then Inl ZeroAffinityTtl
      else case affinity_key_new sha256 v of
        Inl e \<Rightarrow> Inl e
      | Inr k \<Rightarrow> Inr (r\<lparr>sr_affinity_key := Some k, sr_affinity_ttl := ttl\<rparr>))"

definition with_hashed_affinity_key ::
  "affinity_key \<Rightarrow> duration \<Rightarrow> selection_request \<Rightarrow> selection_error + selection_request" where
  "with_hashed_affinity_key k ttl r =
     (if ttl = 0 then Inl ZeroAffinityTtl
      else Inr (r\<lparr>sr_affinity_key := Some k, sr_affinity_ttl := ttl\<rparr>))"

end
