(* ===== verification/Bounded_Store.thy ===== *)
theory Bounded_Store
  imports Pooler_Prelude
begin

text \<open>
  Maps with a ceiling on the number of entries: a new key inserted into a full map evicts the entry
  that is oldest by age and, among equally old ones, least by key. The affinity table and the
  routing telemetry both work this way; the interface says what an insertion does and the lemmas
  about size and eviction are proved once.
\<close>

definition age_order ::
  "('v \<Rightarrow> 't::linorder) \<Rightarrow> 'k::linorder \<times> 'v \<Rightarrow> 'k \<times> 'v \<Rightarrow> ordering" where
  "age_order age l r = then_with (cmp (age (snd l)) (age (snd r))) (cmp (fst l) (fst r))"

definition oldest_key :: "('v \<Rightarrow> 't::linorder) \<Rightarrow> ('k::linorder \<times> 'v) list \<Rightarrow> 'k option" where
  "oldest_key age m = map_option fst (min_by (age_order age) m)"

interpretation age: total_comparator "age_order age" UNIV for age
proof -
  have "total_comparator (\<lambda>l r. then_with (cmp (age (snd l)) (age (snd r))) (cmp (fst l) (fst r))) UNIV"
    by (rule total_comparator_then [OF total_comparator_key total_comparator_key])
  then show "total_comparator (age_order age) UNIV"
    unfolding age_order_def [abs_def] .
qed

lemma oldest_key_Some:
  assumes "oldest_key age m = Some k"
  obtains v where "(k, v) \<in> set m" "\<And>k' v'. (k', v') \<in> set m \<Longrightarrow> age v \<le> age v'"
proof -
  obtain e where e: "min_by (age_order age) m = Some e" "fst e = k"
    using assms by (auto simp: oldest_key_def)
  then have "e \<in> set m" using min_by_mem by metis
  moreover have "age (snd e) \<le> age v'" if "(k', v') \<in> set m" for k' v'
    using age.min_by_least [OF e(1) subset_UNIV that] by (auto simp: age_order_def not_less)
  ultimately show ?thesis using that [of "snd e"] e(2) by (metis prod.collapse)
qed

lemma oldest_key_None: "oldest_key age m = None \<longleftrightarrow> m = []"
  by (cases m) (simp_all add: oldest_key_def)

text \<open>What a bounded insertion does with the map, as an interface over the program's operation.\<close>

locale bounded_store =
  fixes ins :: "'k::linorder \<Rightarrow> 'v \<Rightarrow> ('k \<times> 'v) list \<Rightarrow> ('k \<times> 'v) list"
    and age :: "'v \<Rightarrow> 't::linorder" and cap :: nat
  assumes cap_positive: "0 < cap"
    and ins_room: "k \<in> set (keys m) \<or> length m < cap \<Longrightarrow> ins k v m = btree_insert k v m"
    and ins_full: "k \<notin> set (keys m) \<Longrightarrow> cap \<le> length m \<Longrightarrow> oldest_key age m = Some old \<Longrightarrow>
      ins k v m = btree_insert k v (map_remove old m)"
begin

lemma ins_cases:
  obtains (room) "k \<in> set (keys m) \<or> length m < cap" "ins k v m = btree_insert k v m"
  | (full) old where "k \<notin> set (keys m)" "cap \<le> length m" "oldest_key age m = Some old"
      "ins k v m = btree_insert k v (map_remove old m)"
proof (cases "k \<in> set (keys m) \<or> length m < cap")
  case False
  then have "m \<noteq> []" using cap_positive by auto
  then have "oldest_key age m \<noteq> None" by (simp add: oldest_key_None)
  then obtain old where "oldest_key age m = Some old" by blast
  then show ?thesis using False full ins_full by (simp add: not_less)
qed (use room ins_room in blast)

lemma ins_ok: "btree_ok m \<Longrightarrow> btree_ok (ins k v m)"
  by (cases rule: ins_cases [where k = k and m = m and v = v]) (simp_all add: btree.ok_insert btree.ok_remove)

lemma length_remove:
  "btree_ok m \<Longrightarrow> oldest_key age m = Some old \<Longrightarrow> length (map_remove old m) < length m"
  by (elim oldest_key_Some) (auto simp: map_remove_def intro: length_filter_less)

lemma ins_bounded: "btree_ok m \<Longrightarrow> length m \<le> cap \<Longrightarrow> length (ins k v m) \<le> cap"
proof (cases rule: ins_cases [where k = k and m = m and v = v])
  case room
  assume "btree_ok m" "length m \<le> cap"
  then show ?thesis using room btree.length_insert [of m, where k = k and v = v] by (auto split: if_splits)
next
  case (full old)
  assume ok: "btree_ok m" and "length m \<le> cap"
  then have "length (map_remove old m) < cap"
    using length_remove [OF ok full(3)] by linarith
  then show ?thesis
    using full btree.length_insert [OF btree.ok_remove [OF ok, of old], where k = k and v = v] by (auto split: if_splits)
qed

lemma ins_get:
  "btree_ok m \<Longrightarrow> map_of (ins k v m) k = Some v"
  by (cases rule: ins_cases [where k = k and m = m and v = v]) (simp_all add: btree.get_insert btree.ok_remove)

text \<open>Every other key keeps its value, except one evicted key, which was the oldest.\<close>

lemma ins_others:
  assumes ok: "btree_ok m"
  shows "(\<forall>k'. k' \<noteq> k \<longrightarrow> map_of (ins k v m) k' = map_of m k') \<or>
    (cap \<le> length m \<and> (\<exists>old w. map_of m old = Some w \<and> map_of (ins k v m) old = None
       \<and> (\<forall>k' w'. map_of m k' = Some w' \<longrightarrow> age w \<le> age w')
       \<and> (\<forall>k'. k' \<noteq> k \<longrightarrow> k' \<noteq> old \<longrightarrow> map_of (ins k v m) k' = map_of m k')))"
proof (cases rule: ins_cases [where k = k and m = m and v = v])
  case room
  then show ?thesis using ok by (simp add: btree.get_insert)
next
  case (full old)
  obtain w where w: "(old, w) \<in> set m" "\<And>k' v'. (k', v') \<in> set m \<Longrightarrow> age w \<le> age v'"
    using oldest_key_Some [OF full(3)] by blast
  have g: "map_of (ins k v m) = (map_of (map_remove old m))(k \<mapsto> v)"
    using full ok by (simp add: btree.get_insert btree.ok_remove)
  have ow: "map_of m old = Some w" using w(1) btree.mem_iff [OF ok] by blast
  have "old \<noteq> k" using full(1) w(1) by force
  moreover have "\<forall>k' w'. map_of m k' = Some w' \<longrightarrow> age w \<le> age w'"
    using w(2) by (auto dest: map_of_SomeD)
  ultimately have "\<exists>old w. map_of m old = Some w \<and> map_of (ins k v m) old = None
       \<and> (\<forall>k' w'. map_of m k' = Some w' \<longrightarrow> age w \<le> age w')
       \<and> (\<forall>k'. k' \<noteq> k \<longrightarrow> k' \<noteq> old \<longrightarrow> map_of (ins k v m) k' = map_of m k')"
    using ow by (auto simp: g map_of_remove)
  then show ?thesis using full(2) by blast
qed

end

end
