(* ===== verification/Telemetry.thy ===== *)
theory Telemetry
  imports Selection_Types Bounded_Store
begin

text \<open>
  Routing telemetry (\<open>RoutingTelemetry\<close> in \<open>pooler-policy/src/selection.rs\<close>): a bounded map from
  bindings to rolling averages. The lock is never poisoned (no operation under it panics), so
  \<open>record\<close> is a function on the map.
\<close>

type_synonym telemetry = "(binding_key \<times> telemetry_sample) list"

definition max_routing_telemetry_bindings :: nat where "max_routing_telemetry_bindings = 4096"

text \<open>The closure \<open>average\<close> of \<open>record\<close>, with the weights it captures.\<close>

fun rolling_average :: "u64 \<Rightarrow> u64 \<Rightarrow> u64 \<Rightarrow> u64 option \<Rightarrow> u64 option \<Rightarrow> u64 option" where
  "rolling_average left right total_weight (Some old) (Some new) =
     Some (saturating_add (saturating_mul old left) (saturating_mul new right)
             div max total_weight 1)"
| "rolling_average left right total_weight None v = v"
| "rolling_average left right total_weight (Some old) None = Some old"

definition fold_sample :: "telemetry_sample \<Rightarrow> telemetry_sample \<Rightarrow> telemetry_sample" where
  "fold_sample previous s =
     (let left = ucast (max (ts_sample_count previous) 1) :: u64;
          right = ucast (max (ts_sample_count s) 1) :: u64;
          total_weight = min (saturating_add left right) (2 ^ 32 - 1)
      in \<lparr>ts_observed_at_ms = max (ts_observed_at_ms previous) (ts_observed_at_ms s),
          ts_sample_count = (if total_weight \<le> 2 ^ 32 - 1 then ucast total_weight else - 1),
          ts_rolling_window_ms = max (ts_rolling_window_ms s) (ts_rolling_window_ms previous),
          ts_stale_after_ms = max (ts_stale_after_ms s) (ts_stale_after_ms previous),
          ts_latency_ms =
            rolling_average left right total_weight (ts_latency_ms previous) (ts_latency_ms s),
          ts_ttft_ms = rolling_average left right total_weight (ts_ttft_ms previous) (ts_ttft_ms s),
          ts_throughput_per_second =
            rolling_average left right total_weight (ts_throughput_per_second previous)
              (ts_throughput_per_second s)\<rparr>)"

definition within_window :: "telemetry_sample \<Rightarrow> telemetry_sample \<Rightarrow> bool" where
  "within_window previous s \<longleftrightarrow>
     saturating_sub (ts_observed_at_ms s) (ts_observed_at_ms previous)
       \<le> max (ts_rolling_window_ms s) 1"

text \<open>The end of \<open>record\<close>: evict the oldest binding from a full map, then insert.\<close>

definition telemetry_insert :: "binding_key \<Rightarrow> telemetry_sample \<Rightarrow> telemetry \<Rightarrow> telemetry" where
  "telemetry_insert b s vals =
     (let vals = (if length vals \<ge> max_routing_telemetry_bindings \<and> map_of vals b = None
                    then (case oldest_key ts_observed_at_ms vals of
                            Some old \<Rightarrow> map_remove old vals | None \<Rightarrow> vals)
                    else vals)
      in btree_insert b s vals)"

definition telemetry_record :: "binding_key \<Rightarrow> telemetry_sample \<Rightarrow> telemetry \<Rightarrow> telemetry" where
  "telemetry_record b s vals =
     (case map_of vals b of
        Some previous \<Rightarrow>
          if within_window previous s then btree_insert b (fold_sample previous s) vals
          else telemetry_insert b s vals
      | None \<Rightarrow> telemetry_insert b s vals)"

definition telemetry_get :: "telemetry \<Rightarrow> binding_key \<Rightarrow> telemetry_sample option" where
  "telemetry_get vals b = map_of vals b"

section \<open>Bounds\<close>

interpretation telemetry: bounded_store telemetry_insert ts_observed_at_ms max_routing_telemetry_bindings
  by unfold_locales
    (auto simp: telemetry_insert_def max_routing_telemetry_bindings_def Let_def map_of_eq_None_iff
      not_le)

definition telemetry_inv :: "telemetry \<Rightarrow> bool" where
  "telemetry_inv vals \<longleftrightarrow> btree_ok vals \<and> length vals \<le> max_routing_telemetry_bindings"

lemma telemetry_record_cases:
  "telemetry_record b s vals = telemetry_insert b s vals \<or>
     (\<exists>p. map_of vals b = Some p \<and> telemetry_record b s vals = btree_insert b (fold_sample p s) vals)"
  by (auto simp: telemetry_record_def split: option.split)

lemma telemetry_record_inv:
  assumes "telemetry_inv vals"
  shows "telemetry_inv (telemetry_record b s vals)"
proof -
  have ok: "btree_ok vals" and len: "length vals \<le> max_routing_telemetry_bindings"
    using assms by (simp_all add: telemetry_inv_def)
  consider "telemetry_record b s vals = telemetry_insert b s vals"
    | p where "map_of vals b = Some p"
        "telemetry_record b s vals = btree_insert b (fold_sample p s) vals"
    using telemetry_record_cases [of b s vals] by blast
  then show ?thesis
  proof cases
    case 1
    then show ?thesis
      using telemetry.ins_ok [OF ok] telemetry.ins_bounded [OF ok len] by (simp add: telemetry_inv_def)
  next
    case 2
    then have "b \<in> set (keys vals)" by (force dest: map_of_SomeD)
    then show ?thesis
      using 2 ok len btree.length_insert [OF ok, where k = b and v = "fold_sample p s"]
      by (simp add: telemetry_inv_def btree.ok_insert)
  qed
qed

interpretation telemetry_run: preserved_by "\<lambda>(b, s). telemetry_record b s" telemetry_inv
  by unfold_locales (auto simp: telemetry_record_inv)

lemma average_bounds:
  fixes a b l r :: nat
  assumes "0 < l + r"
  shows "min a b \<le> (a * l + b * r) div (l + r)" "(a * l + b * r) div (l + r) \<le> max a b"
proof -
  have "min a b * (l + r) \<le> a * l + b * r"
    by (simp add: distrib_left add_mono mult_le_mono1)
  then show "min a b \<le> (a * l + b * r) div (l + r)"
    using assms by (metis div_le_mono div_mult_self_is_m)
  have "a * l + b * r \<le> max a b * (l + r)"
    by (simp add: distrib_left add_mono mult_le_mono1)
  then show "(a * l + b * r) div (l + r) \<le> max a b"
    using assms by (metis div_le_mono div_mult_self_is_m)
qed

lemma unat_max_one: "unat (max w 1 :: u32) = max (unat w) 1"
  by (simp add: max_def word_le_nat_alt)

lemma capped_weight:
  fixes l r :: u64
  assumes "unat l + unat r < 2 ^ 32"
  shows "unat (saturating_add l r) = unat l + unat r"
    and "min (saturating_add l r) (2 ^ 32 - 1) = saturating_add l r"
proof -
  show t: "unat (saturating_add l r) = unat l + unat r" using assms by (simp add: saturation)
  then show "min (saturating_add l r) (2 ^ 32 - 1) = saturating_add l r"
    using assms by (simp add: min_def word_le_nat_alt)
qed

lemma rolling_average_exact:
  fixes l r :: u64 and old new :: u64
  assumes l: "1 \<le> unat l" and r: "1 \<le> unat r" and lr: "unat l + unat r < 2 ^ 32"
    and v: "unat old < 2 ^ 32" "unat new < 2 ^ 32"
  shows "\<exists>a. rolling_average l r (min (saturating_add l r) (2 ^ 32 - 1)) (Some old) (Some new) = Some a
    \<and> unat a = (unat old * unat l + unat new * unat r) div (unat l + unat r)"
proof -
  let ?t = "saturating_add l r"
  note t = capped_weight(1) [OF lr] and total_eq = capped_weight(2) [OF lr]
  have "1 \<le> ?t" using l t by (simp add: word_le_nat_alt)
  then have max_eq: "max ?t 1 = ?t" by (rule max_absorb1)
  have "unat old * unat l + unat new * unat r \<le> (2 ^ 32 - 1) * (unat l + unat r)"
    using v by (simp add: distrib_left add_mono mult_le_mono1)
  also have "\<dots> < 2 ^ 64" using lr by simp
  finally have small: "unat old * unat l + unat new * unat r < 2 ^ 64" .
  then have "unat (saturating_add (saturating_mul old l) (saturating_mul new r))
      = unat old * unat l + unat new * unat r" by (simp add: saturation)
  moreover have "rolling_average l r (min ?t (2 ^ 32 - 1)) (Some old) (Some new)
      = Some (saturating_add (saturating_mul old l) (saturating_mul new r) div ?t)"
    by (simp only: rolling_average.simps total_eq max_eq)
  ultimately show ?thesis by (simp add: unat_div t)
qed

section \<open>Properties\<close>

text \<open>Routing telemetry stays bounded: over every sequence of observations the table keeps at most
  4096 bindings, in key order and without duplicates, and the binding observed last is always
  present.\<close>

theorem telemetry_bounded:
  "let vals = fold (\<lambda>(b, s). telemetry_record b s) (obs @ [(b, s)]) [] in
   length vals \<le> 4096 \<and> btree_ok vals \<and> telemetry_get vals b \<noteq> None"
proof -
  let ?v = "fold (\<lambda>(b, s). telemetry_record b s) obs []"
  have inv: "telemetry_inv ?v"
    by (rule telemetry_run.run_inv) (simp add: telemetry_inv_def)
  then have ok: "btree_ok ?v" by (simp add: telemetry_inv_def)
  have "telemetry_get (telemetry_record b s ?v) b \<noteq> None"
    using telemetry_record_cases [of b s ?v] telemetry.ins_get [OF ok, of b s] ok
    by (auto simp: telemetry_get_def btree.get_insert)
  then show ?thesis
    using telemetry_record_inv [OF inv, of b s]
    by (simp add: Let_def telemetry_inv_def max_routing_telemetry_bindings_def)
qed

text \<open>A folded observation is a true weighted average: when neither the sample counts nor the
  values leave 32 bits, folding keeps the latency between the old and the new one, equal to their
  average weighted by sample counts and rounded down, and adds the counts.\<close>

theorem fold_sample_average:
  assumes counts: "max (unat (ts_sample_count p)) 1 + max (unat (ts_sample_count s)) 1 < 2 ^ 32"
    and vals: "ts_latency_ms p = Some old" "ts_latency_ms s = Some new"
      "unat old < 2 ^ 32" "unat new < 2 ^ 32"
  shows "\<exists>a. ts_latency_ms (fold_sample p s) = Some a
    \<and> min (unat old) (unat new) \<le> unat a \<and> unat a \<le> max (unat old) (unat new)
    \<and> unat a = (unat old * max (unat (ts_sample_count p)) 1 + unat new * max (unat (ts_sample_count s)) 1)
        div (max (unat (ts_sample_count p)) 1 + max (unat (ts_sample_count s)) 1)
    \<and> unat (ts_sample_count (fold_sample p s))
        = max (unat (ts_sample_count p)) 1 + max (unat (ts_sample_count s)) 1"
proof -
  define l r :: u64 where "l = ucast (max (ts_sample_count p) 1)" and "r = ucast (max (ts_sample_count s) 1)"
  have l: "unat l = max (unat (ts_sample_count p)) 1" and r: "unat r = max (unat (ts_sample_count s)) 1"
    by (simp_all add: l_def r_def unat_max_one)
  then have le: "1 \<le> unat l" "1 \<le> unat r" and lr: "unat l + unat r < 2 ^ 32" using counts by simp_all
  obtain a where a: "rolling_average l r (min (saturating_add l r) (2 ^ 32 - 1)) (Some old) (Some new)
      = Some a" "unat a = (unat old * unat l + unat new * unat r) div (unat l + unat r)"
    using rolling_average_exact [OF le lr vals(3,4)] by blast
  have "ts_latency_ms (fold_sample p s) = Some a"
    using a(1) by (simp only: fold_sample_def Let_def vals l_def r_def telemetry_sample.simps)
  moreover have "unat (ts_sample_count (fold_sample p s)) = unat l + unat r"
    unfolding fold_sample_def Let_def l_def [symmetric] r_def [symmetric] capped_weight(2) [OF lr]
    using lr by (simp add: word_le_nat_alt capped_weight(1) [OF lr] unsigned_ucast_eq take_bit_nat_eq_self)
  moreover have "min (unat old) (unat new) \<le> unat a \<and> unat a \<le> max (unat old) (unat new)"
    using average_bounds [of "unat l" "unat r" "unat old" "unat new"] le by (simp add: a(2))
  ultimately show ?thesis using a(2) unfolding l r by (intro exI [of _ a]) simp
qed

definition example_sample :: "u64 \<Rightarrow> u64 \<Rightarrow> telemetry_sample" where
  "example_sample t latency =
     \<lparr>ts_observed_at_ms = t, ts_sample_count = 1, ts_rolling_window_ms = 1000,
      ts_stale_after_ms = 1000, ts_latency_ms = Some latency, ts_ttft_ms = None,
      ts_throughput_per_second = None\<rparr>"

theorem fold_sample_average_witness:
  "\<exists>a. ts_latency_ms (fold_sample (example_sample 0 100) (example_sample 5 201)) = Some a
     \<and> unat a = 150"
  using fold_sample_average [of "example_sample 0 100" "example_sample 5 201" 100 201]
  by (auto simp: example_sample_def numeral_2_eq_2 [symmetric])

text \<open>
  Once the counts no longer fit in 32 bits the divisor is capped but the weights are not, so a fold
  of two full windows of the same latency reports twice that latency.
\<close>

lemma saturated_average_doubles:
  "ts_latency_ms (fold_sample ((example_sample 0 10)\<lparr>ts_sample_count := 4294967295\<rparr>)
     ((example_sample 5 10)\<lparr>ts_sample_count := 4294967295\<rparr>)) = Some 20"
  by (simp add: fold_sample_def example_sample_def Let_def saturating_add_def saturating_mul_def
      max_def min_def word_le_nat_alt)

end
