(* ===== verification/Quota_Table.thy ===== *)
theory Quota_Table
  imports Selection_Types
begin

text \<open>
  How the registry keeps quota windows (\<open>insert_quota_subject\<close>, \<open>insert_binding_quota\<close>,
  \<open>quota_precedence\<close> and the subject helpers at the end of \<open>pooler-policy/src/selection.rs\<close>): one
  window per subject or binding and unit, replaced only by a later observation, or by a stricter
  one of the same instant. The interface \<open>quota_table\<close> states what the two insertion routines
  promise; its lemmas show which observation survives a sequence of insertions.
\<close>

section \<open>Precedence\<close>

definition quota_state_priority :: "quota_snapshot \<Rightarrow> u8" where
  "quota_state_priority q =
     (if qs_state q = QuotaExhaustedState \<or> qs_remaining q = Some 0 then 2
      else if qs_state q = QuotaUnknown then 1 else 0)"

fun later_deadline :: "instant option \<Rightarrow> instant option \<Rightarrow> ordering" where
  "later_deadline None None = Equal"
| "later_deadline None (Some r) = Greater"
| "later_deadline (Some l) None = Less"
| "later_deadline (Some l) (Some r) = cmp l r"

fun lower_value :: "u64 option \<Rightarrow> u64 option \<Rightarrow> ordering" where
  "lower_value None None = Equal"
| "lower_value None (Some r) = Less"
| "lower_value (Some l) None = Greater"
| "lower_value (Some l) (Some r) = cmp r l"

definition quota_precedence :: "quota_snapshot \<Rightarrow> quota_snapshot \<Rightarrow> ordering" where
  "quota_precedence l r =
     then_with (then_with (then_with (cmp (quota_state_priority l) (quota_state_priority r))
       (later_deadline (qs_reset_at l) (qs_reset_at r)))
       (lower_value (qs_remaining l) (qs_remaining r)))
       (lower_value (qs_limit l) (qs_limit r))"

text \<open>The condition under which an occupied entry is overwritten.\<close>

definition quota_replaces :: "quota_snapshot \<Rightarrow> quota_snapshot \<Rightarrow> bool" where
  "quota_replaces snapshot current \<longleftrightarrow>
     qs_observed_at snapshot > qs_observed_at current
     \<or> (qs_observed_at snapshot = qs_observed_at current
        \<and> quota_precedence snapshot current = Greater)"

text \<open>The \<open>match\<close> on the map entry, shared by both insertion routines.\<close>

definition quota_entry_insert ::
  "'k::linorder \<Rightarrow> quota_snapshot \<Rightarrow> ('k \<times> quota_snapshot) list \<Rightarrow>
     bool \<times> ('k \<times> quota_snapshot) list" where
  "quota_entry_insert k snapshot m =
     (case map_of m k of
        None \<Rightarrow> (True, btree_insert k snapshot m)
      | Some current \<Rightarrow>
          if quota_replaces snapshot current then (True, btree_insert k snapshot m) else (False, m))"

section \<open>Subjects\<close>

fun quota_subject_of :: "registration \<Rightarrow> quota_scope \<Rightarrow> selection_error + quota_subject" where
  "quota_subject_of r QCredential = Inr (SubjCredential (cr_credential r))"
| "quota_subject_of r QCredentialModel = Inr (SubjCredentialModel (cr_credential r) (cr_model r))"
| "quota_subject_of r QProject =
     (case cr_quota_project r of
        None \<Rightarrow> Inl MissingQuotaProject
      | Some p \<Rightarrow> Inr (SubjProject (cr_provider r) p))"
| "quota_subject_of r QProjectModel =
     (case cr_quota_project r of
        None \<Rightarrow> Inl MissingQuotaProject
      | Some p \<Rightarrow> Inr (SubjProjectModel (cr_provider r) p (cr_model r)))"
| "quota_subject_of r QProvider = Inr (SubjProvider (cr_provider r))"
| "quota_subject_of r QProviderModel = Inr (SubjProviderModel (cr_provider r) (cr_model r))"

fun subject_matches :: "quota_subject \<Rightarrow> registration \<Rightarrow> bool" where
  "subject_matches (SubjCredential c) r \<longleftrightarrow> c = cr_credential r"
| "subject_matches (SubjCredentialModel c m) r \<longleftrightarrow> c = cr_credential r \<and> m = cr_model r"
| "subject_matches (SubjProject p k) r \<longleftrightarrow> p = cr_provider r \<and> cr_quota_project r = Some k"
| "subject_matches (SubjProjectModel p k m) r \<longleftrightarrow>
     p = cr_provider r \<and> cr_quota_project r = Some k \<and> m = cr_model r"
| "subject_matches (SubjProvider p) r \<longleftrightarrow> p = cr_provider r"
| "subject_matches (SubjProviderModel p m) r \<longleftrightarrow> p = cr_provider r \<and> m = cr_model r"

lemma quota_subject_of_matches:
  "quota_subject_of r sc = Inr s \<Longrightarrow> subject_matches s r \<and> subject_scope s = sc"
  by (cases "(r, sc)" rule: quota_subject_of.cases) (auto split: option.splits)

lemma quota_subject_of_missing:
  "quota_subject_of r sc = Inl e \<longleftrightarrow>
     e = MissingQuotaProject \<and> cr_quota_project r = None \<and> sc \<in> {QProject, QProjectModel}"
  by (cases sc) (auto split: option.splits)

section \<open>The order of observations\<close>

definition quota_order :: "quota_snapshot \<Rightarrow> quota_snapshot \<Rightarrow> ordering" where
  "quota_order l r = then_with (cmp (qs_observed_at l) (qs_observed_at r)) (quota_precedence l r)"

lemma quota_replaces_order: "quota_replaces l r \<longleftrightarrow> quota_order l r = Greater"
  by (auto simp: quota_replaces_def quota_order_def)

definition deadline_rank :: "instant option \<Rightarrow> nat \<times> int" where
  "deadline_rank d = (case d of None \<Rightarrow> (1, 0) | Some t \<Rightarrow> (0, t))"

definition value_rank :: "u64 option \<Rightarrow> nat \<times> int" where
  "value_rank v = (case v of None \<Rightarrow> (0, 0) | Some w \<Rightarrow> (1, - uint w))"

lemma later_deadline_rank: "later_deadline l r = cmp (deadline_rank l) (deadline_rank r)"
  by (cases "(l, r)" rule: later_deadline.cases) (auto simp: deadline_rank_def cmp_def)

lemma lower_value_rank: "lower_value l r = cmp (value_rank l) (value_rank r)"
  by (cases "(l, r)" rule: lower_value.cases)
    (auto simp: value_rank_def cmp_def word_less_def word_uint_eq_iff)

interpretation quota_age: total_comparator quota_order UNIV
  unfolding quota_order_def [abs_def] quota_precedence_def later_deadline_rank lower_value_rank
  by (intro total_comparator_then total_comparator_key)

section \<open>The interface of a quota table\<close>

locale quota_table =
  fixes ok :: "'m \<Rightarrow> bool" and put :: "'k \<Rightarrow> quota_snapshot \<Rightarrow> 'm \<Rightarrow> bool \<times> 'm"
    and window :: "'m \<Rightarrow> 'k \<Rightarrow> quota_unit \<Rightarrow> quota_snapshot option"
  assumes put_ok: "ok m \<Longrightarrow> ok (snd (put k q m))"
    and put_same: "ok m \<Longrightarrow> window (snd (put k q m)) k (qs_unit q) =
      (case window m k (qs_unit q) of
         None \<Rightarrow> Some q | Some c \<Rightarrow> Some (if quota_replaces q c then q else c))"
    and put_other: "ok m \<Longrightarrow> k' \<noteq> k \<or> u \<noteq> qs_unit q \<Longrightarrow> window (snd (put k q m)) k' u = window m k' u"
    and put_result: "ok m \<Longrightarrow> fst (put k q m) \<longleftrightarrow>
      (case window m k (qs_unit q) of None \<Rightarrow> True | Some c \<Rightarrow> quota_replaces q c)"
begin

definition put_all :: "('k \<times> quota_snapshot) list \<Rightarrow> 'm \<Rightarrow> 'm" where
  "put_all ps m = fold (\<lambda>(k, q) m. snd (put k q m)) ps m"

lemma put_all_ok: "ok m \<Longrightarrow> ok (put_all ps m)"
  unfolding put_all_def by (induction ps arbitrary: m) (auto simp: put_ok)

text \<open>The window kept for a key and unit is one of those offered, and none of them precedes it.\<close>

lemma put_all_newest:
  assumes "ok m" "\<And>c. window m k u = Some c \<Longrightarrow> qs_unit c = u"
  shows "case window (put_all ps m) k u of
      None \<Rightarrow> window m k u = None \<and> (\<forall>q. (k, q) \<in> set ps \<longrightarrow> qs_unit q \<noteq> u)
    | Some w \<Rightarrow> qs_unit w = u \<and> (window m k u = Some w \<or> (k, w) \<in> set ps)
        \<and> (\<forall>c. window m k u = Some c \<longrightarrow> quota_order c w \<noteq> Greater)
        \<and> (\<forall>q. (k, q) \<in> set ps \<longrightarrow> qs_unit q = u \<longrightarrow> quota_order q w \<noteq> Greater)"
  using assms
proof (induction ps arbitrary: m)
  case Nil
  then show ?case by (auto simp: put_all_def quota_age.c_refl split: option.split)
next
  case (Cons p ps)
  obtain k' q where p: "p = (k', q)" by (cases p)
  let ?m = "snd (put k' q m)"
  have ok: "ok ?m" using Cons.prems(1) by (rule put_ok)
  have run: "put_all ((k', q) # ps) m = put_all ps ?m" by (simp add: put_all_def)
  show ?case
  proof (cases "k' = k \<and> qs_unit q = u")
    case False
    then have "window ?m k u = window m k u" using put_other [OF Cons.prems(1)] by metis
    then show ?thesis using Cons.IH [OF ok] Cons.prems(2) False
      unfolding p run by (auto split: option.splits)
  next
    case True
    define c where "c = (case window m k u of
        None \<Rightarrow> q | Some d \<Rightarrow> if quota_replaces q d then q else d)"
    have c: "window ?m k u = Some c"
      using put_same [OF Cons.prems(1), of k' q] True by (simp add: c_def split: option.split)
    have c_cases: "c = q \<and> (\<forall>d. window m k u = Some d \<longrightarrow> quota_order q d = Greater)
        \<or> window m k u = Some c \<and> quota_order q c \<noteq> Greater"
      by (cases "window m k u") (simp_all add: c_def quota_replaces_order)
    have above: "quota_order d c \<noteq> Greater" if "window m k u = Some d \<or> d = q" for d
      using c_cases that quota_age.c_refl [of q] quota_age.c_refl [of c] quota_age.c_le_Greater [of q d]
      by auto
    have unit: "qs_unit c = u" using c_cases True Cons.prems(2) by blast
    obtain w where w: "window (put_all ps ?m) k u = Some w" "qs_unit w = u"
      "w = c \<or> (k, w) \<in> set ps" "quota_order c w \<noteq> Greater"
      "\<forall>q. (k, q) \<in> set ps \<longrightarrow> qs_unit q = u \<longrightarrow> quota_order q w \<noteq> Greater"
      using Cons.IH [OF ok] c unit by (cases "window (put_all ps ?m) k u") auto
    have "quota_order d w \<noteq> Greater" if "window m k u = Some d \<or> d = q" for d
      using above [OF that] w(4) quota_age.c_trans [of d c w] by blast
    then show ?thesis using w c_cases True unfolding p run by auto
  qed
qed

end

interpretation entry_table: quota_table
  "\<lambda>m. btree_ok m" "\<lambda>k q m. quota_entry_insert (k, qs_unit q) q m" "\<lambda>m k u. map_of m (k, u)"
  by unfold_locales
    (auto simp: quota_entry_insert_def btree.ok_insert btree.get_insert split: option.split)

end
