(* ===== verification/Model_Alias.thy ===== *)
theory Model_Alias
  imports Selection_Types
begin

text \<open>
  Public model aliases (\<open>resolve_alias\<close>, \<open>register_model_alias\<close> and \<open>resolve_model\<close> of
  \<open>pooler-policy/src/selection.rs\<close>). Aliases form chains; resolution follows a chain and gives
  up when it meets a model for the second time. The theorems read the table as a relation: a
  model resolves exactly when no cycle is reachable from it, and registration keeps the table
  free of cycles.
\<close>

type_synonym alias_table = "(model_id \<times> model_id) list"

section \<open>Operations\<close>

text \<open>The loop of \<open>resolve_alias\<close>; \<open>seen\<close> holds the models met so far.\<close>

function resolve_from :: "alias_table \<Rightarrow> model_id list \<Rightarrow> model_id \<Rightarrow> model_id option" where
  "resolve_from aliases seen current =
     (if current \<in> set seen then None
      else case map_of aliases current of
        None \<Rightarrow> Some current
      | Some succ \<Rightarrow> resolve_from aliases (current # seen) succ)"
  by pat_completeness auto

termination
proof (relation "measure (\<lambda>(aliases, seen, current). card (set (keys aliases) - set seen))")
  fix aliases :: alias_table and seen current succ
  assume a: "current \<notin> set seen" "map_of aliases current = Some succ"
  have "current \<in> set (keys aliases)" using map_of_SomeD [OF a(2)] by force
  then have "set (keys aliases) - set (current # seen) \<subset> set (keys aliases) - set seen"
    using a(1) by auto
  then show "((aliases, current # seen, succ), aliases, seen, current)
      \<in> measure (\<lambda>(aliases, seen, current). card (set (keys aliases) - set seen))"
    by (simp add: psubset_card_mono)
qed simp

declare resolve_from.simps [simp del]

definition resolve_alias :: "alias_table \<Rightarrow> model_id \<Rightarrow> model_id option" where
  "resolve_alias aliases model = resolve_from aliases [] model"

text \<open>Insert, try to resolve the new alias, and undo the insertion when that fails.\<close>

definition register_alias ::
  "model_id \<Rightarrow> model_id \<Rightarrow> alias_table \<Rightarrow> (selection_error + unit) \<times> alias_table" where
  "register_alias alias resolved aliases =
     (let previous = map_of aliases alias;
          inserted = btree_insert alias resolved aliases in
      if resolve_alias inserted alias = None
      then (Inl ModelAliasCycle,
            case previous of
              Some p \<Rightarrow> btree_insert alias p inserted
            | None \<Rightarrow> map_remove alias inserted)
      else (Inr (), inserted))"

definition resolve_model :: "alias_table \<Rightarrow> model_id \<Rightarrow> model_id" where
  "resolve_model aliases model =
     (case resolve_alias aliases model of Some r \<Rightarrow> r | None \<Rightarrow> model)"

section \<open>Chains and cycles\<close>

definition alias_rel :: "alias_table \<Rightarrow> (model_id \<times> model_id) set" where
  "alias_rel aliases = {(m, n). map_of aliases m = Some n}"

definition alias_inv :: "alias_table \<Rightarrow> bool" where
  "alias_inv aliases \<longleftrightarrow> btree_ok aliases \<and> acyclic (alias_rel aliases)"

lemma alias_rel_single_valued: "single_valued (alias_rel aliases)"
  by (auto simp: alias_rel_def single_valued_def)

lemma resolve_from_Some:
  "resolve_from aliases seen m = Some r \<Longrightarrow> (m, r) \<in> (alias_rel aliases)\<^sup>* \<and> map_of aliases r = None"
proof (induction aliases seen m rule: resolve_from.induct)
  case (1 aliases seen current)
  then show ?case
    by (subst (asm) (2) resolve_from.simps)
      (auto simp: alias_rel_def split: if_splits option.splits intro: converse_rtrancl_into_rtrancl)
qed

lemma resolve_from_None:
  "resolve_from aliases seen m = None \<Longrightarrow> \<forall>s \<in> set seen. (s, m) \<in> (alias_rel aliases)\<^sup>+ \<Longrightarrow>
     \<exists>x. (m, x) \<in> (alias_rel aliases)\<^sup>* \<and> (x, x) \<in> (alias_rel aliases)\<^sup>+"
proof (induction aliases seen m rule: resolve_from.induct)
  case (1 aliases seen current)
  show ?case
  proof (cases "current \<in> set seen")
    case True
    then show ?thesis using "1.prems"(2) by blast
  next
    case False
    then obtain succ where s: "map_of aliases current = Some succ"
      "resolve_from aliases (current # seen) succ = None"
      using "1.prems"(1) by (subst (asm) resolve_from.simps) (auto split: option.splits)
    have step: "(current, succ) \<in> alias_rel aliases" using s(1) by (simp add: alias_rel_def)
    have "\<forall>s \<in> set (current # seen). (s, succ) \<in> (alias_rel aliases)\<^sup>+"
      using step "1.prems"(2) by (auto intro: trancl_into_trancl)
    then show ?thesis
      using "1.IH" [OF False s] step by (blast intro: converse_rtrancl_into_rtrancl)
  qed
qed

text \<open>In a table every model has one successor, so a model on a cycle never leaves it.\<close>

lemma cycle_closed:
  assumes "(x, x) \<in> (alias_rel aliases)\<^sup>+" "(x, y) \<in> (alias_rel aliases)\<^sup>*"
  shows "(y, y) \<in> (alias_rel aliases)\<^sup>+"
  using assms(2)
proof (induction rule: rtrancl_induct)
  case (step y z)
  from step.IH obtain w where w: "(y, w) \<in> alias_rel aliases" "(w, y) \<in> (alias_rel aliases)\<^sup>*"
    by (meson tranclD)
  then have "w = z" using step.hyps(2) alias_rel_single_valued by (meson single_valuedD)
  then show ?case using w by (meson rtrancl_into_trancl1)
qed (use assms(1) in simp)

lemma resolves_iff_no_cycle:
  "resolve_alias aliases m \<noteq> None \<longleftrightarrow>
     \<not> (\<exists>x. (m, x) \<in> (alias_rel aliases)\<^sup>* \<and> (x, x) \<in> (alias_rel aliases)\<^sup>+)"
proof
  assume "resolve_alias aliases m \<noteq> None"
  then obtain r where r: "(m, r) \<in> (alias_rel aliases)\<^sup>*" "map_of aliases r = None"
    using resolve_from_Some unfolding resolve_alias_def by blast
  have "r \<notin> Domain (alias_rel aliases)" using r(2) by (auto simp: alias_rel_def)
  moreover have "(r, r) \<in> (alias_rel aliases)\<^sup>+"
    if "(m, x) \<in> (alias_rel aliases)\<^sup>*" "(x, x) \<in> (alias_rel aliases)\<^sup>+" for x
  proof -
    have "(x, r) \<in> (alias_rel aliases)\<^sup>* \<or> (r, x) \<in> (alias_rel aliases)\<^sup>*"
      using single_valued_confluent [OF alias_rel_single_valued that(1) r(1)] .
    then show ?thesis
      using cycle_closed that(2) calculation by (metis Domain.DomainI converse_rtranclE)
  qed
  ultimately show "\<not> (\<exists>x. (m, x) \<in> (alias_rel aliases)\<^sup>* \<and> (x, x) \<in> (alias_rel aliases)\<^sup>+)"
    by (meson Domain.DomainI tranclD)
next
  assume "\<not> (\<exists>x. (m, x) \<in> (alias_rel aliases)\<^sup>* \<and> (x, x) \<in> (alias_rel aliases)\<^sup>+)"
  then show "resolve_alias aliases m \<noteq> None"
    using resolve_from_None [of aliases "[]" m] by (auto simp: resolve_alias_def)
qed

lemma acyclic_resolves: "acyclic (alias_rel aliases) \<Longrightarrow> resolve_alias aliases m \<noteq> None"
  by (simp only: resolves_iff_no_cycle) (simp add: acyclic_def)

section \<open>Registration\<close>

text \<open>A cycle in the table with a new entry runs through that entry.\<close>

lemma new_cycle_through_key:
  assumes ok: "btree_ok aliases" and ac: "acyclic (alias_rel aliases)"
    and x: "(x, x) \<in> (alias_rel (btree_insert a r aliases))\<^sup>+"
  shows "(x, a) \<in> (alias_rel (btree_insert a r aliases))\<^sup>*"
proof (rule ccontr)
  let ?n = "alias_rel (btree_insert a r aliases)"
  assume not: "(x, a) \<notin> ?n\<^sup>*"
  have "(x, y) \<in> (alias_rel aliases)\<^sup>+" if "(x, y) \<in> ?n\<^sup>+" for y
    using that
  proof (induction rule: trancl_induct)
    case (base y)
    then have "x \<noteq> a" using not by blast
    then show ?case using base ok by (auto simp: alias_rel_def btree.get_insert)
  next
    case (step y z)
    then have "y \<noteq> a" using not by (meson trancl_into_rtrancl)
    then have "(y, z) \<in> alias_rel aliases" using step.hyps(2) ok by (auto simp: alias_rel_def btree.get_insert)
    then show ?case using step.IH by (rule trancl_into_trancl [rotated])
  qed
  then show False using x ac by (auto simp: acyclic_def)
qed

lemma register_alias_rejected:
  assumes "btree_ok aliases" "register_alias name resolved aliases = (Inl e, aliases')"
  shows "e = ModelAliasCycle \<and> aliases' = aliases"
proof -
  have "map_of aliases' = map_of aliases" "btree_ok aliases'"
    using assms by (auto simp: register_alias_def Let_def btree.get_insert btree.ok_insert
        btree.ok_remove map_of_remove fun_eq_iff split: option.splits if_splits)
  then have "aliases' = aliases" using assms(1) by (intro btree_ext) simp_all
  then show ?thesis using assms(2) by (auto simp: register_alias_def Let_def split: if_splits)
qed

lemma register_alias_accepted:
  assumes "register_alias name resolved aliases = (Inr (), aliases')"
  shows "aliases' = btree_insert name resolved aliases" "resolve_alias aliases' name \<noteq> None"
  using assms by (auto simp: register_alias_def Let_def split: if_splits)

lemma register_alias_inv:
  assumes "alias_inv aliases"
  shows "alias_inv (snd (register_alias name resolved aliases))"
proof (cases "register_alias name resolved aliases")
  case (Pair r aliases')
  have ok: "btree_ok aliases" and ac: "acyclic (alias_rel aliases)"
    using assms by (simp_all add: alias_inv_def)
  show ?thesis
  proof (cases r)
    case (Inl e)
    then show ?thesis using register_alias_rejected [OF ok] Pair assms by auto
  next
    case (Inr u)
    note acc = register_alias_accepted [of name resolved aliases aliases']
    have new: "aliases' = btree_insert name resolved aliases" "resolve_alias aliases' name \<noteq> None"
      using acc Pair Inr by simp_all
    have "(x, x) \<notin> (alias_rel aliases')\<^sup>+" for x
      using new_cycle_through_key [OF ok ac] new cycle_closed resolves_iff_no_cycle by blast
    then show ?thesis using Pair new(1) ok by (simp add: alias_inv_def acyclic_def btree.ok_insert)
  qed
qed

interpretation alias_run: preserved_by "\<lambda>(a, r) t. snd (register_alias a r t)" alias_inv
  by unfold_locales (auto intro: register_alias_inv)

lemma alias_inv_Nil [simp]: "alias_inv []"
  by (simp add: alias_inv_def alias_rel_def acyclic_def)

section \<open>Properties\<close>

text \<open>C35. Alias resolution always ends, and its answer is exact: it returns a model \<open>r\<close> exactly when
  \<open>r\<close> is the end of the name chain of the requested model, and it gives up exactly when that
  chain runs into a cycle.\<close>

theorem resolve_alias_exact:
  "(resolve_alias aliases m = Some r \<longleftrightarrow>
      (m, r) \<in> (alias_rel aliases)\<^sup>* \<and> map_of aliases r = None)
   \<and> (resolve_alias aliases m = None \<longleftrightarrow>
      (\<exists>x. (m, x) \<in> (alias_rel aliases)\<^sup>* \<and> (x, x) \<in> (alias_rel aliases)\<^sup>+))"
proof -
  have "resolve_alias aliases m = Some r" if r: "(m, r) \<in> (alias_rel aliases)\<^sup>*" "map_of aliases r = None"
  proof -
    have end_r: "(r, y) \<in> (alias_rel aliases)\<^sup>* \<Longrightarrow> y = r" for y
      using r(2) by (auto simp: alias_rel_def elim: converse_rtranclE)
    have "\<not> (\<exists>x. (m, x) \<in> (alias_rel aliases)\<^sup>* \<and> (x, x) \<in> (alias_rel aliases)\<^sup>+)"
    proof
      assume "\<exists>x. (m, x) \<in> (alias_rel aliases)\<^sup>* \<and> (x, x) \<in> (alias_rel aliases)\<^sup>+"
      then obtain x where x: "(m, x) \<in> (alias_rel aliases)\<^sup>*" "(x, x) \<in> (alias_rel aliases)\<^sup>+" by blast
      then have "(r, r) \<in> (alias_rel aliases)\<^sup>+"
        using single_valued_confluent [OF alias_rel_single_valued x(1) r(1)] end_r cycle_closed by blast
      then show False using r(2) by (auto simp: alias_rel_def dest: tranclD)
    qed
    then obtain r' where r': "resolve_alias aliases m = Some r'" using resolves_iff_no_cycle by blast
    then have "(m, r') \<in> (alias_rel aliases)\<^sup>*" "map_of aliases r' = None"
      using resolve_from_Some unfolding resolve_alias_def by blast+
    moreover have "(r', y) \<in> (alias_rel aliases)\<^sup>* \<Longrightarrow> y = r'" for y
      using calculation(2) by (auto simp: alias_rel_def elim: converse_rtranclE)
    ultimately show ?thesis
      using single_valued_confluent [OF alias_rel_single_valued _ r(1)] end_r r' by blast
  qed
  then show ?thesis
    using resolve_from_Some resolves_iff_no_cycle unfolding resolve_alias_def by blast
qed

text \<open>C34. The alias table never contains a cycle: whatever aliases are registered, in whatever order,
  every model resolves to a model that is not an alias itself, and a registration that would close
  a cycle is refused and leaves the table exactly as it was.\<close>

theorem alias_table_acyclic:
  assumes "aliases = fold (\<lambda>(a, r) t. snd (register_alias a r t)) regs []"
  shows "acyclic (alias_rel aliases)
    \<and> (\<exists>r. resolve_alias aliases m = Some r \<and> resolve_model aliases m = r \<and> map_of aliases r = None)
    \<and> (\<forall>name target e. fst (register_alias name target aliases) = Inl e \<longrightarrow>
         e = ModelAliasCycle \<and> snd (register_alias name target aliases) = aliases)
    \<and> (\<forall>name target. fst (register_alias name target aliases) = Inr () \<longrightarrow>
         map_of (snd (register_alias name target aliases)) = (map_of aliases)(name \<mapsto> target))"
proof -
  have inv: "btree_ok aliases" "acyclic (alias_rel aliases)"
    using alias_run.run_inv [OF alias_inv_Nil, of regs] assms by (auto simp: alias_inv_def)
  obtain r where r: "resolve_alias aliases m = Some r" using acyclic_resolves [OF inv(2)] by blast
  then have "map_of aliases r = None" using resolve_from_Some unfolding resolve_alias_def by blast
  moreover have "e = ModelAliasCycle \<and> snd (register_alias name target aliases) = aliases"
    if "fst (register_alias name target aliases) = Inl e" for name target e
    using register_alias_rejected [OF inv(1)] that by (metis prod.collapse)
  moreover have "map_of (snd (register_alias name target aliases)) = (map_of aliases)(name \<mapsto> target)"
    if "fst (register_alias name target aliases) = Inr ()" for name target
    using register_alias_accepted(1) [of name target aliases] that btree.get_insert [OF inv(1)]
    by (metis prod.collapse)
  ultimately show ?thesis using inv(2) r by (simp add: resolve_model_def)
qed

theorem alias_table_acyclic_witness:
  "let aliases = fold (\<lambda>(a, r) t. snd (register_alias a r t))
       [(''fast'', ''mini''), (''mini'', ''mini-2''), (''mini-2'', ''fast'')] [] in
   resolve_model aliases ''fast'' = ''mini-2''
   \<and> (\<exists>r. resolve_alias aliases ''fast'' = Some r \<and> map_of aliases r = None)
   \<and> fst (register_alias ''mini-2'' ''fast'' aliases) = Inl ModelAliasCycle"
proof -
  let ?t = "fold (\<lambda>(a, r) t. snd (register_alias a r t))
       [(''fast'', ''mini''), (''mini'', ''mini-2''), (''mini-2'', ''fast'')] []"
  have "resolve_model ?t ''fast'' = ''mini-2''" "fst (register_alias ''mini-2'' ''fast'' ?t) = Inl ModelAliasCycle"
    by code_simp+
  then show ?thesis using alias_table_acyclic [OF refl, of _ "''fast''"] unfolding Let_def by blast
qed

end
