(* ===== verification/Registry.thy ===== *)
theory Registry
  imports Quota_Table Model_Alias Bounded_Store
begin

text \<open>
  The credential registry (\<open>CredentialRegistry\<close> of \<open>pooler-policy/src/selection.rs\<close>): registered
  bindings with their enablement, in-flight counts and declaration order, model aliases, strategy
  cursors, session affinity and quota windows, and beside them the health registry. Every
  operation but selection is here. A lock that is never poisoned always opens, so the
  \<open>LockPoisoned\<close> results do not occur; a clock reading is an argument. The invariant says that
  the parts agree with each other and that nothing refers to a binding that is not registered.
\<close>

section \<open>State\<close>

record registry_entry =
  re_registration :: registration
  re_enabled :: bool
  re_in_flight :: u32
  re_order :: u64

record affinity_binding =
  ab_binding :: binding_key
  ab_provider :: provider_id
  ab_model :: model_id
  ab_last_used_at :: instant
  ab_expires_at :: instant

definition affinity_expired_at :: "affinity_binding \<Rightarrow> instant \<Rightarrow> bool" where
  "affinity_expired_at a now \<longleftrightarrow> now \<ge> ab_expires_at a"

type_synonym cursor_key = "model_id \<times> string option \<times> binding_key list"
type_synonym smooth_key = "model_id \<times> string option"

record registry_state =
  rs_entries :: "(binding_key \<times> registry_entry) list"
  rs_aliases :: alias_table
  rs_next_order :: u64
  rs_round_robin :: "(cursor_key \<times> nat) list"
  rs_smooth_current :: "(smooth_key \<times> (binding_key \<times> int) list) list"
  rs_affinity :: "(affinity_key \<times> affinity_binding) list"
  rs_quotas :: "((quota_subject \<times> quota_unit) \<times> quota_snapshot) list"
  rs_binding_quotas :: "((binding_key \<times> quota_unit) \<times> quota_snapshot) list"

definition registry_state_default :: registry_state where
  "registry_state_default =
     \<lparr>rs_entries = [], rs_aliases = [], rs_next_order = 0, rs_round_robin = [],
      rs_smooth_current = [], rs_affinity = [], rs_quotas = [], rs_binding_quotas = []\<rparr>"

text \<open>\<open>RegistryInner\<close> is shared through an \<open>Arc\<close>; \<open>rg_identity\<close> is what \<open>Arc::ptr_eq\<close> compares.\<close>

record credential_registry =
  rg_identity :: nat
  rg_state :: registry_state
  rg_health :: health_registry

definition registry_new :: "nat \<Rightarrow> credential_registry" where
  "registry_new i = \<lparr>rg_identity = i, rg_state = registry_state_default, rg_health = health_new\<rparr>"

section \<open>Reservations\<close>

record selection_reservation =
  rv_binding :: binding_key
  rv_credential :: credential_id
  rv_registration_order :: u64
  rv_owner :: nat
  rv_released :: bool

record selection_lease =
  sl_registration :: registration
  sl_explanation :: selection_explanation
  sl_reservation :: "selection_reservation option"

definition release_from ::
  "selection_reservation \<Rightarrow> registry_state \<Rightarrow> selection_reservation \<times> registry_state" where
  "release_from rv st =
     (if rv_released rv then (rv, st)
      else (rv\<lparr>rv_released := True\<rparr>,
            st\<lparr>rs_entries := map_modify (rv_binding rv)
                 (\<lambda>e. if re_order e = rv_registration_order rv
                      then e\<lparr>re_in_flight := saturating_sub (re_in_flight e) 1\<rparr> else e)
                 (rs_entries st)\<rparr>))"

definition drop_reservation :: "selection_reservation \<Rightarrow> registry_state \<Rightarrow> registry_state" where
  "drop_reservation rv st = (if rv_released rv then st else snd (release_from rv st))"

text \<open>\<open>into_parts\<close> panics on a lease without a reservation.\<close>

definition into_parts ::
  "selection_lease \<Rightarrow> (registration \<times> selection_explanation \<times> selection_reservation) option" where
  "into_parts l =
     (case sl_reservation l of
        None \<Rightarrow> None
      | Some rv \<Rightarrow> Some (sl_registration l, sl_explanation l, rv))"

section \<open>Helpers over the state\<close>

definition sorted_entries :: "registry_state \<Rightarrow> registry_entry list" where
  "sorted_entries st =
     sort_key (\<lambda>e. (re_order e, cr_binding (re_registration e))) (map snd (rs_entries st))"

definition max_affinity_bindings :: nat where "max_affinity_bindings = 4096"

definition affinity_insert ::
  "affinity_key \<Rightarrow> affinity_binding \<Rightarrow> (affinity_key \<times> affinity_binding) list \<Rightarrow>
     affinity_key option \<times> (affinity_key \<times> affinity_binding) list" where
  "affinity_insert k a m =
     (if map_of m k = None \<and> length m \<ge> max_affinity_bindings
      then (case oldest_key ab_last_used_at m of
              Some old \<Rightarrow> (Some old, btree_insert k a (map_remove old m))
            | None \<Rightarrow> (None, btree_insert k a m))
      else (None, btree_insert k a m))"

definition insert_bounded_affinity ::
  "affinity_key \<Rightarrow> affinity_binding \<Rightarrow> registry_state \<Rightarrow> affinity_key option \<times> registry_state" where
  "insert_bounded_affinity k a st =
     (let (evicted, m) = affinity_insert k a (rs_affinity st) in
      (evicted, st\<lparr>rs_affinity := m\<rparr>))"

definition purge_expired_affinity :: "instant \<Rightarrow> registry_state \<Rightarrow> registry_state" where
  "purge_expired_affinity now st =
     st\<lparr>rs_affinity := filter (\<lambda>e. \<not> affinity_expired_at (snd e) now) (rs_affinity st)\<rparr>"

definition insert_quota_subject ::
  "quota_subject \<Rightarrow> quota_snapshot \<Rightarrow> registry_state \<Rightarrow> bool \<times> registry_state" where
  "insert_quota_subject subject q st =
     (let (changed, m) = quota_entry_insert (subject, qs_unit q) q (rs_quotas st) in
      (changed, st\<lparr>rs_quotas := m\<rparr>))"

definition insert_binding_quota ::
  "binding_key \<Rightarrow> quota_snapshot \<Rightarrow> registry_state \<Rightarrow> bool \<times> registry_state" where
  "insert_binding_quota b q st =
     (let (changed, m) = quota_entry_insert (b, qs_unit q) q (rs_binding_quotas st) in
      (changed, st\<lparr>rs_binding_quotas := m\<rparr>))"

definition insert_quota ::
  "registration \<Rightarrow> quota_snapshot \<Rightarrow> registry_state \<Rightarrow> (selection_error + bool) \<times> registry_state" where
  "insert_quota r q st =
     (case quota_subject_of r (qs_scope q) of
        Inl e \<Rightarrow> (Inl e, st)
      | Inr subject \<Rightarrow>
          (let (changed, st') = insert_quota_subject subject q st in (Inr changed, st')))"

definition insert_quota_for_binding ::
  "binding_key \<Rightarrow> registration \<Rightarrow> quota_snapshot \<Rightarrow> registry_state \<Rightarrow>
     (selection_error + bool) \<times> registry_state" where
  "insert_quota_for_binding b r q st =
     (if qs_scope q \<in> {QCredential, QCredentialModel}
      then (let (changed, st') = insert_binding_quota b q st in (Inr changed, st'))
      else insert_quota r q st)"

definition subject_is_registered :: "registry_state \<Rightarrow> quota_subject \<Rightarrow> bool" where
  "subject_is_registered st subject \<longleftrightarrow>
     list_ex (\<lambda>e. subject_matches subject (re_registration (snd e))) (rs_entries st)"

definition persisted_candidate ::
  "(string \<Rightarrow> string) \<Rightarrow> registry_state \<Rightarrow> quota_persistence_identity \<Rightarrow> quota_subject option" where
  "persisted_candidate sha256 st identity =
     (case identity of
        IdCredential k \<Rightarrow>
          map_option (\<lambda>e. SubjCredential (cr_credential (re_registration (snd e))))
            (find (\<lambda>e. credential_key_matches sha256 k (cr_credential (re_registration (snd e))))
              (rs_entries st))
      | IdCredentialModel k m \<Rightarrow>
          map_option (\<lambda>e. SubjCredentialModel (cr_credential (re_registration (snd e))) m)
            (find (\<lambda>e. credential_key_matches sha256 k (cr_credential (re_registration (snd e)))
                       \<and> m = cr_model (re_registration (snd e)))
              (rs_entries st))
      | IdProject p k \<Rightarrow> Some (SubjProject p k)
      | IdProjectModel p k m \<Rightarrow> Some (SubjProjectModel p k m)
      | IdProvider p \<Rightarrow> Some (SubjProvider p)
      | IdProviderModel p m \<Rightarrow> Some (SubjProviderModel p m))"

definition persisted_subject ::
  "(string \<Rightarrow> string) \<Rightarrow> registry_state \<Rightarrow> quota_persistence_identity \<Rightarrow> quota_subject option" where
  "persisted_subject sha256 st identity =
     (case persisted_candidate sha256 st identity of
        None \<Rightarrow> None
      | Some subject \<Rightarrow> if subject_is_registered st subject then Some subject else None)"

definition prune_orphan_quotas :: "registry_state \<Rightarrow> registry_state" where
  "prune_orphan_quotas st =
     st\<lparr>rs_quotas := filter (\<lambda>e. subject_is_registered st (fst (fst e))) (rs_quotas st),
        rs_binding_quotas :=
          filter (\<lambda>e. fst (fst e) \<in> set (keys (rs_entries st))) (rs_binding_quotas st)\<rparr>"

definition recover_quotas :: "instant \<Rightarrow> registry_state \<Rightarrow> registry_state" where
  "recover_quotas now st =
     st\<lparr>rs_quotas := filter (\<lambda>e. \<not> qs_expired_at (snd e) now) (rs_quotas st),
        rs_binding_quotas := filter (\<lambda>e. \<not> qs_expired_at (snd e) now) (rs_binding_quotas st)\<rparr>"

section \<open>Registration\<close>

definition register :: "registration \<Rightarrow> registry_state \<Rightarrow> registry_state" where
  "register r st =
     (let b = cr_binding r;
          existing = map_of (rs_entries st) b;
          order = (case existing of Some e \<Rightarrow> re_order e | None \<Rightarrow> rs_next_order st);
          next_order = (case existing of
                          Some e \<Rightarrow> rs_next_order st
                        | None \<Rightarrow> saturating_add (rs_next_order st) 1);
          enabled = (case existing of Some e \<Rightarrow> re_enabled e | None \<Rightarrow> True);
          in_flight = (case existing of Some e \<Rightarrow> re_in_flight e | None \<Rightarrow> 0)
      in prune_orphan_quotas
           (st\<lparr>rs_next_order := next_order,
               rs_entries := btree_insert b
                 \<lparr>re_registration = r, re_enabled = enabled, re_in_flight = in_flight, re_order = order\<rparr>
                 (rs_entries st)\<rparr>))"

text \<open>The state change shared by \<open>unregister\<close> and \<open>unregister_binding\<close>, for a list of bindings.\<close>

definition forget_bindings :: "binding_key list \<Rightarrow> registry_state \<Rightarrow> registry_state" where
  "forget_bindings bs st =
     prune_orphan_quotas
       (st\<lparr>rs_entries := filter (\<lambda>e. fst e \<notin> set bs) (rs_entries st),
           rs_binding_quotas := filter (\<lambda>e. fst (fst e) \<notin> set bs) (rs_binding_quotas st),
           rs_affinity := filter (\<lambda>e. ab_binding (snd e) \<notin> set bs) (rs_affinity st),
           rs_smooth_current :=
             map (\<lambda>e. (fst e, filter (\<lambda>c. fst c \<notin> set bs) (snd e))) (rs_smooth_current st),
           rs_round_robin :=
             filter (\<lambda>e. \<not> list_ex (\<lambda>b. b \<in> set (snd (snd (fst e)))) bs) (rs_round_robin st)\<rparr>)"

definition unregister :: "credential_id \<Rightarrow> credential_registry \<Rightarrow> bool \<times> credential_registry" where
  "unregister c rg =
     (let bs = filter (\<lambda>b. bk_account b = c) (keys (rs_entries (rg_state rg))) in
      if bs = [] then (False, rg)
      else (True, rg\<lparr>rg_state := forget_bindings bs (rg_state rg),
                     rg_health := fold remove_binding bs (rg_health rg)\<rparr>))"

definition unregister_binding :: "binding_key \<Rightarrow> credential_registry \<Rightarrow> bool \<times> credential_registry" where
  "unregister_binding b rg =
     (if map_of (rs_entries (rg_state rg)) b = None then (False, rg)
      else (True, rg\<lparr>rg_state := forget_bindings [b] (rg_state rg),
                     rg_health := remove_binding b (rg_health rg)\<rparr>))"

definition registrations :: "registry_state \<Rightarrow> registration list" where
  "registrations st = map re_registration (sorted_entries st)"

definition register_model_alias ::
  "model_id \<Rightarrow> model_id \<Rightarrow> registry_state \<Rightarrow> (selection_error + unit) \<times> registry_state" where
  "register_model_alias a resolved st =
     (let (res, t) = register_alias a resolved (rs_aliases st) in (res, st\<lparr>rs_aliases := t\<rparr>))"

section \<open>Enablement\<close>

definition set_enabled :: "credential_id \<Rightarrow> bool \<Rightarrow> registry_state \<Rightarrow> bool \<times> registry_state" where
  "set_enabled c enabled st =
     (list_ex (\<lambda>e. cr_credential (re_registration (snd e)) = c) (rs_entries st),
      st\<lparr>rs_entries :=
           map (\<lambda>e. (fst e, if cr_credential (re_registration (snd e)) = c
                            then (snd e)\<lparr>re_enabled := enabled\<rparr> else snd e)) (rs_entries st)\<rparr>)"

fun set_credentials_enabled ::
  "(credential_id \<times> bool) list \<Rightarrow> credential_registry \<Rightarrow> bool \<times> credential_registry" where
  "set_credentials_enabled [] rg = (False, rg)"
| "set_credentials_enabled ((c, enabled) # changes) rg =
     (let (changed, st) = set_enabled c enabled (rg_state rg);
          health = (if enabled then enable_credential c (rg_health rg)
                    else disable_credential c (rg_health rg));
          (rest, rg') = set_credentials_enabled changes (rg\<lparr>rg_state := st, rg_health := health\<rparr>)
      in (changed \<or> rest, rg'))"

definition set_binding_enabled :: "binding_key \<Rightarrow> bool \<Rightarrow> registry_state \<Rightarrow> bool \<times> registry_state" where
  "set_binding_enabled b enabled st =
     (if map_of (rs_entries st) b = None then (False, st)
      else (True, st\<lparr>rs_entries := map_modify b (\<lambda>e. e\<lparr>re_enabled := enabled\<rparr>) (rs_entries st)\<rparr>))"

definition registry_disable :: "credential_id \<Rightarrow> credential_registry \<Rightarrow> bool \<times> credential_registry" where
  "registry_disable c rg =
     (let (changed, st) = set_enabled c False (rg_state rg) in
      (changed, rg\<lparr>rg_state := st, rg_health := disable_credential c (rg_health rg)\<rparr>))"

definition registry_disable_binding :: "binding_key \<Rightarrow> credential_registry \<Rightarrow> bool \<times> credential_registry" where
  "registry_disable_binding b rg =
     (let (changed, st) = set_binding_enabled b False (rg_state rg) in
      (changed, rg\<lparr>rg_state := st, rg_health := disable_binding b (rg_health rg)\<rparr>))"

definition registry_enable :: "credential_id \<Rightarrow> credential_registry \<Rightarrow> bool \<times> credential_registry" where
  "registry_enable c rg =
     (let (changed, st) = set_enabled c True (rg_state rg) in
      (changed, rg\<lparr>rg_state := st, rg_health := enable_credential c (rg_health rg)\<rparr>))"

definition registry_enable_binding :: "binding_key \<Rightarrow> credential_registry \<Rightarrow> bool \<times> credential_registry" where
  "registry_enable_binding b rg =
     (let (changed, st) = set_binding_enabled b True (rg_state rg) in
      (changed, rg\<lparr>rg_state := st, rg_health := enable_binding b (rg_health rg)\<rparr>))"

section \<open>Quota windows\<close>

text \<open>The loop of \<open>set_quota_snapshot\<close>: an error ends it and keeps what was inserted before.\<close>

fun insert_quota_each ::
  "(binding_key \<times> registration) list \<Rightarrow> quota_snapshot \<Rightarrow> bool \<Rightarrow> registry_state \<Rightarrow>
     (selection_error + bool) \<times> registry_state" where
  "insert_quota_each [] q changed st = (Inr changed, st)"
| "insert_quota_each ((b, r) # rest) q changed st =
     (case insert_quota_for_binding b r q st of
        (Inl e, st') \<Rightarrow> (Inl e, st')
      | (Inr c, st') \<Rightarrow> insert_quota_each rest q (changed \<or> c) st')"

definition credential_registrations ::
  "credential_id \<Rightarrow> registry_state \<Rightarrow> (binding_key \<times> registration) list" where
  "credential_registrations c st =
     map (\<lambda>e. (cr_binding (re_registration (snd e)), re_registration (snd e)))
       (filter (\<lambda>e. cr_credential (re_registration (snd e)) = c) (rs_entries st))"

definition set_quota_snapshot ::
  "credential_id \<Rightarrow> quota_snapshot \<Rightarrow> registry_state \<Rightarrow> (selection_error + bool) \<times> registry_state" where
  "set_quota_snapshot c q st =
     (let rs = credential_registrations c st in
      if rs = [] then (Inr False, st) else insert_quota_each rs q False st)"

definition set_binding_quota_snapshot ::
  "binding_key \<Rightarrow> quota_snapshot \<Rightarrow> registry_state \<Rightarrow> (selection_error + bool) \<times> registry_state" where
  "set_binding_quota_snapshot b q st =
     (case map_of (rs_entries st) b of
        None \<Rightarrow> (Inr False, st)
      | Some e \<Rightarrow> insert_quota_for_binding b (re_registration e) q st)"

definition set_quota ::
  "instant \<Rightarrow> credential_id \<Rightarrow> u64 option \<Rightarrow> instant option \<Rightarrow> registry_state \<Rightarrow>
     (selection_error + bool) \<times> registry_state" where
  "set_quota clock c remaining reset_at st =
     (let qstate = (if remaining = Some 0 then QuotaExhaustedState
                    else if remaining \<noteq> None then QuotaAvailable else QuotaUnknown) in
      set_quota_snapshot c
        (qs_with_reset_at reset_at
          (qs_with_window None remaining (quota_snapshot_new QCredential Requests qstate clock))) st)"

definition apply_quota_classification ::
  "credential_id \<Rightarrow> quota_classification \<Rightarrow> registry_state \<Rightarrow>
     (selection_error + bool) \<times> registry_state" where
  "apply_quota_classification c cl st = set_quota_snapshot c (qc_snapshot cl) st"

definition apply_binding_quota_classification ::
  "binding_key \<Rightarrow> quota_classification \<Rightarrow> registry_state \<Rightarrow>
     (selection_error + bool) \<times> registry_state" where
  "apply_binding_quota_classification b cl st = set_binding_quota_snapshot b (qc_snapshot cl) st"

definition mark_quota_exhausted ::
  "instant \<Rightarrow> credential_id \<Rightarrow> instant option \<Rightarrow> registry_state \<Rightarrow>
     (selection_error + bool) \<times> registry_state" where
  "mark_quota_exhausted clock c reset_at st = set_quota clock c (Some 0) reset_at st"

definition mark_binding_quota_exhausted ::
  "instant \<Rightarrow> binding_key \<Rightarrow> instant option \<Rightarrow> registry_state \<Rightarrow>
     (selection_error + bool) \<times> registry_state" where
  "mark_binding_quota_exhausted clock b reset_at st =
     set_binding_quota_snapshot b
       (qs_with_reset_at reset_at
         (qs_with_window None (Some 0)
           (quota_snapshot_new QCredential Requests QuotaExhaustedState clock))) st"

definition quota_snapshots :: "credential_id \<Rightarrow> instant \<Rightarrow> registry_state \<Rightarrow> quota_snapshot list" where
  "quota_snapshots c now st =
     (let bs = map fst (credential_registrations c st) in
      if bs = [] then []
      else
        map snd (filter (\<lambda>w. list_ex (\<lambda>e. cr_credential (re_registration (snd e)) = c
                                        \<and> subject_matches (fst (fst w)) (re_registration (snd e)))
                                (rs_entries st)
                            \<and> \<not> qs_expired_at (snd w) now) (rs_quotas st))
        @ map snd (filter (\<lambda>w. fst (fst w) \<in> set bs \<and> \<not> qs_expired_at (snd w) now)
            (rs_binding_quotas st)))"

definition binding_quota_snapshots ::
  "binding_key \<Rightarrow> instant \<Rightarrow> registry_state \<Rightarrow> quota_snapshot list" where
  "binding_quota_snapshots b now st =
     map snd (filter (\<lambda>w. fst (fst w) = b \<and> \<not> qs_expired_at (snd w) now) (rs_binding_quotas st))"

definition quota_state_records ::
  "(string \<Rightarrow> string) \<Rightarrow> instant \<Rightarrow> u64 \<Rightarrow> registry_state \<Rightarrow>
     persisted_quota_snapshot list \<times> registry_state" where
  "quota_state_records sha256 now now_unix_ms st =
     (let st = recover_quotas now st in
      (map (\<lambda>w. from_runtime sha256 (fst (fst w)) (snd w) now now_unix_ms) (rs_quotas st), st))"

text \<open>The loop of \<open>binding_quota_state_records\<close>.\<close>

fun binding_records ::
  "(string \<Rightarrow> string) \<Rightarrow> instant \<Rightarrow> u64 \<Rightarrow> registry_state \<Rightarrow>
     ((binding_key \<times> quota_unit) \<times> quota_snapshot) list \<Rightarrow>
     selection_error + (binding_key \<times> persisted_quota_snapshot) list" where
  "binding_records sha256 now ms st [] = Inr []"
| "binding_records sha256 now ms st (((b, u), q) # rest) =
     (case map_of (rs_entries st) b of
        None \<Rightarrow> binding_records sha256 now ms st rest
      | Some e \<Rightarrow>
          (case quota_subject_of (re_registration e) (qs_scope q) of
             Inl err \<Rightarrow> Inl err
           | Inr subject \<Rightarrow>
               (case binding_records sha256 now ms st rest of
                  Inl err \<Rightarrow> Inl err
                | Inr rs \<Rightarrow> Inr ((b, from_runtime sha256 subject q now ms) # rs))))"

definition binding_quota_state_records ::
  "(string \<Rightarrow> string) \<Rightarrow> instant \<Rightarrow> u64 \<Rightarrow> registry_state \<Rightarrow>
     (selection_error + (binding_key \<times> persisted_quota_snapshot) list) \<times> registry_state" where
  "binding_quota_state_records sha256 now now_unix_ms st =
     (let st = recover_quotas now st in
      (binding_records sha256 now now_unix_ms st (rs_binding_quotas st), st))"

definition restore_quota_state ::
  "(string \<Rightarrow> string) \<Rightarrow> persisted_quota_snapshot \<Rightarrow> instant \<Rightarrow> u64 \<Rightarrow> registry_state \<Rightarrow>
     (selection_error + bool) \<times> registry_state" where
  "restore_quota_state sha256 p now now_unix_ms st =
     (case to_runtime p now now_unix_ms of
        Inl e \<Rightarrow> (Inl (InvalidQuotaState e), st)
      | Inr None \<Rightarrow> (Inr False, st)
      | Inr (Some q) \<Rightarrow>
          (case persisted_subject sha256 st (pq_identity p) of
             None \<Rightarrow> (Inr False, st)
           | Some subject \<Rightarrow>
               (let (changed, st') = insert_quota_subject subject q st in (Inr changed, st'))))"

definition restore_binding_quota_state ::
  "binding_key \<Rightarrow> persisted_quota_snapshot \<Rightarrow> instant \<Rightarrow> u64 \<Rightarrow> registry_state \<Rightarrow>
     (selection_error + bool) \<times> registry_state" where
  "restore_binding_quota_state b p now now_unix_ms st =
     (case to_runtime p now now_unix_ms of
        Inl e \<Rightarrow> (Inl (InvalidQuotaState e), st)
      | Inr None \<Rightarrow> (Inr False, st)
      | Inr (Some q) \<Rightarrow>
          (case map_of (rs_entries st) b of
             None \<Rightarrow> (Inr False, st)
           | Some e \<Rightarrow> insert_quota_for_binding b (re_registration e) q st))"

section \<open>Counters, health and affinity\<close>

text \<open>\<open>sum\<close> over \<open>u32\<close>: the release profile leaves overflow checks off, so the sum wraps.\<close>

definition registry_in_flight :: "credential_id \<Rightarrow> registry_state \<Rightarrow> u32 option" where
  "registry_in_flight c st =
     (let es = filter (\<lambda>e. cr_credential (re_registration (snd e)) = c) (rs_entries st) in
      if es = [] then None else Some (sum_list (map (\<lambda>e. re_in_flight (snd e)) es)))"

definition binding_in_flight :: "binding_key \<Rightarrow> registry_state \<Rightarrow> u32 option" where
  "binding_in_flight b st = map_option re_in_flight (map_of (rs_entries st) b)"

definition registry_apply_failure ::
  "failure_classification \<Rightarrow> health_subject \<Rightarrow> instant \<Rightarrow> credential_registry \<Rightarrow>
     (health_mutation \<times> credential_registry) option" where
  "registry_apply_failure f subject now rg =
     (case apply_failure f subject now (rg_health rg) of
        None \<Rightarrow> None
      | Some (m, h) \<Rightarrow> Some (m, rg\<lparr>rg_health := h\<rparr>))"

definition registry_restore_cooldown ::
  "cooldown_scope \<Rightarrow> instant \<Rightarrow> credential_registry \<Rightarrow> credential_registry" where
  "registry_restore_cooldown sc until rg =
     rg\<lparr>rg_health := restore_cooldown sc until (rg_health rg)\<rparr>"

definition restore_affinity ::
  "instant \<Rightarrow> affinity_key \<Rightarrow> credential_id \<Rightarrow> provider_id \<Rightarrow> model_id \<Rightarrow> instant \<Rightarrow> instant \<Rightarrow>
     registry_state \<Rightarrow> affinity_key option \<times> registry_state" where
  "restore_affinity clock k c p m last_used expires st =
     (case find (\<lambda>e. cr_credential (re_registration (snd e)) = c) (rs_entries st) of
        None \<Rightarrow> (None, st)
      | Some e \<Rightarrow>
          insert_bounded_affinity k
            \<lparr>ab_binding = cr_binding (re_registration (snd e)), ab_provider = p, ab_model = m,
             ab_last_used_at = last_used, ab_expires_at = expires\<rparr>
            (purge_expired_affinity clock st))"

definition restore_affinity_binding ::
  "instant \<Rightarrow> affinity_key \<Rightarrow> binding_key \<Rightarrow> provider_id \<Rightarrow> model_id \<Rightarrow> instant \<Rightarrow> instant \<Rightarrow>
     registry_state \<Rightarrow> affinity_key option \<times> registry_state" where
  "restore_affinity_binding clock k b p m last_used expires st =
     (if map_of (rs_entries st) b = None then (None, st)
      else insert_bounded_affinity k
             \<lparr>ab_binding = b, ab_provider = p, ab_model = m,
              ab_last_used_at = last_used, ab_expires_at = expires\<rparr>
             (purge_expired_affinity clock st))"

definition affinity_len :: "instant \<Rightarrow> registry_state \<Rightarrow> nat \<times> registry_state" where
  "affinity_len now st =
     (let st = purge_expired_affinity now st in (length (rs_affinity st), st))"

end
