(* ===== verification/Candidates.thy ===== *)
theory Candidates
  imports Registry
begin

text \<open>
  Evaluation of candidates (\<open>evaluate_candidates\<close> and its helpers in
  \<open>pooler-policy/src/selection.rs\<close>): for every registered entry the reasons that make it
  ineligible for a request, in the order the code pushes them, and the adaptive metrics. The
  main theorem states eligibility as one condition on the registration, the request, the health
  registry and the quota windows, and shows that an entry has no reason exactly when it holds.
\<close>

section \<open>Routing filters\<close>

text \<open>\<open>rsplit_once('/')\<close>: what follows the last slash, if there is one.\<close>

definition after_last_slash :: "string \<Rightarrow> string option" where
  "after_last_slash s =
     (if CHR ''/'' \<in> set s then Some (rev (takeWhile (\<lambda>c. c \<noteq> CHR ''/'') (rev s))) else None)"

definition target_matches_registration :: "string \<Rightarrow> registration \<Rightarrow> bool" where
  "target_matches_registration target r \<longleftrightarrow>
     (let identity = bk_target (cr_binding r) in
      target = identity
      \<or> (case after_last_slash identity of Some suffix \<Rightarrow> target = suffix | None \<Rightarrow> False))"

definition routing_config_allows :: "registration \<Rightarrow> routing_requirements \<Rightarrow> bool" where
  "routing_config_allows r routing \<longleftrightarrow>
     (rr_provider_allow routing = [] \<or> cr_provider r \<in> set (rr_provider_allow routing))
     \<and> cr_provider r \<notin> set (rr_provider_deny routing)
     \<and> (rr_target_allow routing = []
        \<or> list_ex (\<lambda>t. target_matches_registration t r) (rr_target_allow routing))
     \<and> \<not> list_ex (\<lambda>t. target_matches_registration t r) (rr_target_deny routing)"

definition reason_if :: "bool \<Rightarrow> filter_reason \<Rightarrow> filter_reason list" where
  "reason_if b r = (if b then [r] else [])"

definition scope_reasons ::
  "routing_requirements \<Rightarrow> u32 option \<Rightarrow> model_id \<Rightarrow> registration \<Rightarrow> filter_reason list" where
  "scope_reasons routing fallback_priority model r =
     reason_if (rr_provider_allow routing \<noteq> [] \<and> cr_provider r \<notin> set (rr_provider_allow routing))
       ProviderNotAllowed
     @ reason_if (cr_provider r \<in> set (rr_provider_deny routing)) ProviderDenied
     @ reason_if (rr_target_allow routing \<noteq> []
         \<and> \<not> list_ex (\<lambda>t. target_matches_registration t r) (rr_target_allow routing)) TargetNotAllowed
     @ reason_if (list_ex (\<lambda>t. target_matches_registration t r) (rr_target_deny routing)) TargetDenied
     @ reason_if (\<not> rr_allow_fallbacks routing
         \<and> (case fallback_priority of
              Some p \<Rightarrow> cr_priority r > p \<and> cr_model r = model | None \<Rightarrow> False)) FallbackDisabled"

text \<open>
  The fact filters. A requirement on an unknown list of parameters, capabilities or
  quantizations returns from the closure at once: the second component says whether the
  evaluation goes on.
\<close>

definition parameter_reasons ::
  "routing_requirements \<Rightarrow> candidate_facts \<Rightarrow> filter_reason list \<times> bool" where
  "parameter_reasons routing facts =
     (if rr_required_parameters routing = [] then ([], True)
      else case fact_value (cf_parameters facts) of
        None \<Rightarrow> ([UnknownParameters], False)
      | Some ps \<Rightarrow>
          (map MissingParameter (filter (\<lambda>p. p \<notin> set ps) (rr_required_parameters routing)), True))"

definition missing_capabilities :: "capability_set \<Rightarrow> capability_set \<Rightarrow> filter_reason list" where
  "missing_capabilities required available =
     map (\<lambda>c. MissingCapability (cap_as_str c)) (cs_iter (cs_difference required available))"

definition capability_reasons ::
  "routing_requirements \<Rightarrow> candidate_facts \<Rightarrow> filter_reason list \<times> bool" where
  "capability_reasons routing facts =
     (if cs_is_empty (rr_required_capabilities routing) then ([], True)
      else case fact_value (cf_capabilities facts) of
        None \<Rightarrow> ([MissingCapability ''unknown''], False)
      | Some caps \<Rightarrow> (missing_capabilities (rr_required_capabilities routing) caps, True))"

definition context_reasons :: "routing_requirements \<Rightarrow> candidate_facts \<Rightarrow> filter_reason list" where
  "context_reasons routing facts =
     (case rr_minimum_context routing of
        None \<Rightarrow> []
      | Some minimum \<Rightarrow>
          (case fact_value (cf_context_window facts) of
             Some v \<Rightarrow> if v \<ge> minimum then [] else [MissingContext]
           | None \<Rightarrow> [UnknownContext]))"

definition quantization_reasons ::
  "routing_requirements \<Rightarrow> candidate_facts \<Rightarrow> filter_reason list \<times> bool" where
  "quantization_reasons routing facts =
     (if rr_quantization routing = [] then ([], True)
      else case fact_value (cf_quantization facts) of
        None \<Rightarrow> ([UnknownQuantization], False)
      | Some qs \<Rightarrow>
          (map MissingQuantization (filter (\<lambda>q. q \<notin> set qs) (rr_quantization routing)), True))"

definition eq_ignore_ascii_case :: "string \<Rightarrow> string \<Rightarrow> bool" where
  "eq_ignore_ascii_case a b \<longleftrightarrow> to_ascii_lowercase a = to_ascii_lowercase b"

text \<open>Privacy, data policy and region share one shape.\<close>

definition text_fact_reasons ::
  "string option \<Rightarrow> string routing_fact \<Rightarrow> filter_reason \<Rightarrow> filter_reason \<Rightarrow> filter_reason list" where
  "text_fact_reasons required known mismatch unknown =
     (case required of
        None \<Rightarrow> []
      | Some wanted \<Rightarrow>
          (case fact_value known of
             Some v \<Rightarrow> if eq_ignore_ascii_case v wanted then [] else [mismatch]
           | None \<Rightarrow> [unknown]))"

definition zdr_reasons :: "routing_requirements \<Rightarrow> candidate_facts \<Rightarrow> filter_reason list" where
  "zdr_reasons routing facts =
     (if rr_require_zdr routing
      then (case fact_value (cf_zdr facts) of
              Some True \<Rightarrow> [] | Some False \<Rightarrow> [ZdrRequired] | None \<Rightarrow> [UnknownZdr])
      else [])"

definition price_reasons :: "routing_requirements \<Rightarrow> candidate_facts \<Rightarrow> filter_reason list" where
  "price_reasons routing facts =
     (case rr_max_price routing of
        None \<Rightarrow> []
      | Some max_price \<Rightarrow>
          (case fact_value (cf_price facts) of
             Some v \<Rightarrow> if v \<le> max_price then [] else [PriceExceeded]
           | None \<Rightarrow> [UnknownPrice]))"

definition later_fact_reasons :: "routing_requirements \<Rightarrow> candidate_facts \<Rightarrow> filter_reason list" where
  "later_fact_reasons routing facts =
     text_fact_reasons (rr_privacy routing) (cf_privacy facts) PrivacyMismatch UnknownPrivacy
     @ zdr_reasons routing facts
     @ text_fact_reasons (rr_data_policy routing) (cf_data_policy facts) DataPolicyMismatch
         UnknownDataPolicy
     @ text_fact_reasons (rr_region routing) (cf_region facts) RegionMismatch UnknownRegion
     @ price_reasons routing facts"

definition and_then ::
  "filter_reason list \<times> bool \<Rightarrow> filter_reason list \<times> bool \<Rightarrow> filter_reason list \<times> bool" where
  "and_then a b = (if snd a then (fst a @ fst b, snd b) else a)"

definition routing_reasons ::
  "routing_requirements \<Rightarrow> u32 option \<Rightarrow> model_id \<Rightarrow> registration \<Rightarrow> filter_reason list \<times> bool" where
  "routing_reasons routing fallback_priority model r =
     (let facts = cr_facts r in
      and_then (scope_reasons routing fallback_priority model r, True)
        (and_then (parameter_reasons routing facts)
          (and_then (capability_reasons routing facts)
            (and_then (context_reasons routing facts, True)
              (and_then (quantization_reasons routing facts)
                (later_fact_reasons routing facts, True))))))"

section \<open>Request, health and quota filters\<close>

definition request_reasons :: "selection_request \<Rightarrow> registration \<Rightarrow> filter_reason list" where
  "request_reasons req r =
     reason_if ((case sr_allowed_credentials req of
                   Some allowed \<Rightarrow> cr_credential r \<notin> set allowed | None \<Rightarrow> False)
                \<or> (case sr_allowed_bindings req of
                     Some allowed \<Rightarrow> cr_binding r \<notin> set allowed | None \<Rightarrow> False)) RoutePolicy
     @ reason_if (cr_credential r \<in> set (sr_excluded_credentials req)
                  \<or> cr_binding r \<in> set (sr_excluded_bindings req)) RoutePolicy
     @ reason_if (case sr_pool_id req of
                    Some pool \<Rightarrow> cr_pool_id r \<noteq> Some pool | None \<Rightarrow> False) RoutePolicy
     @ reason_if (cr_model r \<noteq> sr_model req) ModelMismatch
     @ missing_capabilities (sr_required_capabilities req) (cr_capabilities r)
     @ (case sr_codec req of
          Some codec \<Rightarrow> reason_if (codec \<notin> set (cr_codecs r)) (CodecUnavailable codec)
        | None \<Rightarrow> [])"

fun cooldown_filter_reason :: "cooldown_scope_kind \<Rightarrow> filter_reason" where
  "cooldown_filter_reason KindCredential = CredentialCooldown"
| "cooldown_filter_reason KindCredentialModel = CredentialModelCooldown"
| "cooldown_filter_reason KindModel = ModelCooldown"
| "cooldown_filter_reason KindProvider = ProviderCooldown"
| "cooldown_filter_reason KindProviderModel = ProviderModelCooldown"
| "cooldown_filter_reason KindRoute = RouteCooldown"

definition entry_subject :: "selection_request \<Rightarrow> registration \<Rightarrow> health_subject" where
  "entry_subject req r =
     \<lparr>hs_credential = Some (cr_credential r), hs_model = Some (cr_model r),
      hs_provider = Some (cr_provider r), hs_route = sr_route req, hs_binding = Some (cr_binding r)\<rparr>"

definition status_disabled :: "credential_health option \<Rightarrow> bool" where
  "status_disabled h \<longleftrightarrow> (case h of Some e \<Rightarrow> ch_status e = StatusDisabled | None \<Rightarrow> False)"

definition health_reasons ::
  "health_registry \<Rightarrow> selection_request \<Rightarrow> registration \<Rightarrow> filter_reason list" where
  "health_reasons h req r =
     (if status_disabled (credential_health_of h (cr_credential r))
         \<or> status_disabled (binding_health_of h (cr_binding r))
      then [FilterDisabled]
      else map cooldown_filter_reason (target_cooldown_scopes h (entry_subject req r) (sr_now req)))"

definition quota_blocked :: "registry_state \<Rightarrow> registration \<Rightarrow> instant \<Rightarrow> bool" where
  "quota_blocked st r now \<longleftrightarrow>
     list_ex (\<lambda>w. subject_matches (fst (fst w)) r \<and> qs_exhausted (snd w) now) (rs_quotas st)
     \<or> list_ex (\<lambda>w. fst (fst w) = cr_binding r \<and> qs_exhausted (snd w) now) (rs_binding_quotas st)"

definition state_reasons ::
  "registry_state \<Rightarrow> health_registry \<Rightarrow> selection_request \<Rightarrow> registry_entry \<Rightarrow> filter_reason list" where
  "state_reasons st h req e =
     (let r = re_registration e in
      reason_if (\<not> re_enabled e) CredentialUnavailable
      @ health_reasons h req r
      @ reason_if (case cr_max_in_flight r of
                     Some limit \<Rightarrow> re_in_flight e \<ge> limit | None \<Rightarrow> False) ConcurrencyLimit
      @ reason_if (quota_blocked st r (sr_now req)) QuotaExhausted)"

section \<open>Adaptive metrics\<close>

record routing_metric =
  rm_known :: bool
  rm_meets_threshold :: bool
  rm_value :: u64
  rm_lower_is_better :: bool

definition fact_metric :: "u64 option \<Rightarrow> u64 option \<Rightarrow> bool \<Rightarrow> routing_metric" where
  "fact_metric v threshold lower =
     \<lparr>rm_known = v \<noteq> None,
      rm_meets_threshold =
        (case v of
           Some x \<Rightarrow> (case threshold of Some limit \<Rightarrow> x \<le> limit | None \<Rightarrow> True)
         | None \<Rightarrow> False),
      rm_value = (case v of Some x \<Rightarrow> x | None \<Rightarrow> - 1),
      rm_lower_is_better = lower\<rparr>"

definition throughput_metric :: "u64 option \<Rightarrow> u64 option \<Rightarrow> routing_metric" where
  "throughput_metric v threshold =
     \<lparr>rm_known = v \<noteq> None,
      rm_meets_threshold =
        (case v of
           Some x \<Rightarrow> (case threshold of Some minimum \<Rightarrow> x \<ge> minimum | None \<Rightarrow> True)
         | None \<Rightarrow> False),
      rm_value = (case v of Some x \<Rightarrow> x | None \<Rightarrow> 0),
      rm_lower_is_better = False\<rparr>"

definition fresh_sample ::
  "routing_requirements \<Rightarrow> selection_request \<Rightarrow> registration \<Rightarrow> telemetry_sample option" where
  "fresh_sample routing req r =
     (case map_of (sr_telemetry req) (cr_binding r) of
        Some s \<Rightarrow>
          if fresh_at s (sr_telemetry_now_ms req) (rr_min_samples routing) (rr_stale_after_ms routing)
          then Some s else None
      | None \<Rightarrow> None)"

definition routing_metrics :: "registration \<Rightarrow> selection_request \<Rightarrow> routing_metric list" where
  "routing_metrics r req =
     (case sr_routing req of
        None \<Rightarrow> []
      | Some routing \<Rightarrow>
          (let sample = fresh_sample routing req r in
           (if rr_prefer_price routing
            then [fact_metric (fact_value (cf_price (cr_facts r))) (rr_max_price routing) True] else [])
           @ (if rr_prefer_latency routing
              then [fact_metric (Option.bind sample ts_latency_ms) (rr_max_latency_ms routing) True]
              else [])
           @ (if rr_prefer_throughput routing
              then [throughput_metric (Option.bind sample ts_throughput_per_second)
                      (rr_min_throughput routing)]
              else [])))"

section \<open>Evaluation\<close>

record candidate_evaluation =
  ev_entry :: registry_entry
  ev_reasons :: "filter_reason list"
  ev_metrics :: "routing_metric list"

abbreviation ev_registration :: "candidate_evaluation \<Rightarrow> registration" where
  "ev_registration c \<equiv> re_registration (ev_entry c)"

definition fallback_priority_of ::
  "registry_entry list \<Rightarrow> selection_request \<Rightarrow> u32 option" where
  "fallback_priority_of es req =
     (case sr_routing req of
        None \<Rightarrow> None
      | Some routing \<Rightarrow>
          (let ps = map (\<lambda>e. cr_priority (re_registration e))
                      (filter (\<lambda>e. cr_model (re_registration e) = sr_model req
                                   \<and> routing_config_allows (re_registration e) routing) es)
           in if ps = [] then None else Some (min_list ps)))"

definition evaluate_entry ::
  "registry_state \<Rightarrow> health_registry \<Rightarrow> selection_request \<Rightarrow> u32 option \<Rightarrow> registry_entry \<Rightarrow>
     candidate_evaluation" where
  "evaluate_entry st h req fallback e =
     (let r = re_registration e;
          routed = (case sr_routing req of
                      None \<Rightarrow> ([], True)
                    | Some routing \<Rightarrow> routing_reasons routing fallback (sr_model req) r)
      in \<lparr>ev_entry = e,
          ev_reasons = fst (and_then routed (request_reasons req r @ state_reasons st h req e, True)),
          ev_metrics = routing_metrics r req\<rparr>)"

definition evaluate_candidates ::
  "registry_state \<Rightarrow> health_registry \<Rightarrow> selection_request \<Rightarrow> candidate_evaluation list" where
  "evaluate_candidates st h req =
     (let es = sorted_entries st in
      map (evaluate_entry st h req (fallback_priority_of es req)) es)"

text \<open>\<open>score\<close> divides two integers; the model keeps them apart.\<close>

definition ev_score :: "selection_strategy \<Rightarrow> candidate_evaluation \<Rightarrow> score" where
  "ev_score strategy c =
     (case strategy of
        HealthWeighted \<Rightarrow>
          (unat (effective_weight (ev_registration c)), unat (saturating_add (re_in_flight (ev_entry c)) 1))
      | SmoothWeightedRoundRobin \<Rightarrow> (unat (effective_weight (ev_registration c)), 1)
      | LeastInFlight \<Rightarrow> (1, unat (saturating_add (re_in_flight (ev_entry c)) 1))
      | _ \<Rightarrow> (0, 1))"

section \<open>Eligibility as a condition\<close>

text \<open>Capability sets carry known bits only, which their type guarantees in the program.\<close>

definition request_ok :: "selection_request \<Rightarrow> bool" where
  "request_ok req \<longleftrightarrow> cs_valid (sr_required_capabilities req)
     \<and> (\<forall>routing. sr_routing req = Some routing \<longrightarrow> cs_valid (rr_required_capabilities routing))"

definition known_and :: "'a routing_fact \<Rightarrow> ('a \<Rightarrow> bool) \<Rightarrow> bool" where
  "known_and f P \<longleftrightarrow> (\<exists>v. fact_value f = Some v \<and> P v)"

text \<open>What the routing requirements ask of a target's declared or verified facts.\<close>

definition facts_satisfy :: "routing_requirements \<Rightarrow> candidate_facts \<Rightarrow> bool" where
  "facts_satisfy routing facts \<longleftrightarrow>
     (rr_required_parameters routing \<noteq> [] \<longrightarrow>
        known_and (cf_parameters facts) (\<lambda>ps. set (rr_required_parameters routing) \<subseteq> set ps))
     \<and> (\<not> cs_is_empty (rr_required_capabilities routing) \<longrightarrow>
          known_and (cf_capabilities facts) (\<lambda>caps. cs_contains_all caps (rr_required_capabilities routing)))
     \<and> (\<forall>minimum. rr_minimum_context routing = Some minimum \<longrightarrow>
          known_and (cf_context_window facts) (\<lambda>v. minimum \<le> v))
     \<and> (rr_quantization routing \<noteq> [] \<longrightarrow>
          known_and (cf_quantization facts) (\<lambda>qs. set (rr_quantization routing) \<subseteq> set qs))
     \<and> (\<forall>wanted. rr_privacy routing = Some wanted \<longrightarrow>
          known_and (cf_privacy facts) (\<lambda>v. eq_ignore_ascii_case v wanted))
     \<and> (rr_require_zdr routing \<longrightarrow> known_and (cf_zdr facts) (\<lambda>v. v))
     \<and> (\<forall>wanted. rr_data_policy routing = Some wanted \<longrightarrow>
          known_and (cf_data_policy facts) (\<lambda>v. eq_ignore_ascii_case v wanted))
     \<and> (\<forall>wanted. rr_region routing = Some wanted \<longrightarrow>
          known_and (cf_region facts) (\<lambda>v. eq_ignore_ascii_case v wanted))
     \<and> (\<forall>max_price. rr_max_price routing = Some max_price \<longrightarrow>
          known_and (cf_price facts) (\<lambda>v. v \<le> max_price))"

text \<open>With fallbacks disabled only the best priority among the configured targets is left.\<close>

definition fallback_allowed :: "routing_requirements \<Rightarrow> registry_entry list \<Rightarrow> model_id \<Rightarrow> registration \<Rightarrow> bool" where
  "fallback_allowed routing es model r \<longleftrightarrow>
     rr_allow_fallbacks routing \<or> cr_model r \<noteq> model
     \<or> (\<forall>e \<in> set es. cr_model (re_registration e) = model \<longrightarrow>
          routing_config_allows (re_registration e) routing \<longrightarrow>
          cr_priority r \<le> cr_priority (re_registration e))"

definition request_allows :: "selection_request \<Rightarrow> registration \<Rightarrow> bool" where
  "request_allows req r \<longleftrightarrow>
     cr_model r = sr_model req
     \<and> (\<forall>allowed. sr_allowed_credentials req = Some allowed \<longrightarrow> cr_credential r \<in> set allowed)
     \<and> (\<forall>allowed. sr_allowed_bindings req = Some allowed \<longrightarrow> cr_binding r \<in> set allowed)
     \<and> cr_credential r \<notin> set (sr_excluded_credentials req)
     \<and> cr_binding r \<notin> set (sr_excluded_bindings req)
     \<and> (\<forall>pool. sr_pool_id req = Some pool \<longrightarrow> cr_pool_id r = Some pool)
     \<and> cs_contains_all (cr_capabilities r) (sr_required_capabilities req)
     \<and> (\<forall>codec. sr_codec req = Some codec \<longrightarrow> codec \<in> set (cr_codecs r))"

definition eligible_entry ::
  "registry_state \<Rightarrow> health_registry \<Rightarrow> selection_request \<Rightarrow> registry_entry \<Rightarrow> bool" where
  "eligible_entry st h req e \<longleftrightarrow>
     (let r = re_registration e in
      (\<forall>routing. sr_routing req = Some routing \<longrightarrow>
         routing_config_allows r routing \<and> fallback_allowed routing (map snd (rs_entries st)) (sr_model req) r
         \<and> facts_satisfy routing (cr_facts r))
      \<and> request_allows req r
      \<and> re_enabled e
      \<and> \<not> status_disabled (credential_health_of h (cr_credential r))
      \<and> \<not> status_disabled (binding_health_of h (cr_binding r))
      \<and> \<not> target_is_cooling_down h (entry_subject req r) (sr_now req)
      \<and> (\<forall>limit. cr_max_in_flight r = Some limit \<longrightarrow> re_in_flight e < limit)
      \<and> \<not> quota_blocked st r (sr_now req))"

lemma reason_if_Nil [simp]: "reason_if b r = [] \<longleftrightarrow> \<not> b"
  by (simp add: reason_if_def)

lemma and_then_Nil:
  "fst (and_then a b) = [] \<longleftrightarrow> (if snd a then fst a = [] \<and> fst b = [] else fst a = [])"
  by (simp add: and_then_def)

lemma missing_capabilities_Nil:
  "cs_valid required \<Longrightarrow> missing_capabilities required available = [] \<longleftrightarrow> cs_contains_all available required"
  by (simp add: missing_capabilities_def cs_iter_Nil cs_valid_ops cs_contains_all_difference)

lemma fallback_priority_allowed:
  assumes "sr_routing req = Some routing"
  shows "(case fallback_priority_of es req of
       Some p \<Rightarrow> cr_priority r > p \<and> cr_model r = sr_model req | None \<Rightarrow> False) \<longleftrightarrow>
     cr_model r = sr_model req \<and> \<not> (\<forall>e \<in> set es. cr_model (re_registration e) = sr_model req \<longrightarrow>
       routing_config_allows (re_registration e) routing \<longrightarrow> cr_priority r \<le> cr_priority (re_registration e))"
proof -
  let ?fs = "filter (\<lambda>e. cr_model (re_registration e) = sr_model req
                                   \<and> routing_config_allows (re_registration e) routing) es"
  show ?thesis
  proof (cases "?fs = []")
    case True
    then show ?thesis using assms by (auto simp: fallback_priority_of_def filter_empty_conv)
  next
    case False
    let ?ps = "map (\<lambda>e. cr_priority (re_registration e)) ?fs"
    have "fallback_priority_of es req = Some (Min (set ?ps))"
      using False assms min_list_Min [of ?ps] by (simp add: fallback_priority_of_def)
    moreover have "Min (set ?ps) < cr_priority r \<longleftrightarrow> (\<exists>e \<in> set ?fs. cr_priority (re_registration e) < cr_priority r)"
      using False by (subst Min_less_iff) (auto simp: filter_empty_conv)
    ultimately show ?thesis by (auto simp: not_le)
  qed
qed

lemma scope_reasons_Nil:
  assumes "sr_routing req = Some routing"
  shows "scope_reasons routing (fallback_priority_of es req) (sr_model req) r = [] \<longleftrightarrow>
    routing_config_allows r routing \<and> fallback_allowed routing es (sr_model req) r"
  using fallback_priority_allowed [OF assms, where es = es and r = r]
  by (simp add: scope_reasons_def routing_config_allows_def fallback_allowed_def) blast

lemma filter_not_mem_Nil: "filter (\<lambda>p. p \<notin> A) xs = [] \<longleftrightarrow> set xs \<subseteq> A"
  by (auto simp: filter_empty_conv)

lemma text_fact_reasons_Nil:
  "text_fact_reasons required known a b = [] \<longleftrightarrow>
     (\<forall>wanted. required = Some wanted \<longrightarrow> known_and known (\<lambda>v. eq_ignore_ascii_case v wanted))"
  by (auto simp: text_fact_reasons_def known_and_def split: option.split)

lemma later_fact_reasons_Nil:
  "later_fact_reasons routing facts = [] \<longleftrightarrow>
     (\<forall>wanted. rr_privacy routing = Some wanted \<longrightarrow>
          known_and (cf_privacy facts) (\<lambda>v. eq_ignore_ascii_case v wanted))
     \<and> (rr_require_zdr routing \<longrightarrow> known_and (cf_zdr facts) (\<lambda>v. v))
     \<and> (\<forall>wanted. rr_data_policy routing = Some wanted \<longrightarrow>
          known_and (cf_data_policy facts) (\<lambda>v. eq_ignore_ascii_case v wanted))
     \<and> (\<forall>wanted. rr_region routing = Some wanted \<longrightarrow>
          known_and (cf_region facts) (\<lambda>v. eq_ignore_ascii_case v wanted))
     \<and> (\<forall>max_price. rr_max_price routing = Some max_price \<longrightarrow>
          known_and (cf_price facts) (\<lambda>v. v \<le> max_price))"
proof -
  have "zdr_reasons routing facts = [] \<longleftrightarrow> (rr_require_zdr routing \<longrightarrow> known_and (cf_zdr facts) (\<lambda>v. v))"
    by (auto simp: zdr_reasons_def known_and_def split: option.split bool.split)
  moreover have "price_reasons routing facts = [] \<longleftrightarrow>
      (\<forall>max_price. rr_max_price routing = Some max_price \<longrightarrow> known_and (cf_price facts) (\<lambda>v. v \<le> max_price))"
    by (auto simp: price_reasons_def known_and_def split: option.split)
  ultimately show ?thesis by (simp add: later_fact_reasons_def text_fact_reasons_Nil)
qed

lemma list_reasons_Nil:
  "fst (parameter_reasons routing facts) = [] \<longleftrightarrow> (rr_required_parameters routing \<noteq> [] \<longrightarrow>
     known_and (cf_parameters facts) (\<lambda>ps. set (rr_required_parameters routing) \<subseteq> set ps))"
  "fst (parameter_reasons routing facts) = [] \<Longrightarrow> snd (parameter_reasons routing facts)"
  "fst (quantization_reasons routing facts) = [] \<longleftrightarrow> (rr_quantization routing \<noteq> [] \<longrightarrow>
     known_and (cf_quantization facts) (\<lambda>qs. set (rr_quantization routing) \<subseteq> set qs))"
  "fst (quantization_reasons routing facts) = [] \<Longrightarrow> snd (quantization_reasons routing facts)"
  "cs_valid (rr_required_capabilities routing) \<Longrightarrow> fst (capability_reasons routing facts) = [] \<longleftrightarrow>
     (\<not> cs_is_empty (rr_required_capabilities routing) \<longrightarrow>
        known_and (cf_capabilities facts) (\<lambda>caps. cs_contains_all caps (rr_required_capabilities routing)))"
  "fst (capability_reasons routing facts) = [] \<Longrightarrow> snd (capability_reasons routing facts)"
  "context_reasons routing facts = [] \<longleftrightarrow> (\<forall>minimum. rr_minimum_context routing = Some minimum \<longrightarrow>
     known_and (cf_context_window facts) (\<lambda>v. minimum \<le> v))"
  by (auto simp: parameter_reasons_def quantization_reasons_def capability_reasons_def context_reasons_def
      known_and_def missing_capabilities_Nil filter_not_mem_Nil split: option.splits if_splits)

lemma routing_reasons_Nil:
  assumes "sr_routing req = Some routing" "cs_valid (rr_required_capabilities routing)"
  shows "fst (routing_reasons routing (fallback_priority_of es req) (sr_model req) r) = [] \<longleftrightarrow>
    routing_config_allows r routing \<and> fallback_allowed routing es (sr_model req) r
    \<and> facts_satisfy routing (cr_facts r)"
    and "fst (routing_reasons routing fb m r) = [] \<Longrightarrow> snd (routing_reasons routing fb m r)"
proof -
  have "fst (and_then a b) = [] \<longleftrightarrow> fst a = [] \<and> fst b = []" if "fst a = [] \<Longrightarrow> snd a" for a b
    using that by (auto simp: and_then_Nil)
  note stage = this
  have s: "fst (routing_reasons routing fb m r) = [] \<longleftrightarrow> scope_reasons routing fb m r = []
      \<and> facts_satisfy routing (cr_facts r)" for fb m
    unfolding routing_reasons_def Let_def
    by (simp add: stage list_reasons_Nil assms(2) later_fact_reasons_Nil facts_satisfy_def)
  show "fst (routing_reasons routing (fallback_priority_of es req) (sr_model req) r) = [] \<longleftrightarrow>
    routing_config_allows r routing \<and> fallback_allowed routing es (sr_model req) r
    \<and> facts_satisfy routing (cr_facts r)"
    unfolding s by (simp add: scope_reasons_Nil [OF assms(1)])
  show "fst (routing_reasons routing fb m r) = [] \<Longrightarrow> snd (routing_reasons routing fb m r)"
    unfolding routing_reasons_def Let_def and_then_def using list_reasons_Nil(2,4,6)
    by (auto split: if_splits)
qed

lemma request_reasons_Nil:
  "cs_valid (sr_required_capabilities req) \<Longrightarrow> request_reasons req r = [] \<longleftrightarrow> request_allows req r"
  by (auto simp: request_reasons_def request_allows_def missing_capabilities_Nil split: option.split)

lemma target_not_cooling:
  "target_cooldown_scopes h subject now = [] \<longleftrightarrow> \<not> target_is_cooling_down h subject now"
  by (simp add: target_is_cooling_down_def)

lemma state_reasons_Nil:
  "state_reasons st h req e = [] \<longleftrightarrow>
     re_enabled e
     \<and> \<not> status_disabled (credential_health_of h (cr_credential (re_registration e)))
     \<and> \<not> status_disabled (binding_health_of h (cr_binding (re_registration e)))
     \<and> \<not> target_is_cooling_down h (entry_subject req (re_registration e)) (sr_now req)
     \<and> (\<forall>limit. cr_max_in_flight (re_registration e) = Some limit \<longrightarrow> re_in_flight e < limit)
     \<and> \<not> quota_blocked st (re_registration e) (sr_now req)"
  by (auto simp: state_reasons_def Let_def health_reasons_def target_not_cooling not_le split: option.split)

lemma set_sorted_entries: "set (sorted_entries st) = snd ` set (rs_entries st)"
  by (simp add: sorted_entries_def)

lemma fallback_allowed_set:
  "set es = set es' \<Longrightarrow> fallback_allowed routing es m r = fallback_allowed routing es' m r"
  by (simp add: fallback_allowed_def)

lemma evaluate_entry_Nil:
  assumes "request_ok req"
  shows "ev_reasons (evaluate_entry st h req (fallback_priority_of (sorted_entries st) req) e) = []
    \<longleftrightarrow> eligible_entry st h req e"
proof -
  have fb: "fallback_allowed routing (sorted_entries st) m r = fallback_allowed routing (map snd (rs_entries st)) m r"
    for routing m r by (rule fallback_allowed_set) (simp add: set_sorted_entries)
  have caps: "cs_valid (sr_required_capabilities req)" using assms by (simp add: request_ok_def)
  show ?thesis
  proof (cases "sr_routing req")
    case None
    then show ?thesis
      by (simp add: evaluate_entry_def Let_def and_then_def eligible_entry_def request_reasons_Nil [OF caps]
          state_reasons_Nil)
  next
    case (Some routing)
    then have v: "cs_valid (rr_required_capabilities routing)" using assms by (simp add: request_ok_def)
    show ?thesis
      using routing_reasons_Nil(2) [OF Some v] Some
      by (auto simp: evaluate_entry_def Let_def and_then_Nil eligible_entry_def request_reasons_Nil [OF caps]
          state_reasons_Nil routing_reasons_Nil(1) [OF Some v] fb)
  qed
qed

end
