(* ===== verification/Registry_Invariant.thy ===== *)
theory Registry_Invariant
  imports Registry
begin

text \<open>
  The invariant of the credential registry and that every operation but selection keeps it: maps
  in key order, entries filed under their own binding, declaration orders unique, at most 4096
  affinity entries, an acyclic alias table, and no cursor, weight, affinity or quota window that
  refers to a binding or subject that is not registered.
\<close>

section \<open>The invariant\<close>

definition registration_ok :: "registration \<Rightarrow> bool" where
  "registration_ok r \<longleftrightarrow> cr_credential r = bk_account (cr_binding r)"

definition entries_ok :: "registry_state \<Rightarrow> bool" where
  "entries_ok st \<longleftrightarrow> btree_ok (rs_entries st)
     \<and> (\<forall>e \<in> set (rs_entries st). cr_binding (re_registration (snd e)) = fst e
          \<and> registration_ok (re_registration (snd e)))"

text \<open>The order counter saturates; until then orders are below it and pairwise different.\<close>

definition orders_ok :: "registry_state \<Rightarrow> bool" where
  "orders_ok st \<longleftrightarrow> (unat (rs_next_order st) < 2 ^ 64 - 1 \<longrightarrow>
     (\<forall>e \<in> set (rs_entries st). re_order (snd e) < rs_next_order st)
     \<and> distinct (map (\<lambda>e. re_order (snd e)) (rs_entries st)))"

definition tables_ok :: "registry_state \<Rightarrow> bool" where
  "tables_ok st \<longleftrightarrow> alias_inv (rs_aliases st) \<and> btree_ok (rs_round_robin st)
     \<and> btree_ok (rs_smooth_current st) \<and> btree_ok (rs_affinity st)
     \<and> length (rs_affinity st) \<le> max_affinity_bindings
     \<and> btree_ok (rs_quotas st) \<and> btree_ok (rs_binding_quotas st)"

definition registered :: "registry_state \<Rightarrow> binding_key set" where
  "registered st = set (keys (rs_entries st))"

definition affinity_refs :: "binding_key set \<Rightarrow> (affinity_key \<times> affinity_binding) list \<Rightarrow> bool" where
  "affinity_refs K m \<longleftrightarrow> (\<forall>e \<in> set m. ab_binding (snd e) \<in> K)"

definition cursor_refs :: "binding_key set \<Rightarrow> (cursor_key \<times> nat) list \<Rightarrow> bool" where
  "cursor_refs K m \<longleftrightarrow> (\<forall>e \<in> set m. set (snd (snd (fst e))) \<subseteq> K)"

definition smooth_refs :: "binding_key set \<Rightarrow> (smooth_key \<times> (binding_key \<times> int) list) list \<Rightarrow> bool" where
  "smooth_refs K m \<longleftrightarrow> (\<forall>e \<in> set m. btree_ok (snd e) \<and> set (keys (snd e)) \<subseteq> K)"

definition quota_refs ::
  "('k \<Rightarrow> bool) \<Rightarrow> (('k \<times> quota_unit) \<times> quota_snapshot) list \<Rightarrow> bool" where
  "quota_refs P m \<longleftrightarrow> (\<forall>w \<in> set m. P (fst (fst w)) \<and> qs_unit (snd w) = snd (fst w))"

definition refs_ok :: "registry_state \<Rightarrow> bool" where
  "refs_ok st \<longleftrightarrow> affinity_refs (registered st) (rs_affinity st)
     \<and> cursor_refs (registered st) (rs_round_robin st)
     \<and> smooth_refs (registered st) (rs_smooth_current st)
     \<and> quota_refs (subject_is_registered st) (rs_quotas st)
     \<and> quota_refs (\<lambda>b. b \<in> registered st) (rs_binding_quotas st)"

definition registry_inv :: "registry_state \<Rightarrow> bool" where
  "registry_inv st \<longleftrightarrow> entries_ok st \<and> orders_ok st \<and> tables_ok st \<and> refs_ok st"

lemmas registry_inv_defs =
  registry_inv_def entries_ok_def orders_ok_def tables_ok_def refs_ok_def

lemmas refs_defs = affinity_refs_def cursor_refs_def smooth_refs_def quota_refs_def

lemma refs_mono:
  assumes "K \<subseteq> K'"
  shows "affinity_refs K a \<Longrightarrow> affinity_refs K' a" "cursor_refs K c \<Longrightarrow> cursor_refs K' c"
    "smooth_refs K s \<Longrightarrow> smooth_refs K' s"
  using assms unfolding refs_defs by blast+

lemma registry_inv_default [simp]: "registry_inv registry_state_default"
  by (simp add: registry_inv_defs refs_defs registry_state_default_def)

lemma registry_invD:
  assumes "registry_inv st"
  shows "btree_ok (rs_entries st)" "btree_ok (rs_affinity st)" "btree_ok (rs_quotas st)"
    "btree_ok (rs_binding_quotas st)" "btree_ok (rs_round_robin st)"
    "btree_ok (rs_smooth_current st)" "alias_inv (rs_aliases st)"
    "length (rs_affinity st) \<le> max_affinity_bindings"
    "affinity_refs (registered st) (rs_affinity st)"
    "cursor_refs (registered st) (rs_round_robin st)"
    "smooth_refs (registered st) (rs_smooth_current st)"
    "quota_refs (subject_is_registered st) (rs_quotas st)"
    "quota_refs (\<lambda>b. b \<in> registered st) (rs_binding_quotas st)"
  using assms by (simp_all add: registry_inv_defs)

lemma registry_entryD:
  assumes "registry_inv st" "map_of (rs_entries st) b = Some e"
  shows "cr_binding (re_registration e) = b" "cr_credential (re_registration e) = bk_account b"
    "b \<in> registered st" "(b, e) \<in> set (rs_entries st)"
proof -
  have m: "(b, e) \<in> set (rs_entries st)" using assms(2) by (rule map_of_SomeD)
  then show "b \<in> registered st" "(b, e) \<in> set (rs_entries st)" by (force simp: registered_def)+
  have "cr_binding (re_registration (snd (b, e))) = fst (b, e) \<and> registration_ok (re_registration (snd (b, e)))"
    using assms(1) m unfolding registry_inv_def entries_ok_def by blast
  then show "cr_binding (re_registration e) = b" "cr_credential (re_registration e) = bk_account b"
    by (simp_all add: registration_ok_def)
qed

section \<open>Changes of one table\<close>

lemma entries_unchanged_simps [simp]:
  "registered (st\<lparr>rs_affinity := a\<rparr>) = registered st"
  "registered (st\<lparr>rs_round_robin := c\<rparr>) = registered st"
  "registered (st\<lparr>rs_smooth_current := s\<rparr>) = registered st"
  "registered (st\<lparr>rs_aliases := t\<rparr>) = registered st"
  "registered (st\<lparr>rs_quotas := q\<rparr>) = registered st"
  "registered (st\<lparr>rs_binding_quotas := w\<rparr>) = registered st"
  "registered (st\<lparr>rs_next_order := n\<rparr>) = registered st"
  "subject_is_registered (st\<lparr>rs_affinity := a\<rparr>) = subject_is_registered st"
  "subject_is_registered (st\<lparr>rs_round_robin := c\<rparr>) = subject_is_registered st"
  "subject_is_registered (st\<lparr>rs_smooth_current := s\<rparr>) = subject_is_registered st"
  "subject_is_registered (st\<lparr>rs_aliases := t\<rparr>) = subject_is_registered st"
  "subject_is_registered (st\<lparr>rs_quotas := q\<rparr>) = subject_is_registered st"
  "subject_is_registered (st\<lparr>rs_binding_quotas := w\<rparr>) = subject_is_registered st"
  "subject_is_registered (st\<lparr>rs_next_order := n\<rparr>) = subject_is_registered st"
  by (simp_all add: registered_def subject_is_registered_def [abs_def])

named_theorems table_changes \<open>a change of one table keeps the invariant when the new table is sound\<close>

lemma inv_affinity [table_changes]:
  "registry_inv st \<Longrightarrow> btree_ok m \<Longrightarrow> length m \<le> max_affinity_bindings \<Longrightarrow>
     affinity_refs (registered st) m \<Longrightarrow> registry_inv (st\<lparr>rs_affinity := m\<rparr>)"
  by (simp add: registry_inv_defs)

lemma inv_cursors [table_changes]:
  "registry_inv st \<Longrightarrow> btree_ok m \<Longrightarrow> cursor_refs (registered st) m \<Longrightarrow>
     registry_inv (st\<lparr>rs_round_robin := m\<rparr>)"
  by (simp add: registry_inv_defs)

lemma inv_smooth [table_changes]:
  "registry_inv st \<Longrightarrow> btree_ok m \<Longrightarrow> smooth_refs (registered st) m \<Longrightarrow>
     registry_inv (st\<lparr>rs_smooth_current := m\<rparr>)"
  by (simp add: registry_inv_defs)

lemma inv_aliases [table_changes]:
  "registry_inv st \<Longrightarrow> alias_inv m \<Longrightarrow> registry_inv (st\<lparr>rs_aliases := m\<rparr>)"
  by (simp add: registry_inv_defs)

lemma inv_quotas [table_changes]:
  "registry_inv st \<Longrightarrow> btree_ok m \<Longrightarrow> quota_refs (subject_is_registered st) m \<Longrightarrow>
     registry_inv (st\<lparr>rs_quotas := m\<rparr>)"
  by (simp add: registry_inv_defs)

lemma inv_binding_quotas [table_changes]:
  "registry_inv st \<Longrightarrow> btree_ok m \<Longrightarrow> quota_refs (\<lambda>b. b \<in> registered st) m \<Longrightarrow>
     registry_inv (st\<lparr>rs_binding_quotas := m\<rparr>)"
  by (simp add: registry_inv_defs)

text \<open>An update of the entries that keeps keys, registrations and orders.\<close>

lemma inv_entries [table_changes]:
  assumes inv: "registry_inv st"
    and same: "map (\<lambda>e. (fst e, re_registration (snd e), re_order (snd e))) es
      = map (\<lambda>e. (fst e, re_registration (snd e), re_order (snd e))) (rs_entries st)"
  shows "registry_inv (st\<lparr>rs_entries := es\<rparr>)"
proof -
  let ?sig = "\<lambda>e. (fst e, re_registration (snd e), re_order (snd e))"
  have k: "keys es = keys (rs_entries st)"
    using arg_cong [OF same, of "map fst"] by (simp add: comp_def)
  have o: "map (\<lambda>e. re_order (snd e)) es = map (\<lambda>e. re_order (snd e)) (rs_entries st)"
    using arg_cong [OF same, of "map (\<lambda>x. snd (snd x))"] by (simp add: comp_def)
  have s: "?sig ` set es = ?sig ` set (rs_entries st)"
    using arg_cong [OF same, of set] by simp
  have ex: "\<exists>e' \<in> set (rs_entries st). fst e' = fst e \<and> re_registration (snd e') = re_registration (snd e)"
    if "e \<in> set es" for e
  proof -
    have "?sig e \<in> ?sig ` set (rs_entries st)" using that s by blast
    then obtain e' where "e' \<in> set (rs_entries st)" "?sig e = ?sig e'" by (rule imageE)
    then show ?thesis by (intro bexI [of _ e']) simp_all
  qed
  have sub: "subject_is_registered (st\<lparr>rs_entries := es\<rparr>) = subject_is_registered st"
    using arg_cong [OF same, of "\<lambda>xs. list_ex (\<lambda>x. subject_matches u (fst (snd x))) xs" for u]
    by (simp add: subject_is_registered_def fun_eq_iff list_ex_iff) 
  have "btree_ok es" using inv k by (simp add: registry_inv_defs btree_ok_def)
  moreover have "\<forall>e \<in> set es. cr_binding (re_registration (snd e)) = fst e \<and> registration_ok (re_registration (snd e))"
    using ex inv unfolding registry_inv_def entries_ok_def by metis
  moreover have "(\<forall>e \<in> set es. re_order (snd e) < n) \<longleftrightarrow> (\<forall>e \<in> set (rs_entries st). re_order (snd e) < n)" for n
    using arg_cong [OF o, of "list_all (\<lambda>x. x < n)"] by (simp add: list_all_iff)
  moreover have "registered (st\<lparr>rs_entries := es\<rparr>) = registered st"
    unfolding registered_def using arg_cong [OF k, of set] by simp
  ultimately show ?thesis
    using inv sub o by (simp add: registry_inv_defs)
qed

section \<open>Operations on the tables\<close>

interpretation affinity: bounded_store "\<lambda>k a m. snd (affinity_insert k a m)" ab_last_used_at max_affinity_bindings
  by unfold_locales
    (auto simp: affinity_insert_def max_affinity_bindings_def map_of_eq_None_iff not_le)

lemma set_btree_insert_subset: "set (btree_insert k v m) \<subseteq> insert (k, v) (set m)"
  by (induction m) auto

lemma affinity_insert_subset: "set (snd (affinity_insert k a m)) \<subseteq> insert (k, a) (set m)"
proof -
  have "set (btree_insert k a (map_remove old m)) \<subseteq> insert (k, a) (set m)" for old
    using set_btree_insert_subset [of k a "map_remove old m"] by (auto simp: map_remove_def)
  then show ?thesis
    using set_btree_insert_subset [of k a m] by (simp add: affinity_insert_def split: option.split)
qed

lemma affinity_refs_subset:
  "affinity_refs K m \<Longrightarrow> set m' \<subseteq> insert (k, a) (set m) \<Longrightarrow> ab_binding a \<in> K \<Longrightarrow> affinity_refs K m'"
  by (auto simp: affinity_refs_def)

lemma insert_bounded_affinity_inv:
  assumes "registry_inv st" "ab_binding a \<in> registered st"
  shows "registry_inv (snd (insert_bounded_affinity k a st))"
proof -
  note ok = registry_invD(2) [OF assms(1)] and len = registry_invD(8) [OF assms(1)]
  have "registry_inv (st\<lparr>rs_affinity := snd (affinity_insert k a (rs_affinity st))\<rparr>)"
    by (intro table_changes assms(1) affinity.ins_ok [OF ok] affinity.ins_bounded [OF ok len]
        affinity_refs_subset [OF registry_invD(9) [OF assms(1)] affinity_insert_subset assms(2)])
  then show ?thesis by (simp add: insert_bounded_affinity_def split_beta Let_def)
qed

lemma purge_expired_affinity_inv:
  assumes "registry_inv st"
  shows "registry_inv (purge_expired_affinity now st)"
  unfolding purge_expired_affinity_def
  using assms registry_invD [OF assms]
  by (intro table_changes)
    (auto simp: btree.ok_filter affinity_refs_def intro: order_trans [OF length_filter_le])

lemma recover_quotas_inv:
  assumes "registry_inv st"
  shows "registry_inv (recover_quotas now st)"
  unfolding recover_quotas_def
  using assms registry_invD [OF assms]
  by (intro table_changes) (auto simp: btree.ok_filter quota_refs_def)

lemma quota_entry_insert_sound:
  assumes "btree_ok m" "quota_refs P m" "P k"
  shows "btree_ok (snd (quota_entry_insert (k, qs_unit q) q m))"
    "quota_refs P (snd (quota_entry_insert (k, qs_unit q) q m))"
  using assms set_btree_insert_subset [of "(k, qs_unit q)" q m]
  by (auto simp: quota_entry_insert_def btree.ok_insert quota_refs_def split: option.split)

lemma insert_binding_quota_inv:
  "registry_inv st \<Longrightarrow> b \<in> registered st \<Longrightarrow> registry_inv (snd (insert_binding_quota b q st))"
  using quota_entry_insert_sound [of "rs_binding_quotas st" "\<lambda>b. b \<in> registered st" b q]
  by (auto simp: insert_binding_quota_def split_beta Let_def registry_invD intro!: table_changes)

lemma insert_quota_subject_inv:
  "registry_inv st \<Longrightarrow> subject_is_registered st s \<Longrightarrow> registry_inv (snd (insert_quota_subject s q st))"
  using quota_entry_insert_sound [of "rs_quotas st" "subject_is_registered st" s q]
  by (auto simp: insert_quota_subject_def split_beta Let_def registry_invD intro!: table_changes)


lemma insert_quota_for_binding_inv:
  assumes "registry_inv st" "map_of (rs_entries st) b = Some e"
  shows "registry_inv (snd (insert_quota_for_binding b (re_registration e) q st))"
proof -
  have "subject_is_registered st s" if "subject_matches s (re_registration e)" for s
    using that registry_entryD(4) [OF assms] by (force simp: subject_is_registered_def list_ex_iff)
  then have "registry_inv (snd (insert_quota (re_registration e) q st))"
    using assms(1) insert_quota_subject_inv quota_subject_of_matches
    by (auto simp: insert_quota_def split_beta Let_def split: sum.split)
  then show ?thesis
    using insert_binding_quota_inv [OF assms(1) registry_entryD(3) [OF assms]]
    by (simp add: insert_quota_for_binding_def split_beta Let_def)
qed

lemma entries_insert_quota [simp]:
  "rs_entries (snd (insert_quota_for_binding b r q st)) = rs_entries st"
  by (auto simp: insert_quota_for_binding_def insert_quota_def insert_quota_subject_def
      insert_binding_quota_def split_beta Let_def split: sum.split)

lemma insert_quota_each_inv:
  "registry_inv st \<Longrightarrow> \<forall>(b, r) \<in> set rs. \<exists>e. map_of (rs_entries st) b = Some e \<and> re_registration e = r \<Longrightarrow>
     registry_inv (snd (insert_quota_each rs q changed st))"
proof (induction rs arbitrary: st changed)
  case (Cons p rs)
  obtain b r where p: "p = (b, r)" by (cases p)
  then obtain e where e: "map_of (rs_entries st) b = Some e" "re_registration e = r" using Cons.prems(2) by auto
  obtain res st' where i: "insert_quota_for_binding b r q st = (res, st')" by fastforce
  have "registry_inv st'" using insert_quota_for_binding_inv [OF Cons.prems(1) e(1), of q] e(2) i by simp
  moreover have "rs_entries st' = rs_entries st" using entries_insert_quota [of b r q st] i by simp
  ultimately show ?case using Cons.IH [of st'] Cons.prems(2) i p by (auto split: sum.split)
qed simp

lemma set_quota_snapshot_inv:
  assumes "registry_inv st"
  shows "registry_inv (snd (set_quota_snapshot c q st))"
proof -
  have "\<exists>e. map_of (rs_entries st) b = Some e \<and> re_registration e = r"
    if br: "(b, r) \<in> set (credential_registrations c st)" for b r
  proof -
    obtain x where x: "x \<in> set (rs_entries st)" "b = cr_binding (re_registration (snd x))"
      "r = re_registration (snd x)" using br by (auto simp: credential_registrations_def)
    then have "b = fst x" using assms by (auto simp: registry_inv_defs)
    then show ?thesis using x btree.mem_iff [OF registry_invD(1) [OF assms], of "fst x" "snd x"] by auto
  qed
  then show ?thesis
    using insert_quota_each_inv [OF assms, of "credential_registrations c st" q False] assms
    by (auto simp: set_quota_snapshot_def Let_def)
qed

lemma set_binding_quota_snapshot_inv:
  "registry_inv st \<Longrightarrow> registry_inv (snd (set_binding_quota_snapshot b q st))"
  using insert_quota_for_binding_inv by (auto simp: set_binding_quota_snapshot_def split: option.split)

lemma restore_quota_state_inv:
  "registry_inv st \<Longrightarrow> registry_inv (snd (restore_quota_state sha256 p now ms st))"
  using insert_quota_subject_inv
  by (auto simp: restore_quota_state_def persisted_subject_def split_beta Let_def
      split: sum.split option.split)

lemma restore_binding_quota_state_inv:
  "registry_inv st \<Longrightarrow> registry_inv (snd (restore_binding_quota_state b p now ms st))"
  using insert_quota_for_binding_inv
  by (auto simp: restore_binding_quota_state_def split: sum.split option.split)

lemma restore_affinity_inv:
  assumes "registry_inv st"
  shows "registry_inv (snd (restore_affinity clock k c p m l x st))"
proof (cases "find (\<lambda>e. cr_credential (re_registration (snd e)) = c) (rs_entries st)")
  case None
  then show ?thesis using assms by (simp add: restore_affinity_def)
next
  case (Some e)
  then have "e \<in> set (rs_entries st)" by (auto simp: find_Some_iff)
  then have "cr_binding (re_registration (snd e)) \<in> registered (purge_expired_affinity clock st)"
    using assms by (auto simp: registry_inv_defs registered_def purge_expired_affinity_def)
  then show ?thesis
    using Some by (simp add: restore_affinity_def insert_bounded_affinity_inv purge_expired_affinity_inv assms)
qed

lemma restore_affinity_binding_inv:
  assumes "registry_inv st"
  shows "registry_inv (snd (restore_affinity_binding clock k b p m l x st))"
proof -
  have "b \<in> registered (purge_expired_affinity clock st)" if "map_of (rs_entries st) b \<noteq> None"
    using that by (auto simp: registered_def purge_expired_affinity_def map_of_eq_None_iff)
  then show ?thesis
    using assms by (auto simp: restore_affinity_binding_def insert_bounded_affinity_inv purge_expired_affinity_inv)
qed

section \<open>Operations on the entries\<close>

lemma set_enabled_inv: "registry_inv st \<Longrightarrow> registry_inv (snd (set_enabled c v st))"
  unfolding set_enabled_def by (auto intro!: table_changes)

lemma set_binding_enabled_inv: "registry_inv st \<Longrightarrow> registry_inv (snd (set_binding_enabled b v st))"
  by (auto simp: set_binding_enabled_def map_modify_def intro!: table_changes)

lemma release_from_inv: "registry_inv st \<Longrightarrow> registry_inv (snd (release_from rv st))"
  by (auto simp: release_from_def map_modify_def intro!: table_changes)

lemma prune_refs:
  assumes "entries_ok st" "orders_ok st" "tables_ok st"
    "affinity_refs (registered st) (rs_affinity st)" "cursor_refs (registered st) (rs_round_robin st)"
    "smooth_refs (registered st) (rs_smooth_current st)"
    "\<forall>w \<in> set (rs_quotas st). qs_unit (snd w) = snd (fst w)"
    "\<forall>w \<in> set (rs_binding_quotas st). qs_unit (snd w) = snd (fst w)"
  shows "registry_inv (prune_orphan_quotas st)"
  using assms
  by (simp add: registry_inv_defs prune_orphan_quotas_def btree.ok_filter quota_refs_def)
    (simp add: registered_def)

lemma orders_ok_insert:
  assumes inv: "registry_inv st" and b: "cr_binding (re_registration e) = b"
    and n: "unat (rs_next_order st) \<le> unat n"
    and e: "case map_of (rs_entries st) b of
        Some old \<Rightarrow> re_order e = re_order old \<and> n = rs_next_order st
      | None \<Rightarrow> re_order e = rs_next_order st \<and> n = saturating_add (rs_next_order st) 1"
  shows "orders_ok (st\<lparr>rs_next_order := n, rs_entries := btree_insert b e (rs_entries st)\<rparr>)"
proof -
  let ?es = "rs_entries st" and ?f = "\<lambda>x :: binding_key \<times> registry_entry. re_order (snd x)"
  have ok: "btree_ok ?es" using inv by (rule registry_invD)
  have "(\<forall>x \<in> set (btree_insert b e ?es). ?f x < n) \<and> inj_on ?f (set (btree_insert b e ?es))"
    if small: "unat n < 2 ^ 64 - 1"
  proof -
    have o: "\<forall>x \<in> set ?es. ?f x < rs_next_order st" "inj_on ?f (set ?es)"
      using inv n small by (auto simp: registry_inv_defs distinct_map)
    have new: "re_order e < n \<and> (\<forall>x \<in> set ?es. fst x \<noteq> b \<longrightarrow> ?f x \<noteq> re_order e \<and> ?f x < n)"
    proof (cases "map_of ?es b")
      case None
      then have "unat n = unat (rs_next_order st) + 1"
        using e small by (auto simp: saturation min_def split: if_splits)
      then have "rs_next_order st < n" by (simp add: word_less_nat_alt)
      then show ?thesis using None e o(1) by (auto intro: less_trans)
    next
      case (Some old)
      then have "(b, old) \<in> set ?es" by (rule map_of_SomeD)
      moreover have "?f x \<noteq> re_order old" if "x \<in> set ?es" "fst x \<noteq> b" for x
        using inj_onD [OF o(2), of x "(b, old)"] that calculation by auto
      ultimately show ?thesis using Some e o(1) by auto
    qed
    then show ?thesis
      using o(2) by (auto simp: btree.set_insert [OF ok] inj_on_def)
  qed
  moreover have "distinct (btree_insert b e ?es)"
    using btree.ok_distinct [OF btree.ok_insert [OF ok]] by (simp add: distinct_map)
  ultimately show ?thesis by (simp add: orders_ok_def distinct_map)
qed

lemma register_inv:
  assumes inv: "registry_inv st" and r: "registration_ok r"
  shows "registry_inv (register r st)"
proof -
  let ?b = "cr_binding r" and ?old = "map_of (rs_entries st) (cr_binding r)"
  let ?n = "case ?old of Some e \<Rightarrow> rs_next_order st | None \<Rightarrow> saturating_add (rs_next_order st) 1"
  let ?e = "\<lparr>re_registration = r,
      re_enabled = (case ?old of Some e \<Rightarrow> re_enabled e | None \<Rightarrow> True),
      re_in_flight = (case ?old of Some e \<Rightarrow> re_in_flight e | None \<Rightarrow> 0),
      re_order = (case ?old of Some e \<Rightarrow> re_order e | None \<Rightarrow> rs_next_order st)\<rparr>"
  let ?st = "st\<lparr>rs_next_order := ?n, rs_entries := btree_insert ?b ?e (rs_entries st)\<rparr>"
  have ok: "btree_ok (rs_entries st)" using inv by (rule registry_invD)
  have "entries_ok ?st"
    using inv r by (auto simp: registry_inv_defs btree.ok_insert btree.set_insert)
  moreover have "unat (rs_next_order st) \<le> unat ?n"
    using unsigned_less [of "rs_next_order st", where 'a = nat] by (auto simp: saturation split: option.split)
  then have "orders_ok ?st"
    by (intro orders_ok_insert [OF inv]) (simp_all split: option.split)
  moreover have "registered st \<subseteq> registered ?st"
    using btree.keys_insert [OF ok] by (auto simp: registered_def simp del: set_map)
  note mono = refs_mono [OF this]
  moreover have "tables_ok ?st" using inv by (simp add: registry_inv_defs)
  ultimately have "registry_inv (prune_orphan_quotas ?st)"
    using mono(1) [OF registry_invD(9) [OF inv]] mono(2) [OF registry_invD(10) [OF inv]]
      mono(3) [OF registry_invD(11) [OF inv]] registry_invD(12,13) [OF inv]
    by (intro prune_refs) (simp_all add: quota_refs_def)
  then show ?thesis by (simp add: register_def Let_def)
qed

lemma forget_bindings_inv:
  assumes inv: "registry_inv st"
  shows "registry_inv (forget_bindings bs st)"
proof -
  let ?st = "st\<lparr>rs_entries := filter (\<lambda>e. fst e \<notin> set bs) (rs_entries st),
           rs_binding_quotas := filter (\<lambda>e. fst (fst e) \<notin> set bs) (rs_binding_quotas st),
           rs_affinity := filter (\<lambda>e. ab_binding (snd e) \<notin> set bs) (rs_affinity st),
           rs_smooth_current :=
             map (\<lambda>e. (fst e, filter (\<lambda>c. fst c \<notin> set bs) (snd e))) (rs_smooth_current st),
           rs_round_robin :=
             filter (\<lambda>e. \<not> list_ex (\<lambda>b. b \<in> set (snd (snd (fst e)))) bs) (rs_round_robin st)\<rparr>"
  note d = registry_invD [OF inv]
  have reg: "registered ?st = registered st - set bs" by (auto simp: registered_def)
  have "entries_ok ?st" using inv by (simp add: registry_inv_defs btree.ok_filter)
  moreover have "orders_ok ?st"
    using inv by (auto simp: registry_inv_defs distinct_map_filter)
  moreover have "btree_ok (rs_smooth_current ?st)"
    using d(6) by (simp add: btree_ok_def comp_def)
  then have "tables_ok ?st"
    using d by (simp add: tables_ok_def btree.ok_filter order_trans [OF length_filter_le])
  moreover have "cursor_refs (registered ?st) (rs_round_robin ?st)"
    using d(10) unfolding reg by (fastforce simp: cursor_refs_def list_ex_iff)
  moreover have "smooth_refs (registered ?st) (rs_smooth_current ?st)"
    using d(11) unfolding reg by (force simp: smooth_refs_def btree.ok_filter)
  moreover have "affinity_refs (registered ?st) (rs_affinity ?st)"
    using d(9) unfolding reg by (auto simp: affinity_refs_def)
  ultimately have "registry_inv (prune_orphan_quotas ?st)"
    using d(12,13) by (intro prune_refs) (auto simp: quota_refs_def)
  then show ?thesis by (simp add: forget_bindings_def)
qed

lemma register_model_alias_inv:
  "registry_inv st \<Longrightarrow> registry_inv (snd (register_model_alias a r st))"
  using register_alias_inv [of "rs_aliases st" a r] registry_invD(7) [of st]
  by (auto simp: register_model_alias_def split_beta Let_def intro!: table_changes)

lemma drop_reservation_inv: "registry_inv st \<Longrightarrow> registry_inv (drop_reservation rv st)"
  by (simp add: drop_reservation_def release_from_inv)

end
