(* ===== verification/Selection.thy ===== *)
theory Selection
  imports Candidates Registry_Invariant
begin

text \<open>
  Target selection (\<open>choose_index\<close>, \<open>select_from_state\<close>, \<open>select_with_health\<close> and
  \<open>recover_quota\<close> of \<open>pooler-policy/src/selection.rs\<close>). The source passes indices into the list
  of evaluations; the model passes the evaluations. A place where the source would panic is the
  result \<open>None\<close>.
\<close>

section \<open>Comparison of candidates\<close>

definition position_or_max :: "('a \<Rightarrow> bool) \<Rightarrow> 'a list \<Rightarrow> nat" where
  "position_or_max P xs = (case position P xs of Some i \<Rightarrow> i | None \<Rightarrow> usize_max)"

definition ordered_fallback_position :: "registration \<Rightarrow> selection_request \<Rightarrow> nat" where
  "ordered_fallback_position r req =
     (case position (\<lambda>b. b = cr_binding r) (sr_ordered_bindings req) of
        Some i \<Rightarrow> i
      | None \<Rightarrow> position_or_max (\<lambda>c. c = cr_credential r) (sr_ordered_credentials req))"

definition provider_position :: "selection_request \<Rightarrow> registration \<Rightarrow> nat" where
  "provider_position req r =
     (case sr_routing req of
        Some routing \<Rightarrow> position_or_max (\<lambda>p. p = cr_provider r) (rr_provider_order routing)
      | None \<Rightarrow> usize_max)"

definition target_position :: "selection_request \<Rightarrow> registration \<Rightarrow> nat" where
  "target_position req r =
     (case sr_routing req of
        Some routing \<Rightarrow> position_or_max (\<lambda>t. target_matches_registration t r) (rr_target_order routing)
      | None \<Rightarrow> usize_max)"

definition has_explicit_order :: "selection_request \<Rightarrow> bool" where
  "has_explicit_order req \<longleftrightarrow>
     (case sr_routing req of
        Some routing \<Rightarrow> rr_provider_order routing \<noteq> [] \<or> rr_target_order routing \<noteq> []
      | None \<Rightarrow> False)"

definition compare_configured_order ::
  "selection_request \<Rightarrow> registration \<Rightarrow> registration \<Rightarrow> ordering" where
  "compare_configured_order req l r =
     (if \<not> has_explicit_order req then Equal
      else then_with (then_with (cmp (provider_position req l) (provider_position req r))
             (cmp (target_position req l) (target_position req r)))
             (cmp (cr_binding l) (cr_binding r)))"

definition compare_metric :: "routing_metric \<Rightarrow> routing_metric \<Rightarrow> ordering" where
  "compare_metric l r =
     then_with (then_with (cmp (rm_known l) (rm_known r))
       (cmp (rm_meets_threshold l) (rm_meets_threshold r)))
       (if rm_lower_is_better l then cmp (rm_value r) (rm_value l) else cmp (rm_value l) (rm_value r))"

text \<open>The loop over the zipped metrics returns at the first one that differs.\<close>

fun compare_metrics :: "routing_metric list \<Rightarrow> routing_metric list \<Rightarrow> ordering" where
  "compare_metrics (l # ls) (r # rs) = then_with (compare_metric l r) (compare_metrics ls rs)"
| "compare_metrics ls rs = Equal"

definition compare_candidates ::
  "selection_request \<Rightarrow> candidate_evaluation \<Rightarrow> candidate_evaluation \<Rightarrow> ordering" where
  "compare_candidates req l r =
     then_with (compare_metrics (ev_metrics l) (ev_metrics r))
       (then_with (then_with (then_with
         (cmp (provider_position req (ev_registration r)) (provider_position req (ev_registration l)))
         (cmp (target_position req (ev_registration r)) (target_position req (ev_registration l))))
         (cmp (re_order (ev_entry r)) (re_order (ev_entry l))))
         (cmp (cr_binding (ev_registration r)) (cr_binding (ev_registration l))))"

definition compare_fallback ::
  "selection_request \<Rightarrow> candidate_evaluation \<Rightarrow> candidate_evaluation \<Rightarrow> ordering" where
  "compare_fallback req l r =
     then_with (then_with
       (cmp (ordered_fallback_position (ev_registration l) req)
            (ordered_fallback_position (ev_registration r) req))
       (compare_configured_order req (ev_registration l) (ev_registration r)))
       (cmp (re_order (ev_entry l)) (re_order (ev_entry r)))"

definition compare_in_flight ::
  "selection_request \<Rightarrow> candidate_evaluation \<Rightarrow> candidate_evaluation \<Rightarrow> ordering" where
  "compare_in_flight req l r =
     then_with (then_with (then_with
       (cmp (re_in_flight (ev_entry l)) (re_in_flight (ev_entry r)))
       (cmp (re_order (ev_entry l)) (re_order (ev_entry r))))
       (compare_configured_order req (ev_registration l) (ev_registration r)))
       (cmp (cr_binding (ev_registration l)) (cr_binding (ev_registration r)))"

text \<open>\<open>weight(left) / (in_flight(left) + 1)\<close> against the same of \<open>right\<close>, by cross products in
  \<open>u64\<close>.\<close>

definition weight_product :: "candidate_evaluation \<Rightarrow> candidate_evaluation \<Rightarrow> u64" where
  "weight_product l r =
     saturating_mul (ucast (effective_weight (ev_registration l)))
       (ucast (saturating_add (re_in_flight (ev_entry r)) 1))"

definition compare_health_weighted ::
  "selection_request \<Rightarrow> candidate_evaluation \<Rightarrow> candidate_evaluation \<Rightarrow> ordering" where
  "compare_health_weighted req l r =
     then_with (then_with (then_with
       (cmp (weight_product l r) (weight_product r l))
       (cmp (re_order (ev_entry r)) (re_order (ev_entry l))))
       (compare_configured_order req (ev_registration r) (ev_registration l)))
       (cmp (cr_binding (ev_registration r)) (cr_binding (ev_registration l)))"

section \<open>Strategies\<close>

text \<open>\<open>i64\<close> arithmetic that saturates at both ends.\<close>

definition i64_clamp :: "int \<Rightarrow> int" where
  "i64_clamp x = max (- (2 ^ 63)) (min (2 ^ 63 - 1) x)"

definition binding_scope :: "candidate_evaluation list \<Rightarrow> binding_key list" where
  "binding_scope eligible = btree_set_of (map (\<lambda>c. cr_binding (ev_registration c)) eligible)"

definition choose_round_robin ::
  "selection_request \<Rightarrow> candidate_evaluation list \<Rightarrow> registry_state \<Rightarrow>
     (candidate_evaluation \<times> registry_state) option" where
  "choose_round_robin req eligible st =
     (if eligible = [] then None
      else
        let key = (sr_model req, sr_pool_id req, binding_scope eligible);
            cursor = (case map_of (rs_round_robin st) key of Some c \<Rightarrow> c | None \<Rightarrow> 0)
        in Some (eligible ! (cursor mod length eligible),
                 st\<lparr>rs_round_robin :=
                      btree_insert key (min (cursor + 1) usize_max) (rs_round_robin st)\<rparr>))"

text \<open>One round of the weighting loop: the running total and the current weights.\<close>

definition smooth_add ::
  "candidate_evaluation \<Rightarrow> int \<times> (binding_key \<times> int) list \<Rightarrow> int \<times> (binding_key \<times> int) list" where
  "smooth_add c acc =
     (let weight = int (unat (effective_weight (ev_registration c)));
          b = cr_binding (ev_registration c);
          previous = (case map_of (snd acc) b of Some v \<Rightarrow> v | None \<Rightarrow> 0)
      in (i64_clamp (fst acc + weight), btree_insert b (i64_clamp (previous + weight)) (snd acc)))"

definition compare_smooth ::
  "selection_request \<Rightarrow> (binding_key \<times> int) list \<Rightarrow> candidate_evaluation \<Rightarrow> candidate_evaluation \<Rightarrow> ordering" where
  "compare_smooth req current l r =
     then_with (then_with
       (cmp (map_of current (cr_binding (ev_registration l))) (map_of current (cr_binding (ev_registration r))))
       (cmp (re_order (ev_entry r)) (re_order (ev_entry l))))
       (compare_configured_order req (ev_registration r) (ev_registration l))"

definition choose_smooth ::
  "selection_request \<Rightarrow> candidate_evaluation list \<Rightarrow> registry_state \<Rightarrow>
     (candidate_evaluation \<times> registry_state) option" where
  "choose_smooth req eligible st =
     (let key = (sr_model req, sr_pool_id req);
          initial = (case map_of (rs_smooth_current st) key of Some c \<Rightarrow> c | None \<Rightarrow> []);
          (total_weight, current) = fold smooth_add eligible (0, initial)
      in case max_by (compare_smooth req current) eligible of
           None \<Rightarrow> None
         | Some selected \<Rightarrow>
             Some (selected,
               st\<lparr>rs_smooth_current :=
                    btree_insert key
                      (map_modify (cr_binding (ev_registration selected))
                        (\<lambda>v. i64_clamp (v - total_weight)) current)
                      (rs_smooth_current st)\<rparr>))"

definition choose_index ::
  "selection_request \<Rightarrow> candidate_evaluation list \<Rightarrow> registry_state \<Rightarrow>
     (candidate_evaluation \<times> registry_state) option" where
  "choose_index req eligible st =
     (if (case sr_routing req of Some routing \<Rightarrow> adaptive routing | None \<Rightarrow> False)
      then map_option (\<lambda>c. (c, st)) (max_by (compare_candidates req) eligible)
      else case sr_strategy req of
        RoundRobin \<Rightarrow> choose_round_robin req eligible st
      | SmoothWeightedRoundRobin \<Rightarrow> choose_smooth req eligible st
      | FillFirst \<Rightarrow> (case eligible of [] \<Rightarrow> None | c # cs \<Rightarrow> Some (c, st))
      | OrderedFallback \<Rightarrow> map_option (\<lambda>c. (c, st)) (min_by (compare_fallback req) eligible)
      | LeastInFlight \<Rightarrow> map_option (\<lambda>c. (c, st)) (min_by (compare_in_flight req) eligible)
      | HealthWeighted \<Rightarrow> map_option (\<lambda>c. (c, st)) (max_by (compare_health_weighted req) eligible))"

section \<open>Selection\<close>

definition explain_candidate ::
  "(string \<Rightarrow> string) \<Rightarrow> selection_strategy \<Rightarrow> candidate_evaluation \<Rightarrow> candidate_explanation" where
  "explain_candidate sha256 strategy c =
     (let target = registration_target sha256 (ev_registration c) in
      if ev_reasons c = [] then candidate_eligible target (ev_score strategy c)
      else \<lparr>ce_target = target, ce_score = None, ce_filter_reasons = ev_reasons c\<rparr>)"

definition explain_candidates ::
  "(string \<Rightarrow> string) \<Rightarrow> selection_request \<Rightarrow> model_id \<Rightarrow> candidate_evaluation list \<Rightarrow>
     selection_explanation" where
  "explain_candidates sha256 req resolved evaluations =
     fold (\<lambda>c. push_candidate (explain_candidate sha256 (sr_strategy req) c)) evaluations
       (explanation_new
         (if resolved = sr_model req then alias_exact (sr_model req)
          else alias_alias (sr_model req) resolved)
         (sr_attempt req) (sr_configuration_generation req))"

definition best_priority :: "candidate_evaluation list \<Rightarrow> u32" where
  "best_priority eligible = min_list (map (\<lambda>c. cr_priority (ev_registration c)) eligible)"

definition best_tier :: "candidate_evaluation list \<Rightarrow> candidate_evaluation list" where
  "best_tier eligible =
     filter (\<lambda>c. cr_priority (ev_registration c) = best_priority eligible) eligible"

definition affinity_matches :: "affinity_binding \<Rightarrow> candidate_evaluation \<Rightarrow> bool" where
  "affinity_matches a c \<longleftrightarrow>
     cr_binding (ev_registration c) = ab_binding a \<and> cr_provider (ev_registration c) = ab_provider a
     \<and> cr_model (ev_registration c) = ab_model a"

definition affinity_expiry :: "selection_request \<Rightarrow> instant" where
  "affinity_expiry req =
     (case instant_checked_add (sr_now req) (sr_affinity_ttl req) of
        Some t \<Rightarrow> t | None \<Rightarrow> sr_now req)"

definition unavailable_target :: "(string \<Rightarrow> string) \<Rightarrow> affinity_binding \<Rightarrow> selection_target" where
  "unavailable_target sha256 a =
     (selection_target_new (ab_provider a) (ab_model a)
        (credential_pseudonym sha256 (bk_account (ab_binding a))))
       \<lparr>st_target_id := Some (bk_target (ab_binding a)),
        st_binding_pseudonym := Some (binding_pseudonym sha256 (ab_binding a))\<rparr>"

text \<open>What the affinity block leaves: a pinned candidate, a refusal, or a free choice with the
  provider the key was bound to before.\<close>

datatype affinity_outcome =
    AffinityPinned candidate_evaluation selection_explanation registry_state
  | AffinityRefused selection_explanation
  | AffinityFree "provider_id option" selection_explanation

definition consult_affinity ::
  "(string \<Rightarrow> string) \<Rightarrow> selection_request \<Rightarrow> candidate_evaluation list \<Rightarrow> candidate_evaluation list \<Rightarrow>
     u32 \<Rightarrow> selection_explanation \<Rightarrow> registry_state \<Rightarrow> affinity_outcome" where
  "consult_affinity sha256 req evaluations tier priority explanation st =
     (case sr_affinity_key req of
        None \<Rightarrow> AffinityFree None explanation
      | Some key \<Rightarrow>
          (case map_of (rs_affinity st) key of
             None \<Rightarrow> AffinityFree None (set_affinity (NoMatch key) explanation)
           | Some a \<Rightarrow>
               (case find (affinity_matches a) tier of
                  Some c \<Rightarrow>
                    AffinityPinned c
                      (set_affinity (Matched key (registration_target sha256 (ev_registration c))) explanation)
                      (st\<lparr>rs_affinity := map_modify key
                           (\<lambda>b. b\<lparr>ab_last_used_at := sr_now req, ab_expires_at := affinity_expiry req\<rparr>)
                           (rs_affinity st)\<rparr>)
                | None \<Rightarrow>
                    if \<not> sr_affinity_rebind req
                       \<and> \<not> list_ex (\<lambda>c. cr_binding (ev_registration c) = ab_binding a
                                       \<and> cr_priority (ev_registration c) > priority) evaluations
                    then AffinityRefused
                           (set_affinity (Unavailable key (unavailable_target sha256 a)) explanation)
                    else AffinityFree (Some (ab_provider a)) explanation)))"

text \<open>The end of \<open>select_from_state\<close>: reserve a slot, explain, bind the affinity key.\<close>

definition commit_selection ::
  "(string \<Rightarrow> string) \<Rightarrow> nat \<Rightarrow> selection_request \<Rightarrow> provider_id option \<Rightarrow> candidate_evaluation \<Rightarrow>
     selection_explanation \<Rightarrow> registry_state \<Rightarrow> selection_lease \<times> registry_state" where
  "commit_selection sha256 owner req rebound selected explanation st =
     (let r = ev_registration selected;
          b = cr_binding r;
          target = registration_target sha256 r;
          st = st\<lparr>rs_entries :=
                 map_modify b (\<lambda>e. e\<lparr>re_in_flight := saturating_add (re_in_flight e) 1\<rparr>) (rs_entries st)\<rparr>;
          explanation = set_selected target (Some (ev_score (sr_strategy req) selected)) explanation;
          explanation =
            (case (sr_affinity_key req, rebound) of
               (Some key, Some previous) \<Rightarrow> set_affinity (Rebound key previous target) explanation
             | _ \<Rightarrow> explanation);
          st = (case sr_affinity_key req of
                  None \<Rightarrow> st
                | Some key \<Rightarrow>
                    snd (insert_bounded_affinity key
                      \<lparr>ab_binding = b, ab_provider = cr_provider r, ab_model = cr_model r,
                       ab_last_used_at = sr_now req, ab_expires_at = affinity_expiry req\<rparr> st))
      in (\<lparr>sl_registration = r, sl_explanation = explanation,
           sl_reservation = Some
             \<lparr>rv_binding = b, rv_credential = cr_credential r,
              rv_registration_order = re_order (ev_entry selected), rv_owner = owner,
              rv_released = False\<rparr>\<rparr>, st))"

definition select_from_state ::
  "(string \<Rightarrow> string) \<Rightarrow> nat \<Rightarrow> health_registry \<Rightarrow> selection_request \<Rightarrow> registry_state \<Rightarrow>
     ((selection_error + selection_lease) \<times> registry_state) option" where
  "select_from_state sha256 owner h req st =
     (if sr_affinity_ttl req = 0 then Some (Inl ZeroAffinityTtl, st)
      else
        let st = recover_quotas (sr_now req) (purge_expired_affinity (sr_now req) st);
            resolved = resolve_model (rs_aliases st) (sr_model req);
            resolved_request = req\<lparr>sr_model := resolved\<rparr>;
            evaluations = evaluate_candidates st h resolved_request;
            explanation = explain_candidates sha256 req resolved evaluations;
            eligible = filter (\<lambda>c. ev_reasons c = []) evaluations
        in
        if eligible = [] then Some (Inl (NoEligible (sr_model req) explanation), st)
        else
          case consult_affinity sha256 req evaluations (best_tier eligible) (best_priority eligible)
                 explanation st of
            AffinityRefused explanation' \<Rightarrow> Some (Inl (NoEligible (sr_model req) explanation'), st)
          | AffinityPinned c explanation' st' \<Rightarrow>
              (let (lease, st'') = commit_selection sha256 owner req None c explanation' st'
               in Some (Inr lease, st''))
          | AffinityFree rebound explanation' \<Rightarrow>
              (case choose_index resolved_request (best_tier eligible) st of
                 None \<Rightarrow> None
               | Some (c, st') \<Rightarrow>
                   (let (lease, st'') = commit_selection sha256 owner req rebound c explanation' st'
                    in Some (Inr lease, st''))))"

definition select_with_health ::
  "(string \<Rightarrow> string) \<Rightarrow> selection_request \<Rightarrow> health_registry \<Rightarrow> credential_registry \<Rightarrow>
     ((selection_error + selection_lease) \<times> credential_registry) option" where
  "select_with_health sha256 req h rg =
     map_option (\<lambda>(res, st). (res, rg\<lparr>rg_state := st\<rparr>))
       (select_from_state sha256 (rg_identity rg) h req (rg_state rg))"

definition select ::
  "(string \<Rightarrow> string) \<Rightarrow> selection_request \<Rightarrow> credential_registry \<Rightarrow>
     ((selection_error + selection_lease) \<times> credential_registry) option" where
  "select sha256 req rg = select_with_health sha256 req (rg_health rg) rg"

section \<open>Quota recovery\<close>

record quota_recovery_result =
  qr_health_mutation :: health_mutation
  qr_retry_decision :: retry_decision
  qr_selection :: "selection_lease option"
  qr_no_eligible :: "selection_explanation option"

text \<open>Dropping a lease releases its reservation in the registry that granted it.\<close>

definition drop_lease :: "selection_lease \<Rightarrow> credential_registry \<Rightarrow> credential_registry" where
  "drop_lease l rg =
     (case sl_reservation l of
        Some rv \<Rightarrow>
          if rv_owner rv = rg_identity rg then rg\<lparr>rg_state := drop_reservation rv (rg_state rg)\<rparr> else rg
      | None \<Rightarrow> rg)"

definition quota_target_change :: "quota_scope \<Rightarrow> retry_target_change" where
  "quota_target_change scope =
     (if scope \<in> {QProvider, QProviderModel} then DifferentProvider else DifferentCredential)"

text \<open>The part of \<open>recover_quota\<close> under both locks, for a reservation of this registry.\<close>

definition rotate_account ::
  "(string \<Rightarrow> string) \<Rightarrow> selection_reservation \<Rightarrow> registration \<Rightarrow> failure_classification \<Rightarrow>
     quota_snapshot \<Rightarrow> selection_request \<Rightarrow> retry_policy \<Rightarrow> retry_context \<Rightarrow> credential_registry \<Rightarrow>
     ((selection_error + quota_recovery_result) \<times> credential_registry) option" where
  "rotate_account sha256 rv failed f snapshot req policy ctx rg =
     (let owns = (case map_of (rs_entries (rg_state rg)) (rv_binding rv) of
                    Some e \<Rightarrow> re_order e = rv_registration_order rv \<and> re_registration e = failed
                  | None \<Rightarrow> False);
          st = snd (release_from rv (rg_state rg))
      in
      if \<not> owns then Some (Inl StaleLease, rg\<lparr>rg_state := st\<rparr>)
      else
        case insert_quota_for_binding (rv_binding rv) failed snapshot
               (recover_quotas (sr_now req) (purge_expired_affinity (sr_now req) st)) of
          (Inl e, st') \<Rightarrow> Some (Inl e, rg\<lparr>rg_state := st'\<rparr>)
        | (Inr False, st') \<Rightarrow> Some (Inl StaleQuotaObservation, rg\<lparr>rg_state := st'\<rparr>)
        | (Inr True, st') \<Rightarrow>
            (case apply_failure f
                    \<lparr>hs_credential = Some (cr_credential failed), hs_model = Some (cr_model failed),
                     hs_provider = Some (cr_provider failed), hs_route = sr_route req,
                     hs_binding = Some (rv_binding rv)\<rparr> (sr_now req) (rg_health rg) of
               None \<Rightarrow> None
             | Some (mutation, h) \<Rightarrow>
                 (let decision = decide policy f ctx in
                  if \<not> is_retry decision
                  then Some (Inr \<lparr>qr_health_mutation = mutation, qr_retry_decision = decision,
                                  qr_selection = None, qr_no_eligible = None\<rparr>,
                             rg\<lparr>rg_state := st', rg_health := h\<rparr>)
                  else
                    case select_from_state sha256 (rg_identity rg) h req st' of
                      None \<Rightarrow> None
                    | Some (Inr lease, st'') \<Rightarrow>
                        Some (Inr \<lparr>qr_health_mutation = mutation, qr_retry_decision = decision,
                                   qr_selection = Some lease, qr_no_eligible = None\<rparr>,
                              rg\<lparr>rg_state := st'', rg_health := h\<rparr>)
                    | Some (Inl (NoEligible m explanation), st'') \<Rightarrow>
                        Some (Inr \<lparr>qr_health_mutation = mutation,
                                   qr_retry_decision = DoNotRetry StopNoAlternateTarget,
                                   qr_selection = None, qr_no_eligible = Some explanation\<rparr>,
                              rg\<lparr>rg_state := st'', rg_health := h\<rparr>)
                    | Some (Inl e, st'') \<Rightarrow> Some (Inl e, rg\<lparr>rg_state := st'', rg_health := h\<rparr>))))"

definition recover_quota ::
  "(string \<Rightarrow> string) \<Rightarrow> selection_lease \<Rightarrow> quota_classification \<Rightarrow> selection_request \<Rightarrow> retry_policy \<Rightarrow>
     retry_context \<Rightarrow> credential_registry \<Rightarrow>
     ((selection_error + quota_recovery_result) \<times> credential_registry) option" where
  "recover_quota sha256 failed cl req policy ctx rg =
     (case qc_failure cl of
        None \<Rightarrow> Some (Inl QuotaNotExhausted, drop_lease failed rg)
      | Some f \<Rightarrow>
          if \<not> qc_exhausted cl (sr_now req)
          then Some (Inl QuotaNotExhausted, drop_lease failed rg)
          else
            case sl_reservation failed of
              None \<Rightarrow> None
            | Some rv \<Rightarrow>
                if rv_owner rv \<noteq> rg_identity rg then Some (Inl ForeignLease, rg)
                else
                  rotate_account sha256 rv (sl_registration failed) f (qc_snapshot cl)
                    (req\<lparr>sr_excluded_bindings := btree_set_of (rv_binding rv # sr_excluded_bindings req)\<rparr>)
                    policy
                    (with_target_change (quota_target_change (qs_scope (qc_snapshot cl))) ctx)
                    rg)"

end
