(* ===== verification/Selection_Correct.thy ===== *)
theory Selection_Correct
  imports Selection
begin

text \<open>
  What selection guarantees: it never panics, it grants a target exactly when one is eligible and
  affinity does not forbid the choice, the target it grants is eligible and in the best priority
  tier, and its only effects are the reserved slot, the strategy cursors, the affinity entry and
  the expiry of old windows.
\<close>

section \<open>The choice of a strategy\<close>

lemma choose_round_robin_Some:
  "eligible \<noteq> [] \<Longrightarrow> \<exists>c st'. choose_round_robin req eligible st = Some (c, st') \<and> c \<in> set eligible"
  by (auto simp: choose_round_robin_def Let_def)

lemma choose_smooth_Some:
  assumes "eligible \<noteq> []"
  shows "\<exists>c st'. choose_smooth req eligible st = Some (c, st') \<and> c \<in> set eligible"
  using max_by_Some [OF assms] max_by_mem
  by (fastforce simp: choose_smooth_def Let_def split_beta split: option.split)

lemma choose_index_Some:
  assumes "eligible \<noteq> []"
  shows "\<exists>c st'. choose_index req eligible st = Some (c, st') \<and> c \<in> set eligible"
proof -
  have max: "\<exists>c. max_by f eligible = Some c \<and> c \<in> set eligible" for f
    using max_by_Some [OF assms] max_by_mem by metis
  have min: "\<exists>c. min_by f eligible = Some c \<and> c \<in> set eligible" for f
    using min_by_Some [OF assms] min_by_mem by metis
  show ?thesis
    using max min choose_round_robin_Some [OF assms] choose_smooth_Some [OF assms] assms
    unfolding choose_index_def by (auto split: option.split selection_strategy.split list.split)
qed

text \<open>A choice changes the strategy cursors and nothing else.\<close>

lemma choose_index_frame:
  assumes "choose_index req eligible st = Some (c, st')"
  obtains rr sm where "st' = st\<lparr>rs_round_robin := rr, rs_smooth_current := sm\<rparr>"
proof -
  have "st' = st\<lparr>rs_round_robin := rs_round_robin st', rs_smooth_current := rs_smooth_current st'\<rparr>"
    using assms unfolding choose_index_def choose_round_robin_def choose_smooth_def Let_def split_beta
    by (auto split: option.splits selection_strategy.splits list.splits if_splits)
  then show ?thesis by (rule that)
qed

lemma fold_smooth_keys:
  "btree_ok (snd acc) \<Longrightarrow> btree_ok (snd (fold smooth_add es acc))
     \<and> set (keys (snd (fold smooth_add es acc)))
         = set (keys (snd acc)) \<union> (\<lambda>c. cr_binding (ev_registration c)) ` set es"
proof (induction es arbitrary: acc)
  case (Cons c es)
  have ok: "btree_ok (snd (smooth_add c acc))"
    using Cons.prems by (simp add: smooth_add_def Let_def btree.ok_insert)
  moreover have "set (keys (snd (smooth_add c acc))) = insert (cr_binding (ev_registration c)) (set (keys (snd acc)))"
    using btree.keys_insert [OF Cons.prems] by (simp add: smooth_add_def Let_def del: set_map)
  ultimately show ?case using Cons.IH [OF ok] by (auto simp del: set_map)
qed simp

lemma refs_insert:
  "cursor_refs K rr \<Longrightarrow> set scope \<subseteq> K \<Longrightarrow> cursor_refs K (btree_insert (m, p, scope) n rr)"
  "smooth_refs K sm \<Longrightarrow> btree_ok cur \<Longrightarrow> set (keys cur) \<subseteq> K \<Longrightarrow> smooth_refs K (btree_insert key cur sm)"
proof -
  show "cursor_refs K rr \<Longrightarrow> set scope \<subseteq> K \<Longrightarrow> cursor_refs K (btree_insert (m, p, scope) n rr)"
    unfolding cursor_refs_def by (auto dest!: subsetD [OF set_btree_insert_subset])
  show "smooth_refs K sm \<Longrightarrow> btree_ok cur \<Longrightarrow> set (keys cur) \<subseteq> K \<Longrightarrow> smooth_refs K (btree_insert key cur sm)"
    unfolding smooth_refs_def
    by (intro ballI, drule subsetD [OF set_btree_insert_subset]) (auto simp del: set_map)
qed

lemma choose_round_robin_inv:
  assumes inv: "registry_inv st" and el: "\<forall>c \<in> set eligible. cr_binding (ev_registration c) \<in> registered st"
    and "choose_round_robin req eligible st = Some (c, st')"
  shows "registry_inv st'"
proof -
  have "set (binding_scope eligible) \<subseteq> registered st"
    using el by (auto simp: binding_scope_def btree_set_of_def)
  then have "cursor_refs (registered st) (btree_insert (m, p, binding_scope eligible) n (rs_round_robin st))" for m p n
    by (rule refs_insert(1) [OF registry_invD(10) [OF inv]])
  then show ?thesis
    using assms(3) inv registry_invD(5) [OF inv]
    by (auto simp: choose_round_robin_def Let_def btree.ok_insert split: if_splits intro!: table_changes)
qed

lemma choose_smooth_inv:
  assumes inv: "registry_inv st" and el: "\<forall>c \<in> set eligible. cr_binding (ev_registration c) \<in> registered st"
    and ch: "choose_smooth req eligible st = Some (c, st')"
  shows "registry_inv st'"
proof -
  let ?key = "(sr_model req, sr_pool_id req)"
  let ?init = "case map_of (rs_smooth_current st) ?key of Some c \<Rightarrow> c | None \<Rightarrow> []"
  let ?acc = "fold smooth_add eligible (0, ?init)"
  have "btree_ok ?init \<and> set (keys ?init) \<subseteq> registered st"
  proof (cases "map_of (rs_smooth_current st) ?key")
    case (Some m)
    then have "(?key, m) \<in> set (rs_smooth_current st)" by (rule map_of_SomeD)
    then show ?thesis using registry_invD(11) [OF inv] Some unfolding smooth_refs_def by fastforce
  qed simp
  then have cur: "btree_ok (snd ?acc)" "set (keys (snd ?acc)) \<subseteq> registered st"
    using fold_smooth_keys [of "(0, ?init)" eligible] el by (auto simp del: set_map)
  have "smooth_refs (registered st) (btree_insert ?key (map_modify b f (snd ?acc)) (rs_smooth_current st))" for b f
    using cur by (intro refs_insert(2) registry_invD(11) [OF inv] btree.ok_modify)
      (simp_all only: keys_modify)
  then show ?thesis
    using ch inv registry_invD(6) [OF inv]
    by (auto simp: choose_smooth_def Let_def split_beta btree.ok_insert split: option.splits intro!: table_changes)
qed

lemma choose_index_inv:
  assumes "registry_inv st" "\<forall>c \<in> set eligible. cr_binding (ev_registration c) \<in> registered st"
    "choose_index req eligible st = Some (c, st')"
  shows "registry_inv st'"
  using assms(3) choose_round_robin_inv [OF assms(1,2)] choose_smooth_inv [OF assms(1,2)] assms(1)
  unfolding choose_index_def by (auto split: option.splits selection_strategy.splits list.splits if_splits)

section \<open>Preparation\<close>

text \<open>The state after expired affinity entries and quota windows are gone.\<close>

definition prepared :: "instant \<Rightarrow> registry_state \<Rightarrow> registry_state" where
  "prepared now st = recover_quotas now (purge_expired_affinity now st)"

lemma prepared_simps [simp]:
  "rs_entries (prepared now st) = rs_entries st" "rs_aliases (prepared now st) = rs_aliases st"
  "rs_affinity (prepared now st) = filter (\<lambda>e. \<not> affinity_expired_at (snd e) now) (rs_affinity st)"
  by (simp_all add: prepared_def recover_quotas_def purge_expired_affinity_def)

lemma prepared_inv: "registry_inv st \<Longrightarrow> registry_inv (prepared now st)"
  by (simp add: prepared_def recover_quotas_inv purge_expired_affinity_inv)

lemma expired_not_exhausted: "qs_expired_at q now \<Longrightarrow> \<not> qs_exhausted q now"
  by (simp add: qs_expired_at_def qs_exhausted_def)

lemma exhausted_filter:
  "list_ex (\<lambda>w. P (fst (fst w)) \<and> qs_exhausted (snd w) now) (filter (\<lambda>e. \<not> qs_expired_at (snd e) now) m)
     = list_ex (\<lambda>w. P (fst (fst w)) \<and> qs_exhausted (snd w) now) m"
  by (induction m) (auto dest: expired_not_exhausted)

lemma quota_blocked_prepared: "quota_blocked (prepared now st) r now = quota_blocked st r now"
  using exhausted_filter [of "\<lambda>s. subject_matches s r" now "rs_quotas st"]
    exhausted_filter [of "\<lambda>b. b = cr_binding r" now "rs_binding_quotas st"]
  by (simp add: quota_blocked_def prepared_def recover_quotas_def purge_expired_affinity_def)

lemma eligible_prepared:
  "sr_now req = now \<Longrightarrow> eligible_entry (prepared now st) h req e = eligible_entry st h req e"
  by (simp add: eligible_entry_def quota_blocked_prepared)

section \<open>The candidates of a request\<close>

definition resolved_request :: "selection_request \<Rightarrow> registry_state \<Rightarrow> selection_request" where
  "resolved_request req st = req\<lparr>sr_model := resolve_model (rs_aliases st) (sr_model req)\<rparr>"

definition candidates ::
  "health_registry \<Rightarrow> selection_request \<Rightarrow> registry_state \<Rightarrow> candidate_evaluation list" where
  "candidates h req st = evaluate_candidates (prepared (sr_now req) st) h (resolved_request req st)"

definition eligible_candidates ::
  "health_registry \<Rightarrow> selection_request \<Rightarrow> registry_state \<Rightarrow> candidate_evaluation list" where
  "eligible_candidates h req st = filter (\<lambda>c. ev_reasons c = []) (candidates h req st)"

lemma map_ev_entry: "map ev_entry (evaluate_candidates st h req) = sorted_entries st"
  by (simp add: evaluate_candidates_def Let_def evaluate_entry_def comp_def)

lemma request_ok_resolved: "request_ok req \<Longrightarrow> request_ok (resolved_request req st)"
  by (simp add: request_ok_def resolved_request_def)

lemma mem_eligible_candidates:
  assumes "request_ok req" "c \<in> set (eligible_candidates h req st)"
  shows "eligible_entry st h (resolved_request req st) (ev_entry c)" "ev_entry c \<in> snd ` set (rs_entries st)"
proof -
  let ?st = "prepared (sr_now req) st" and ?r = "resolved_request req st"
  obtain e where e: "e \<in> set (sorted_entries ?st)"
    "c = evaluate_entry ?st h ?r (fallback_priority_of (sorted_entries ?st) ?r) e" "ev_reasons c = []"
    using assms(2) by (auto simp: eligible_candidates_def candidates_def evaluate_candidates_def Let_def)
  then have c: "ev_entry c = e" by (simp add: evaluate_entry_def Let_def)
  then have "eligible_entry ?st h ?r (ev_entry c)"
    using e evaluate_entry_Nil [OF request_ok_resolved [OF assms(1)]] by metis
  then show "eligible_entry st h ?r (ev_entry c)"
    by (subst (asm) eligible_prepared) (simp_all add: resolved_request_def)
  show "ev_entry c \<in> snd ` set (rs_entries st)"
    using e(1) c by (simp add: set_sorted_entries)
qed

lemma eligible_candidates_complete:
  assumes "request_ok req" "(b, e) \<in> set (rs_entries st)"
    "eligible_entry st h (resolved_request req st) e"
  obtains c where "c \<in> set (eligible_candidates h req st)" "ev_entry c = e"
proof -
  let ?st = "prepared (sr_now req) st" and ?r = "resolved_request req st"
  let ?c = "evaluate_entry ?st h ?r (fallback_priority_of (sorted_entries ?st) ?r) e"
  have "e \<in> set (sorted_entries ?st)" using assms(2) by (force simp: set_sorted_entries)
  moreover have "eligible_entry ?st h ?r e"
    using assms(3) by (subst eligible_prepared) (simp_all add: resolved_request_def)
  then have "ev_reasons ?c = []" using evaluate_entry_Nil [OF request_ok_resolved [OF assms(1)]] by blast
  ultimately have "?c \<in> set (eligible_candidates h req st)"
    by (auto simp: eligible_candidates_def candidates_def evaluate_candidates_def Let_def)
  then show ?thesis by (rule that) (simp add: evaluate_entry_def Let_def)
qed

lemma best_priority_Min:
  "el \<noteq> [] \<Longrightarrow> best_priority el = Min ((\<lambda>c. cr_priority (ev_registration c)) ` set el)"
  by (simp add: best_priority_def min_list_Min)

lemma best_tier_nonempty: "el \<noteq> [] \<Longrightarrow> best_tier el \<noteq> []"
proof -
  assume "el \<noteq> []"
  then have "best_priority el \<in> (\<lambda>c. cr_priority (ev_registration c)) ` set el"
    by (simp add: best_priority_Min)
  then show ?thesis by (auto simp: best_tier_def filter_empty_conv)
qed

lemma best_tier_least:
  "c \<in> set (best_tier el) \<Longrightarrow> d \<in> set el \<Longrightarrow> cr_priority (ev_registration c) \<le> cr_priority (ev_registration d)"
  using best_priority_Min [of el] by (cases "el = []") (auto simp: best_tier_def)

lemma best_tier_subset: "set (best_tier el) \<subseteq> set el"
  by (auto simp: best_tier_def)

lemma best_tier_complete:
  "c \<in> set el \<Longrightarrow> (\<And>d. d \<in> set el \<Longrightarrow> cr_priority (ev_registration c) \<le> cr_priority (ev_registration d)) \<Longrightarrow>
     c \<in> set (best_tier el)"
proof -
  assume c: "c \<in> set el" and least: "\<And>d. d \<in> set el \<Longrightarrow> cr_priority (ev_registration c) \<le> cr_priority (ev_registration d)"
  then have "best_priority el = cr_priority (ev_registration c)"
    by (subst best_priority_Min) (auto intro!: Min_eqI)
  then show ?thesis using c by (simp add: best_tier_def)
qed

section \<open>The selection step\<close>

abbreviation explanation_of ::
  "(string \<Rightarrow> string) \<Rightarrow> health_registry \<Rightarrow> selection_request \<Rightarrow> registry_state \<Rightarrow> selection_explanation" where
  "explanation_of sha256 h req st \<equiv>
     explain_candidates sha256 req (sr_model (resolved_request req st)) (candidates h req st)"

abbreviation affinity_of ::
  "(string \<Rightarrow> string) \<Rightarrow> health_registry \<Rightarrow> selection_request \<Rightarrow> registry_state \<Rightarrow> affinity_outcome" where
  "affinity_of sha256 h req st \<equiv>
     consult_affinity sha256 req (candidates h req st) (best_tier (eligible_candidates h req st))
       (best_priority (eligible_candidates h req st)) (explanation_of sha256 h req st)
       (prepared (sr_now req) st)"

lemma select_unfold:
  "select_from_state sha256 owner h req st =
     (if sr_affinity_ttl req = 0 then Some (Inl ZeroAffinityTtl, st)
      else if eligible_candidates h req st = []
      then Some (Inl (NoEligible (sr_model req) (explanation_of sha256 h req st)), prepared (sr_now req) st)
      else case affinity_of sha256 h req st of
        AffinityRefused ex \<Rightarrow> Some (Inl (NoEligible (sr_model req) ex), prepared (sr_now req) st)
      | AffinityPinned c ex st1 \<Rightarrow>
          Some (map_prod Inr id (commit_selection sha256 owner req None c ex st1))
      | AffinityFree rebound ex \<Rightarrow>
          map_option (\<lambda>(c, st1). map_prod Inr id (commit_selection sha256 owner req rebound c ex st1))
            (choose_index (resolved_request req st) (best_tier (eligible_candidates h req st))
              (prepared (sr_now req) st)))"
  unfolding select_from_state_def Let_def prepared_def [symmetric]
  by (simp add: eligible_candidates_def candidates_def resolved_request_def split_beta map_prod_def
      split: affinity_outcome.split option.split)

lemma consult_pinned:
  assumes "consult_affinity sha256 req evs tier p ex st = AffinityPinned c ex' st1"
  obtains key a where "sr_affinity_key req = Some key" "map_of (rs_affinity st) key = Some a"
    "c \<in> set tier" "affinity_matches a c"
    "st1 = st\<lparr>rs_affinity := map_modify key
       (\<lambda>b. b\<lparr>ab_last_used_at := sr_now req, ab_expires_at := affinity_expiry req\<rparr>) (rs_affinity st)\<rparr>"
  using assms by (auto simp: consult_affinity_def find_Some_iff split: option.splits if_splits)

lemma consult_refused:
  assumes "consult_affinity sha256 req evs tier p ex st = AffinityRefused ex'"
  obtains key a where "sr_affinity_key req = Some key" "map_of (rs_affinity st) key = Some a"
    "\<not> sr_affinity_rebind req" "\<forall>c \<in> set tier. \<not> affinity_matches a c"
  using assms by (auto simp: consult_affinity_def find_None_iff split: option.splits if_splits)

lemma select_total: "\<exists>res st'. select_from_state sha256 owner h req st = Some (res, st')"
proof (cases "sr_affinity_ttl req = 0 \<or> eligible_candidates h req st = []")
  case False
  then obtain c st1 where
    "choose_index (resolved_request req st) (best_tier (eligible_candidates h req st)) (prepared (sr_now req) st)
       = Some (c, st1)"
    using choose_index_Some best_tier_nonempty by blast
  then show ?thesis
    using False by (cases "affinity_of sha256 h req st") (simp_all add: select_unfold map_prod_def split_beta)
qed (auto simp: select_unfold)

text \<open>What a grant is made of: a candidate of the best tier, committed in a state that differs from
  the prepared one in cursors and in the affinity entry of the request's own key.\<close>

lemma select_granted:
  assumes "select_from_state sha256 owner h req st = Some (Inr lease, st')"
  obtains c rebound ex st1 where "c \<in> set (best_tier (eligible_candidates h req st))"
    "commit_selection sha256 owner req rebound c ex st1 = (lease, st')"
    "rs_entries st1 = rs_entries st" "rs_aliases st1 = rs_aliases st"
    "registry_inv st \<Longrightarrow> \<forall>c \<in> set (eligible_candidates h req st). cr_binding (ev_registration c) \<in> registered st \<Longrightarrow>
       registry_inv st1"
    "\<And>k. sr_affinity_key req \<noteq> Some k \<Longrightarrow> map_of (rs_affinity st1) k = map_of (rs_affinity (prepared (sr_now req) st)) k"
    "rs_quotas st1 = rs_quotas (prepared (sr_now req) st)"
    "rs_binding_quotas st1 = rs_binding_quotas (prepared (sr_now req) st)"
    "keys (rs_affinity st1) = keys (rs_affinity (prepared (sr_now req) st))"
    "rs_next_order st1 = rs_next_order (prepared (sr_now req) st)"
    "\<And>key a d. sr_affinity_key req = Some key \<Longrightarrow> map_of (rs_affinity (prepared (sr_now req) st)) key = Some a \<Longrightarrow>
       d \<in> set (best_tier (eligible_candidates h req st)) \<Longrightarrow> affinity_matches a d \<Longrightarrow> affinity_matches a c"
proof -
  let ?el = "eligible_candidates h req st" and ?p = "prepared (sr_now req) st"
  have el: "?el \<noteq> []" "sr_affinity_ttl req \<noteq> 0" using assms by (auto simp: select_unfold split: if_splits)
  show ?thesis
  proof (cases "affinity_of sha256 h req st")
    case (AffinityPinned c ex st1)
    then obtain key a where k: "sr_affinity_key req = Some key" "map_of (rs_affinity ?p) key = Some a"
      "c \<in> set (best_tier ?el)" "affinity_matches a c"
      "st1 = ?p\<lparr>rs_affinity := map_modify key
         (\<lambda>b. b\<lparr>ab_last_used_at := sr_now req, ab_expires_at := affinity_expiry req\<rparr>) (rs_affinity ?p)\<rparr>"
      by (rule consult_pinned)
    have "commit_selection sha256 owner req None c ex st1 = (lease, st')"
      using assms el AffinityPinned by (simp add: select_unfold map_prod_def split_beta prod_eq_iff)
    moreover have "registry_inv st1" if "registry_inv st"
    proof -
      note d = registry_invD [OF prepared_inv [OF that, of "sr_now req"]]
      have "affinity_refs (registered ?p) (map_modify key f (rs_affinity ?p))"
        if "\<And>b. ab_binding (f b) = ab_binding b" for f
        using d(9) that by (auto simp: affinity_refs_def map_modify_def)
      moreover have "length (map_modify key f (rs_affinity ?p)) \<le> max_affinity_bindings" for f
        using d(8) by (simp add: map_modify_def)
      ultimately show ?thesis
        unfolding k(5) using prepared_inv [OF that] d(2) by (intro table_changes) (simp_all add: btree.ok_modify)
    qed
    ultimately show ?thesis
      using k by (intro that [of c None ex st1]) (auto simp: map_of_modify)
  next
    case (AffinityRefused ex)
    then show ?thesis using assms el by (simp add: select_unfold)
  next
    case (AffinityFree rebound ex)
    obtain c st1 where ch: "choose_index (resolved_request req st) (best_tier ?el) ?p = Some (c, st1)"
      "c \<in> set (best_tier ?el)"
      using choose_index_Some [OF best_tier_nonempty [OF el(1)]] by blast
    have com: "commit_selection sha256 owner req rebound c ex st1 = (lease, st')"
      using assms el AffinityFree ch by (simp add: select_unfold map_prod_def split_beta prod_eq_iff)
    obtain rr sm where st1: "st1 = ?p\<lparr>rs_round_robin := rr, rs_smooth_current := sm\<rparr>"
      using choose_index_frame [OF ch(1)] .
    have "registry_inv st1" if "registry_inv st" "\<forall>c \<in> set ?el. cr_binding (ev_registration c) \<in> registered st"
    proof (rule choose_index_inv [OF prepared_inv [OF that(1)] _ ch(1)])
      show "\<forall>c \<in> set (best_tier ?el). cr_binding (ev_registration c) \<in> registered ?p"
        using that(2) best_tier_subset by (auto simp: registered_def)
    qed
    moreover have "\<not> affinity_matches a d"
      if "sr_affinity_key req = Some key" "map_of (rs_affinity ?p) key = Some a" "d \<in> set (best_tier ?el)" for key a d
      using AffinityFree that by (auto simp: consult_affinity_def find_None_iff split: option.splits if_splits)
    ultimately show ?thesis
      using ch com st1 by (intro that [of c rebound ex st1]) auto
  qed
qed

lemma commit_effects:
  assumes "commit_selection sha256 owner req rebound c ex st1 = (lease, st')"
  shows "sl_registration lease = ev_registration c"
    and "sl_reservation lease = Some
      \<lparr>rv_binding = cr_binding (ev_registration c), rv_credential = cr_credential (ev_registration c),
       rv_registration_order = re_order (ev_entry c), rv_owner = owner, rv_released = False\<rparr>"
    and "rs_entries st' = map_modify (cr_binding (ev_registration c))
      (\<lambda>e. e\<lparr>re_in_flight := saturating_add (re_in_flight e) 1\<rparr>) (rs_entries st1)"
    and "rs_aliases st' = rs_aliases st1" "rs_quotas st' = rs_quotas st1"
      "rs_binding_quotas st' = rs_binding_quotas st1" "rs_next_order st' = rs_next_order st1"
    and "rs_affinity st' =
      (case sr_affinity_key req of
         None \<Rightarrow> rs_affinity st1
       | Some key \<Rightarrow> snd (affinity_insert key
           \<lparr>ab_binding = cr_binding (ev_registration c), ab_provider = cr_provider (ev_registration c),
            ab_model = cr_model (ev_registration c), ab_last_used_at = sr_now req,
            ab_expires_at = affinity_expiry req\<rparr> (rs_affinity st1)))"
  using assms
  by (auto simp: commit_selection_def Let_def insert_bounded_affinity_def split_beta split: option.splits)

lemma commit_inv:
  assumes "commit_selection sha256 owner req rebound c ex st1 = (lease, st')" "registry_inv st1"
    and "cr_binding (ev_registration c) \<in> registered st1"
  shows "registry_inv st'"
proof -
  let ?es = "map_modify (cr_binding (ev_registration c))
      (\<lambda>e. e\<lparr>re_in_flight := saturating_add (re_in_flight e) 1\<rparr>) (rs_entries st1)"
  have e: "registry_inv (st1\<lparr>rs_entries := ?es\<rparr>)"
    using assms(2) by (intro table_changes) (simp_all add: map_modify_def)
  have "registered (st1\<lparr>rs_entries := ?es\<rparr>) = registered st1"
    using arg_cong [OF keys_modify, of set] by (simp add: registered_def del: set_map)
  then have "registry_inv (snd (insert_bounded_affinity k
      \<lparr>ab_binding = cr_binding (ev_registration c), ab_provider = cr_provider (ev_registration c),
       ab_model = cr_model (ev_registration c), ab_last_used_at = sr_now req,
       ab_expires_at = affinity_expiry req\<rparr> (st1\<lparr>rs_entries := ?es\<rparr>)))" for k
    using insert_bounded_affinity_inv [OF e] assms(3) by simp
  then show ?thesis
    using assms(1) e by (auto simp: commit_selection_def Let_def split: option.splits)
qed

lemma candidate_entry:
  assumes "registry_inv st" "c \<in> set (eligible_candidates h req st)"
  shows "map_of (rs_entries st) (cr_binding (ev_registration c)) = Some (ev_entry c)"
    "cr_binding (ev_registration c) \<in> registered st"
proof -
  have "ev_entry c \<in> set (map ev_entry (candidates h req st))"
    using assms(2) by (simp add: eligible_candidates_def)
  then have "ev_entry c \<in> snd ` set (rs_entries st)"
    unfolding candidates_def map_ev_entry by (simp add: set_sorted_entries)
  then obtain b where b: "(b, ev_entry c) \<in> set (rs_entries st)" by auto
  then have "cr_binding (ev_registration c) = b"
    using assms(1) unfolding registry_inv_def entries_ok_def by fastforce
  with b show "map_of (rs_entries st) (cr_binding (ev_registration c)) = Some (ev_entry c)"
    using btree.mem_iff [OF registry_invD(1) [OF assms(1)]] by blast
  with b show "cr_binding (ev_registration c) \<in> registered st"
    using \<open>cr_binding (ev_registration c) = b\<close> by (force simp: registered_def)
qed

lemma select_inv:
  assumes inv: "registry_inv st" and sel: "select_from_state sha256 owner h req st = Some (res, st')"
  shows "registry_inv st'"
proof (cases res)
  case (Inl e)
  then have "st' = st \<or> st' = prepared (sr_now req) st"
    using sel by (auto simp: select_unfold map_prod_def split_beta
        split: if_splits affinity_outcome.splits option.splits)
  then show ?thesis using inv prepared_inv by blast
next
  case (Inr lease)
  then have sel': "select_from_state sha256 owner h req st = Some (Inr lease, st')" using sel by simp
  obtain c rebound ex st1 where c: "c \<in> set (best_tier (eligible_candidates h req st))"
    "commit_selection sha256 owner req rebound c ex st1 = (lease, st')" "rs_entries st1 = rs_entries st"
    and i: "\<forall>c \<in> set (eligible_candidates h req st). cr_binding (ev_registration c) \<in> registered st \<Longrightarrow> registry_inv st1"
    using select_granted [OF sel'] inv by metis
  have "registry_inv st1" using i candidate_entry(2) [OF inv] by blast
  moreover have "cr_binding (ev_registration c) \<in> registered st1"
    using candidate_entry(2) [OF inv subsetD [OF best_tier_subset c(1)]] c(3) by (simp add: registered_def)
  ultimately show ?thesis using commit_inv [OF c(2)] by blast
qed

lemma select_grants:
  assumes "sr_affinity_ttl req \<noteq> 0" "eligible_candidates h req st \<noteq> []"
    and "sr_affinity_key req = None \<or> sr_affinity_rebind req"
  shows "\<exists>lease st'. select_from_state sha256 owner h req st = Some (Inr lease, st')"
proof -
  have "affinity_of sha256 h req st \<noteq> AffinityRefused ex" for ex
    by (rule notI, erule consult_refused) (use assms(3) in auto)
  moreover obtain c st1 where
    "choose_index (resolved_request req st) (best_tier (eligible_candidates h req st)) (prepared (sr_now req) st)
       = Some (c, st1)"
    using choose_index_Some best_tier_nonempty assms(2) by blast
  ultimately show ?thesis
    using assms(1,2) by (cases "affinity_of sha256 h req st") (auto simp: select_unfold map_prod_def split_beta)
qed

end
