(* ===== verification/Leases.thy ===== *)
theory Leases
  imports Selection_Correct
begin

text \<open>
  The registry as a running system: callers hold reservations, and between two of their steps any
  operation of the registry may happen. The step relation has one rule per kind of step (a
  management operation, a granted or refused selection, a release, a quota rotation). The
  invariant ties the in-flight counters to the reservations that are really held; a reservation
  of a replaced registration is told apart by its declaration order.
\<close>

section \<open>Operations and steps\<close>

datatype registry_op =
    Register registration
  | Unregister credential_id
  | UnregisterBinding binding_key
  | RegisterAlias model_id model_id
  | SetEnabled credential_id bool
  | SetCredentialsEnabled "(credential_id \<times> bool) list"
  | SetBindingEnabled binding_key bool
  | Disable credential_id
  | DisableBinding binding_key
  | Enable credential_id
  | EnableBinding binding_key
  | SetQuota instant credential_id "u64 option" "instant option"
  | SetQuotaSnapshot credential_id quota_snapshot
  | SetBindingQuotaSnapshot binding_key quota_snapshot
  | ApplyQuota credential_id quota_classification
  | ApplyBindingQuota binding_key quota_classification
  | MarkExhausted instant credential_id "instant option"
  | MarkBindingExhausted instant binding_key "instant option"
  | QuotaRecords instant u64
  | BindingQuotaRecords instant u64
  | RestoreQuota persisted_quota_snapshot instant u64
  | RestoreBindingQuota binding_key persisted_quota_snapshot instant u64
  | ApplyFailure failure_classification health_subject instant
  | RestoreCooldown cooldown_scope instant
  | RestoreAffinity instant affinity_key credential_id provider_id model_id instant instant
  | RestoreAffinityBinding instant affinity_key binding_key provider_id model_id instant instant
  | AffinityLen instant

definition on_state :: "(registry_state \<Rightarrow> 'r \<times> registry_state) \<Rightarrow> credential_registry \<Rightarrow> credential_registry" where
  "on_state f rg = rg\<lparr>rg_state := snd (f (rg_state rg))\<rparr>"

text \<open>The registry after an operation; \<open>None\<close> where the operation panics.\<close>

fun apply_op :: "(string \<Rightarrow> string) \<Rightarrow> registry_op \<Rightarrow> credential_registry \<Rightarrow> credential_registry option" where
  "apply_op sha256 (Register r) rg = Some (rg\<lparr>rg_state := register r (rg_state rg)\<rparr>)"
| "apply_op sha256 (Unregister c) rg = Some (snd (unregister c rg))"
| "apply_op sha256 (UnregisterBinding b) rg = Some (snd (unregister_binding b rg))"
| "apply_op sha256 (RegisterAlias a m) rg = Some (on_state (register_model_alias a m) rg)"
| "apply_op sha256 (SetEnabled c v) rg = Some (on_state (set_enabled c v) rg)"
| "apply_op sha256 (SetCredentialsEnabled cs) rg = Some (snd (set_credentials_enabled cs rg))"
| "apply_op sha256 (SetBindingEnabled b v) rg = Some (on_state (set_binding_enabled b v) rg)"
| "apply_op sha256 (Disable c) rg = Some (snd (registry_disable c rg))"
| "apply_op sha256 (DisableBinding b) rg = Some (snd (registry_disable_binding b rg))"
| "apply_op sha256 (Enable c) rg = Some (snd (registry_enable c rg))"
| "apply_op sha256 (EnableBinding b) rg = Some (snd (registry_enable_binding b rg))"
| "apply_op sha256 (SetQuota t c n r) rg = Some (on_state (set_quota t c n r) rg)"
| "apply_op sha256 (SetQuotaSnapshot c q) rg = Some (on_state (set_quota_snapshot c q) rg)"
| "apply_op sha256 (SetBindingQuotaSnapshot b q) rg = Some (on_state (set_binding_quota_snapshot b q) rg)"
| "apply_op sha256 (ApplyQuota c cl) rg = Some (on_state (apply_quota_classification c cl) rg)"
| "apply_op sha256 (ApplyBindingQuota b cl) rg = Some (on_state (apply_binding_quota_classification b cl) rg)"
| "apply_op sha256 (MarkExhausted t c r) rg = Some (on_state (mark_quota_exhausted t c r) rg)"
| "apply_op sha256 (MarkBindingExhausted t b r) rg = Some (on_state (mark_binding_quota_exhausted t b r) rg)"
| "apply_op sha256 (QuotaRecords now ms) rg = Some (on_state (quota_state_records sha256 now ms) rg)"
| "apply_op sha256 (BindingQuotaRecords now ms) rg = Some (on_state (binding_quota_state_records sha256 now ms) rg)"
| "apply_op sha256 (RestoreQuota p now ms) rg = Some (on_state (restore_quota_state sha256 p now ms) rg)"
| "apply_op sha256 (RestoreBindingQuota b p now ms) rg = Some (on_state (restore_binding_quota_state b p now ms) rg)"
| "apply_op sha256 (ApplyFailure f s now) rg = map_option snd (registry_apply_failure f s now rg)"
| "apply_op sha256 (RestoreCooldown s t) rg = Some (registry_restore_cooldown s t rg)"
| "apply_op sha256 (RestoreAffinity t k c p m l x) rg = Some (on_state (restore_affinity t k c p m l x) rg)"
| "apply_op sha256 (RestoreAffinityBinding t k b p m l x) rg = Some (on_state (restore_affinity_binding t k b p m l x) rg)"
| "apply_op sha256 (AffinityLen t) rg = Some (on_state (affinity_len t) rg)"

type_synonym pool = "credential_registry \<times> selection_reservation list"

definition granted_by :: "selection_error + quota_recovery_result \<Rightarrow> selection_reservation list" where
  "granted_by res =
     (case res of
        Inr r \<Rightarrow> (case Option.bind (qr_selection r) sl_reservation of Some rv \<Rightarrow> [rv] | None \<Rightarrow> [])
      | Inl e \<Rightarrow> [])"

text \<open>
  Registrations carry the credential of their binding (every constructor of the source makes them
  so), fewer than \<open>2 ^ 64 - 1\<close> bindings are ever declared, and fewer than \<open>2 ^ 32\<close> leases are
  held at once: beyond that the counters saturate.
\<close>

definition op_ok :: "registry_op \<Rightarrow> credential_registry \<Rightarrow> bool" where
  "op_ok a rg \<longleftrightarrow> (case a of
     Register r \<Rightarrow> registration_ok r \<and> unat (rs_next_order (rg_state rg)) < 2 ^ 64 - 1 | _ \<Rightarrow> True)"

inductive pool_step :: "(string \<Rightarrow> string) \<Rightarrow> pool \<Rightarrow> pool \<Rightarrow> bool" for sha256 where
  manage: "op_ok a rg \<Longrightarrow> apply_op sha256 a rg = Some rg' \<Longrightarrow> pool_step sha256 (rg, held) (rg', held)"
| grant: "select_with_health sha256 req h rg = Some (Inr lease, rg') \<Longrightarrow> sl_reservation lease = Some rv \<Longrightarrow>
    Suc (length held) < 2 ^ 32 \<Longrightarrow> pool_step sha256 (rg, held) (rg', rv # held)"
| refuse: "select_with_health sha256 req h rg = Some (Inl e, rg') \<Longrightarrow> pool_step sha256 (rg, held) (rg', held)"
| release: "rv \<in> set held \<Longrightarrow>
    pool_step sha256 (rg, held) (rg\<lparr>rg_state := drop_reservation rv (rg_state rg)\<rparr>, remove1 rv held)"
| rotate: "recover_quota sha256 failed cl req policy ctx rg = Some (res, rg') \<Longrightarrow>
    sl_reservation failed = Some rv \<Longrightarrow> rv \<in> set held \<Longrightarrow>
    pool_step sha256 (rg, held) (rg', granted_by res @ remove1 rv held)"

definition reachable :: "(string \<Rightarrow> string) \<Rightarrow> nat \<Rightarrow> pool \<Rightarrow> bool" where
  "reachable sha256 i = (pool_step sha256)\<^sup>*\<^sup>* (registry_new i, [])"

section \<open>What the operations do to the counters\<close>

definition slot :: "registry_state \<Rightarrow> binding_key \<Rightarrow> (u64 \<times> u32) option" where
  "slot st b = map_option (\<lambda>e. (re_order e, re_in_flight e)) (map_of (rs_entries st) b)"

text \<open>No counter changes; entries may go, and none comes.\<close>

definition quieter :: "registry_state \<Rightarrow> registry_state \<Rightarrow> bool" where
  "quieter st st' \<longleftrightarrow> slot st' \<subseteq>\<^sub>m slot st \<and> rs_next_order st' = rs_next_order st"

lemma quieter_same: "rs_entries st' = rs_entries st \<Longrightarrow> rs_next_order st' = rs_next_order st \<Longrightarrow> quieter st st'"
  by (simp add: quieter_def slot_def [abs_def])

lemma quieter_refl [simp]: "quieter st st"
  by (simp add: quieter_same)

lemma quieter_trans: "quieter st st1 \<Longrightarrow> quieter st1 st2 \<Longrightarrow> quieter st st2"
  unfolding quieter_def by (metis map_le_trans)

lemma slot_modify:
  "slot (st\<lparr>rs_entries := map_modify b f (rs_entries st)\<rparr>) k =
     (if k = b then map_option (\<lambda>e. (re_order (f e), re_in_flight (f e))) (map_of (rs_entries st) b) else slot st k)"
  by (simp add: slot_def map_of_modify option.map_comp comp_def)

lemma entries_quota_each [simp]:
  "rs_entries (snd (insert_quota_each rs q c st)) = rs_entries st"
  "rs_next_order (snd (insert_quota_each rs q c st)) = rs_next_order st"
proof (induction rs q c st rule: insert_quota_each.induct)
  case (2 b r rest q c st)
  have n: "rs_next_order (snd (insert_quota_for_binding b r q st)) = rs_next_order st"
    by (auto simp: insert_quota_for_binding_def insert_quota_def insert_quota_subject_def
        insert_binding_quota_def split_beta Let_def split: sum.split)
  {
    case 1
    show ?case using 2 entries_insert_quota [of b r q st]
      by (auto split: prod.split sum.split simp del: entries_insert_quota)
  next
    case 2
    show ?case using "2.IH" n by (auto split: prod.split sum.split)
  }
qed simp_all

end
