(* ===== verification/Lease_Accounting.thy ===== *)
theory Lease_Accounting
  imports Leases
begin

text \<open>
  The in-flight counters are exact: in every reachable state of the running registry an entry
  counts the reservations that are held for it, and the limits of registrations are kept.
\<close>

section \<open>Quiet operations\<close>

named_theorems quiet \<open>operations that change no counter\<close>

lemma quota_for_binding_quiet [quiet]: "quieter st (snd (insert_quota_for_binding b r q st))"
  by (rule quieter_same) (auto simp: insert_quota_for_binding_def insert_quota_def insert_quota_subject_def
      insert_binding_quota_def split_beta Let_def split: sum.split)

lemma quota_subject_quiet [quiet]: "quieter st (snd (insert_quota_subject s q st))"
  by (rule quieter_same) (simp_all add: insert_quota_subject_def split_beta Let_def)

lemma quota_snapshot_quiet [quiet]: "quieter st (snd (set_quota_snapshot c q st))"
  by (rule quieter_same) (simp_all add: set_quota_snapshot_def Let_def)

lemma binding_quota_snapshot_quiet [quiet]: "quieter st (snd (set_binding_quota_snapshot b q st))"
  by (simp add: set_binding_quota_snapshot_def quiet split: option.split)

lemma recover_quotas_quiet [quiet]: "quieter st (recover_quotas now st)"
  by (rule quieter_same) (simp_all add: recover_quotas_def)

lemma purge_quiet [quiet]: "quieter st (purge_expired_affinity now st)"
  by (rule quieter_same) (simp_all add: purge_expired_affinity_def)

lemma prepared_quiet [quiet]: "quieter st (prepared now st)"
  unfolding prepared_def by (rule quieter_trans [OF purge_quiet recover_quotas_quiet])

lemma restore_quota_quiet [quiet]: "quieter st (snd (restore_quota_state sha256 p now ms st))"
  using quota_subject_quiet
  by (auto simp: restore_quota_state_def split_beta Let_def split: sum.split option.split)

lemma restore_binding_quota_quiet [quiet]: "quieter st (snd (restore_binding_quota_state b p now ms st))"
  by (simp add: restore_binding_quota_state_def quiet split: sum.split option.split)

lemma bounded_affinity_quiet [quiet]: "quieter st (snd (insert_bounded_affinity k a st))"
  by (rule quieter_same) (simp_all add: insert_bounded_affinity_def split_beta Let_def)

lemma restore_affinity_quiet [quiet]:
  "quieter st (snd (restore_affinity t k c p m l x st))"
  "quieter st (snd (restore_affinity_binding t k b p m l x st))"
  using quieter_trans [OF purge_quiet bounded_affinity_quiet]
  by (simp_all add: restore_affinity_def restore_affinity_binding_def split: option.split)

lemma alias_quiet [quiet]: "quieter st (snd (register_model_alias a m st))"
  by (rule quieter_same) (simp_all add: register_model_alias_def split_beta Let_def)

lemma map_of_map_value: "map_of (map (\<lambda>e. (fst e, f (snd e))) m) k = map_option f (map_of m k)"
  by (induction m) auto

lemma set_enabled_quiet [quiet]: "quieter st (snd (set_enabled c v st))"
proof -
  have "slot (snd (set_enabled c v st)) b = slot st b" for b
    by (cases "map_of (rs_entries st) b") (simp_all add: slot_def set_enabled_def
        map_of_map_value [of "\<lambda>e. if cr_credential (re_registration e) = c then e\<lparr>re_enabled := v\<rparr> else e"])
  then have "slot (snd (set_enabled c v st)) = slot st" by blast
  then show ?thesis by (simp add: quieter_def) (simp add: set_enabled_def)
qed

lemma set_binding_enabled_quiet [quiet]: "quieter st (snd (set_binding_enabled b v st))"
proof -
  have "slot (snd (set_binding_enabled b v st)) k = slot st k" for k
    by (cases "map_of (rs_entries st) k"; cases "k = b") (auto simp: set_binding_enabled_def slot_def map_of_modify)
  then have "slot (snd (set_binding_enabled b v st)) = slot st" by blast
  then show ?thesis by (simp add: quieter_def) (simp add: set_binding_enabled_def)
qed

lemma map_of_filter_key: "map_of (filter (\<lambda>e. fst e \<notin> S) m) k = (if k \<in> S then None else map_of m k)"
  by (induction m) auto

lemma forget_quiet [quiet]: "quieter st (forget_bindings bs st)"
  by (simp add: quieter_def slot_def map_le_def dom_def forget_bindings_def prune_orphan_quotas_def map_of_filter_key)

section \<open>The invariant\<close>

definition held_for :: "binding_key \<Rightarrow> u64 \<Rightarrow> selection_reservation list \<Rightarrow> nat" where
  "held_for b ord held =
     length (filter (\<lambda>rv. rv_binding rv = b \<and> rv_registration_order rv = ord) held)"

definition leases_ok :: "nat \<Rightarrow> registry_state \<Rightarrow> selection_reservation list \<Rightarrow> bool" where
  "leases_ok i st held \<longleftrightarrow> length held < 2 ^ 32
     \<and> (\<forall>rv \<in> set held. \<not> rv_released rv \<and> rv_owner rv = i \<and> rv_registration_order rv < rs_next_order st)
     \<and> (\<forall>b ord n. slot st b = Some (ord, n) \<longrightarrow> ord < rs_next_order st \<and> unat n = held_for b ord held)"

definition accounted :: "pool \<Rightarrow> bool" where
  "accounted p \<longleftrightarrow> registry_inv (rg_state (fst p)) \<and> leases_ok (rg_identity (fst p)) (rg_state (fst p)) (snd p)"

lemma quieter_slot: "quieter st st' \<Longrightarrow> slot st' b = Some s \<Longrightarrow> slot st b = Some s"
  unfolding quieter_def map_le_def using domI [of "slot st'" b s] by simp

lemma leases_ok_quieter:
  assumes "leases_ok i st held" "quieter st st'"
  shows "leases_ok i st' held"
proof -
  have "rs_next_order st' = rs_next_order st" using assms(2) by (simp add: quieter_def)
  moreover have "ord < rs_next_order st \<and> unat n = held_for b ord held" if "slot st' b = Some (ord, n)" for b ord n
    using assms(1) quieter_slot [OF assms(2) that] unfolding leases_ok_def by blast
  ultimately show ?thesis using assms(1) unfolding leases_ok_def by presburger
qed

lemma held_for_Cons:
  "held_for b ord (rv # held) =
     (if rv_binding rv = b \<and> rv_registration_order rv = ord then Suc (held_for b ord held) else held_for b ord held)"
  by (simp add: held_for_def)

lemma held_for_remove1:
  "rv \<in> set held \<Longrightarrow> held_for b ord held =
     (if rv_binding rv = b \<and> rv_registration_order rv = ord then Suc (held_for b ord (remove1 rv held))
      else held_for b ord (remove1 rv held))"
  by (induction held) (auto simp: held_for_Cons)

lemma held_for_length: "held_for b ord held \<le> length held"
  by (simp add: held_for_def)

lemma slot_register:
  "slot (register r st) b =
     (if b = cr_binding r
      then Some (case slot st b of Some s \<Rightarrow> s | None \<Rightarrow> (rs_next_order st, 0))
      else slot st b)" if "registry_inv st"
  using btree.get_insert [OF registry_invD(1) [OF that]]
  by (simp add: slot_def register_def Let_def prune_orphan_quotas_def split: option.split)

lemma unat_next_order:
  "unat (n :: u64) < 2 ^ 64 - 1 \<Longrightarrow> unat (saturating_add n 1) = Suc (unat n)"
  by (simp add: saturation)

lemma register_leases:
  assumes inv: "registry_inv st" and ok: "leases_ok i st held" and n: "unat (rs_next_order st) < 2 ^ 64 - 1"
  shows "leases_ok i (register r st) held"
proof -
  have next_order: "rs_next_order (register r st) =
      (if slot st (cr_binding r) = None then saturating_add (rs_next_order st) 1 else rs_next_order st)"
    by (simp add: register_def Let_def prune_orphan_quotas_def slot_def split: option.split)
  have le: "rs_next_order st \<le> rs_next_order (register r st)"
    using unat_next_order [OF n] by (simp add: next_order word_le_nat_alt)
  have lt: "slot st (cr_binding r) = None \<Longrightarrow> rs_next_order st < rs_next_order (register r st)"
    using unat_next_order [OF n] by (simp add: next_order word_less_nat_alt)
  have fresh: "held_for b (rs_next_order st) held = 0" for b
    using ok unfolding leases_ok_def held_for_def by (fastforce simp: filter_empty_conv)
  have "ord < rs_next_order (register r st) \<and> unat k = held_for b ord held"
    if "slot (register r st) b = Some (ord, k)" for b ord k
  proof (cases "b = cr_binding r \<and> slot st b = None")
    case True
    then have "slot (register r st) b = Some (rs_next_order st, 0)"
      unfolding slot_register [OF inv] by (metis option.simps(4))
    then have "ord = rs_next_order st" "unat k = 0" using that by simp_all
    then show ?thesis using True fresh [of b] lt by metis
  next
    case False
    then have "slot st b = Some (ord, k)"
      using that by (auto simp: slot_register [OF inv] split: if_splits option.splits)
    then show ?thesis using ok le unfolding leases_ok_def by (metis order.strict_trans2)
  qed
  moreover have "rv_registration_order rv < rs_next_order (register r st)" if "rv \<in> set held" for rv
    using ok that le unfolding leases_ok_def by (metis order.strict_trans2)
  ultimately show ?thesis using ok by (simp add: leases_ok_def)
qed

text \<open>An operation that keeps the registry invariant and no more than the slots there are.\<close>

definition benign :: "credential_registry \<Rightarrow> credential_registry \<Rightarrow> bool" where
  "benign rg rg' \<longleftrightarrow> rg_identity rg' = rg_identity rg \<and> quieter (rg_state rg) (rg_state rg')
     \<and> (registry_inv (rg_state rg) \<longrightarrow> registry_inv (rg_state rg'))"

lemma benign_trans: "benign rg rg1 \<Longrightarrow> benign rg1 rg2 \<Longrightarrow> benign rg rg2"
  unfolding benign_def by (metis quieter_trans)

lemma benign_on_state:
  "quieter (rg_state rg) (snd (f (rg_state rg))) \<Longrightarrow>
     (registry_inv (rg_state rg) \<Longrightarrow> registry_inv (snd (f (rg_state rg)))) \<Longrightarrow> benign rg (on_state f rg)"
  by (simp add: benign_def on_state_def)

lemma benign_accounted: "accounted (rg, held) \<Longrightarrow> benign rg rg' \<Longrightarrow> accounted (rg', held)"
  using leases_ok_quieter by (auto simp: accounted_def benign_def)

lemma benign_health: "benign rg (rg\<lparr>rg_health := h\<rparr>)"
  by (simp add: benign_def)

lemma set_credentials_benign: "benign rg (snd (set_credentials_enabled cs rg))"
proof (induction cs arbitrary: rg)
  case Nil
  then show ?case by (simp add: benign_def)
next
  case (Cons x cs)
  obtain c v where x: "x = (c, v)" by (cases x)
  let ?h = "if v then enable_credential c (rg_health rg) else disable_credential c (rg_health rg)"
  let ?rg = "rg\<lparr>rg_state := snd (set_enabled c v (rg_state rg)), rg_health := ?h\<rparr>"
  have "benign rg ?rg" by (simp add: benign_def set_enabled_inv set_enabled_quiet)
  moreover have "snd (set_credentials_enabled (x # cs) rg) = snd (set_credentials_enabled cs ?rg)"
    by (simp add: x split_beta Let_def)
  ultimately show ?case using benign_trans [OF _ Cons.IH [of ?rg]] by simp
qed

lemma unregister_benign: "benign rg (snd (unregister c rg))" "benign rg (snd (unregister_binding b rg))"
  by (simp_all add: benign_def unregister_def unregister_binding_def Let_def forget_quiet forget_bindings_inv)

lemma enablement_benign:
  "benign rg (snd (registry_disable c rg))" "benign rg (snd (registry_disable_binding b rg))"
  "benign rg (snd (registry_enable c rg))" "benign rg (snd (registry_enable_binding b rg))"
  by (simp_all add: benign_def registry_disable_def registry_disable_binding_def registry_enable_def
      registry_enable_binding_def split_beta Let_def set_enabled_inv set_enabled_quiet
      set_binding_enabled_inv set_binding_enabled_quiet)

lemmas snapshot_invs = set_quota_snapshot_inv set_binding_quota_snapshot_inv restore_quota_state_inv
  restore_binding_quota_state_inv recover_quotas_inv purge_expired_affinity_inv restore_affinity_inv
  restore_affinity_binding_inv register_model_alias_inv set_enabled_inv set_binding_enabled_inv

lemmas registry_op_defs = set_quota_def apply_quota_classification_def apply_binding_quota_classification_def
  mark_quota_exhausted_def mark_binding_quota_exhausted_def quota_state_records_def
  binding_quota_state_records_def affinity_len_def registry_apply_failure_def registry_restore_cooldown_def

lemma apply_op_benign:
  assumes "apply_op sha256 a rg = Some rg'" "\<And>r. a \<noteq> Register r"
  shows "benign rg rg'"
  using assms
  by (cases a) (auto simp: registry_op_defs Let_def split: option.splits
      intro!: benign_on_state quiet snapshot_invs set_credentials_benign unregister_benign enablement_benign
        benign_health)

lemma apply_op_accounted:
  assumes "accounted (rg, held)" "op_ok a rg" "apply_op sha256 a rg = Some rg'"
  shows "accounted (rg', held)"
proof (cases "\<exists>r. a = Register r")
  case True
  then show ?thesis
    using assms by (auto simp: accounted_def op_ok_def register_inv register_leases)
next
  case False
  then have "benign rg rg'" using apply_op_benign [OF assms(3)] by blast
  then show ?thesis by (rule benign_accounted [OF assms(1)])
qed

section \<open>Grants, releases and rotations\<close>

lemma release_leases:
  assumes ok: "leases_ok i st held" and rv: "rv \<in> set held"
  shows "leases_ok i (snd (release_from rv st)) (remove1 rv held)"
proof -
  let ?b = "rv_binding rv" and ?o = "rv_registration_order rv"
  have unreleased: "\<not> rv_released rv" using ok rv by (simp add: leases_ok_def)
  have nxt: "rs_next_order (snd (release_from rv st)) = rs_next_order st" by (simp add: release_from_def)
  have s: "slot (snd (release_from rv st)) b =
      (case slot st b of
         Some (ord, n) \<Rightarrow> Some (ord, if b = ?b \<and> ord = ?o then saturating_sub n 1 else n) | None \<Rightarrow> None)" for b
    using unreleased by (cases "map_of (rs_entries st) b"; cases "b = ?b")
      (auto simp: release_from_def slot_def map_of_modify)
  have "ord < rs_next_order st \<and> unat n = held_for b ord (remove1 rv held)"
    if sl: "slot (snd (release_from rv st)) b = Some (ord, n)" for b ord n
  proof -
    obtain m where m: "slot st b = Some (ord, m)" "n = (if b = ?b \<and> ord = ?o then saturating_sub m 1 else m)"
      using sl unfolding s by (cases "slot st b") (auto simp: split_beta)
    have "ord < rs_next_order st" "unat m = held_for b ord held"
      using ok m(1) unfolding leases_ok_def by blast+
    then show ?thesis using m(2) held_for_remove1 [OF rv, of b ord] by (auto simp: saturation)
  qed
  moreover have "set (remove1 rv held) \<subseteq> set held" by (rule set_remove1_subset)
  moreover have "length (remove1 rv held) < 2 ^ 32"
    using ok rv less_imp_diff_less [of "length held" "2 ^ 32" 1] by (simp add: leases_ok_def length_remove1)
  ultimately show ?thesis using ok unfolding leases_ok_def nxt by blast
qed

text \<open>A grant adds one to the counter of the entry whose order the reservation carries.\<close>

lemma grant_leases:
  assumes inv: "registry_inv st" and ok: "leases_ok i st held" and room: "Suc (length held) < 2 ^ 32"
    and sel: "select_from_state sha256 i h req st = Some (Inr lease, st')"
    and rv: "sl_reservation lease = Some rv"
  shows "leases_ok i st' (rv # held)"
proof -
  obtain c rebound ex st1 where c: "c \<in> set (best_tier (eligible_candidates h req st))"
    and com: "commit_selection sha256 i req rebound c ex st1 = (lease, st')"
    and st1: "rs_entries st1 = rs_entries st" "rs_next_order st1 = rs_next_order (prepared (sr_now req) st)"
    using select_granted [OF sel] by metis
  let ?b = "cr_binding (ev_registration c)" and ?e = "ev_entry c"
  have entry: "map_of (rs_entries st) ?b = Some ?e"
    using candidate_entry(1) [OF inv subsetD [OF best_tier_subset c]] .
  note eff = commit_effects [OF com]
  have nxt: "rs_next_order st' = rs_next_order st"
    using eff(7) st1(2) prepared_quiet [of st "sr_now req"] by (simp add: quieter_def)
  have r: "rv_binding rv = ?b" "rv_registration_order rv = re_order ?e" "rv_owner rv = i" "\<not> rv_released rv"
    using rv eff(2) by auto
  have s: "slot st' b = (if b = ?b then Some (re_order ?e, saturating_add (re_in_flight ?e) 1) else slot st b)" for b
    using eff(3) st1(1) entry by (simp add: slot_def map_of_modify)
  have slot_b: "slot st ?b = Some (re_order ?e, re_in_flight ?e)" using entry by (simp add: slot_def)
  then have e: "re_order ?e < rs_next_order st" "unat (re_in_flight ?e) = held_for ?b (re_order ?e) held"
    using ok unfolding leases_ok_def by blast+
  have "ord < rs_next_order st \<and> unat n = held_for b ord (rv # held)" if "slot st' b = Some (ord, n)" for b ord n
  proof (cases "b = ?b")
    case True
    then have "ord = re_order ?e" "n = saturating_add (re_in_flight ?e) 1" using that s by auto
    then show ?thesis
      using True e r held_for_length [of ?b "re_order ?e" held] room by (simp add: held_for_Cons saturation)
  next
    case False
    then have "slot st b = Some (ord, n)" using that s by simp
    then show ?thesis using False ok r unfolding leases_ok_def held_for_Cons by auto
  qed
  then show ?thesis using ok room r e(1) by (simp add: leases_ok_def nxt)
qed

lemma select_refused_quiet:
  assumes "select_from_state sha256 i h req st = Some (Inl e, st')"
  shows "quieter st st'"
proof -
  have "st' = st \<or> st' = prepared (sr_now req) st"
    using assms by (auto simp: select_unfold map_prod_def split_beta
        split: if_splits affinity_outcome.splits option.splits)
  then show ?thesis using prepared_quiet by auto
qed

text \<open>A rotation gives the failed slot back before it chooses the next target.\<close>

text \<open>How a rotation that owns its slot ends: without a selection, or with what the selection answered.\<close>

lemma rotate_account_outcome:
  assumes rot: "rotate_account sha256 rv failed f q req policy ctx rg = Some (res, rg')"
    and owns: "case map_of (rs_entries (rg_state rg)) (rv_binding rv) of
      Some e \<Rightarrow> re_order e = rv_registration_order rv \<and> re_registration e = failed | None \<Rightarrow> False"
    and ins: "insert_quota_for_binding (rv_binding rv) failed q
      (recover_quotas (sr_now req) (purge_expired_affinity (sr_now req) (snd (release_from rv (rg_state rg))))) = (r, st2)"
  shows "rg_identity rg' = rg_identity rg \<and> ((granted_by res = [] \<and> rg_state rg' = st2)
    \<or> (\<exists>h r'. select_from_state sha256 (rg_identity rg) h req st2 = Some (r', rg_state rg')
         \<and> ((\<exists>l x. r' = Inr l \<and> res = Inr x \<and> qr_selection x = Some l)
             \<or> ((\<exists>err. r' = Inl err) \<and> granted_by res = []))))"
proof (cases "r = Inr True")
  case False
  then show ?thesis
    using rot owns ins unfolding rotate_account_def Let_def
    by (auto simp: granted_by_def split: sum.splits bool.splits)
next
  case r: True
  let ?s = "\<lparr>hs_credential = Some (cr_credential failed), hs_model = Some (cr_model failed),
    hs_provider = Some (cr_provider failed), hs_route = sr_route req, hs_binding = Some (rv_binding rv)\<rparr>"
  obtain m h where h: "apply_failure f ?s (sr_now req) (rg_health rg) = Some (m, h)"
    using rot owns ins r unfolding rotate_account_def Let_def by (auto split: option.splits)
  show ?thesis
  proof (cases "is_retry (decide policy f ctx)")
    case False
    then show ?thesis
      using rot owns ins r h unfolding rotate_account_def Let_def by (auto simp: granted_by_def)
  next
    case retry: True
    obtain r' st3 where sel: "select_from_state sha256 (rg_identity rg) h req st2 = Some (r', st3)"
      using select_total by blast
    have "rg_state rg' = st3 \<and> rg_identity rg' = rg_identity rg
        \<and> ((\<exists>l x. r' = Inr l \<and> res = Inr x \<and> qr_selection x = Some l)
           \<or> ((\<exists>err. r' = Inl err) \<and> granted_by res = []))"
      using rot owns ins r h retry sel unfolding rotate_account_def Let_def
      by (auto simp: granted_by_def split: sum.splits selection_error.splits)
    then show ?thesis using sel by blast
  qed
qed

lemma selected_leases:
  assumes "registry_inv st" and ok: "leases_ok i st held" and "Suc (length held) < 2 ^ 32"
    and sel: "select_from_state sha256 i h req st = Some (r, st')"
    and res: "(\<exists>l x. r = Inr l \<and> res = Inr x \<and> qr_selection x = Some l) \<or> ((\<exists>err. r = Inl err) \<and> granted_by res = [])"
  shows "leases_ok i st' (granted_by res @ held)"
proof (cases r)
  case (Inl err)
  then show ?thesis using sel res leases_ok_quieter [OF ok select_refused_quiet] by auto
next
  case (Inr l)
  then have sel': "select_from_state sha256 i h req st = Some (Inr l, st')" using sel by simp
  obtain rv where rv: "sl_reservation l = Some rv" using select_granted [OF sel'] commit_effects(2) by metis
  have "granted_by res = [rv]" using res Inr rv by (auto simp: granted_by_def)
  then show ?thesis using grant_leases [OF assms(1) ok _ sel' rv] assms(3) by simp
qed

lemma rotate_account_leases:
  assumes inv: "registry_inv (rg_state rg)" and ok: "leases_ok (rg_identity rg) (rg_state rg) held"
    and rv: "rv \<in> set held"
    and rot: "rotate_account sha256 rv failed f q req policy ctx rg = Some (res, rg')"
  shows "rg_identity rg' = rg_identity rg \<and> registry_inv (rg_state rg')
    \<and> leases_ok (rg_identity rg) (rg_state rg') (granted_by res @ remove1 rv held)"
proof -
  let ?i = "rg_identity rg" and ?st = "snd (release_from rv (rg_state rg))" and ?rest = "remove1 rv held"
  have st: "registry_inv ?st" "leases_ok ?i ?st ?rest"
    using release_from_inv [OF inv] release_leases [OF ok rv] by simp_all
  show ?thesis
  proof (cases "case map_of (rs_entries (rg_state rg)) (rv_binding rv) of
      Some e \<Rightarrow> re_order e = rv_registration_order rv \<and> re_registration e = failed | None \<Rightarrow> False")
    case False
    then have "res = Inl StaleLease" "rg' = rg\<lparr>rg_state := ?st\<rparr>"
      using rot by (auto simp: rotate_account_def Let_def)
    then show ?thesis using st by (simp add: granted_by_def)
  next
    case True
    let ?p = "recover_quotas (sr_now req) (purge_expired_affinity (sr_now req) ?st)"
    have p: "registry_inv ?p" "quieter ?st ?p"
      using st(1) quieter_trans [OF purge_quiet recover_quotas_quiet]
      by (simp_all add: recover_quotas_inv purge_expired_affinity_inv)
    obtain e' where e': "map_of (rs_entries ?p) (rv_binding rv) = Some e'" "re_registration e' = failed"
      using True by (cases "rv_released rv")
        (auto simp: recover_quotas_def purge_expired_affinity_def release_from_def map_of_modify split: option.splits)
    obtain r st2 where ins: "insert_quota_for_binding (rv_binding rv) failed q ?p = (r, st2)" by force
    have st2: "registry_inv st2" "quieter ?st st2"
      using insert_quota_for_binding_inv [OF p(1) e'(1), of q] quota_for_binding_quiet [of ?p "rv_binding rv" failed q]
        ins e'(2) quieter_trans [OF p(2)] by simp_all
    note ok2 = leases_ok_quieter [OF st(2) st2(2)]
    have room: "Suc (length ?rest) < 2 ^ 32"
      using ok rv length_pos_if_in_set [OF rv] by (simp add: leases_ok_def length_remove1)
    have "rg_identity rg' = ?i" using rotate_account_outcome [OF rot True ins] by blast
    moreover have "registry_inv (rg_state rg')"
      using rotate_account_outcome [OF rot True ins] st2(1) select_inv [OF st2(1)] by metis
    moreover have "leases_ok ?i (rg_state rg') (granted_by res @ ?rest)"
      using rotate_account_outcome [OF rot True ins] ok2 selected_leases [OF st2(1) ok2 room] by (metis append_Nil)
    ultimately show ?thesis by blast
  qed
qed

lemma recover_quota_accounted:
  assumes acc: "accounted (rg, held)" and rv: "sl_reservation failed = Some rv" "rv \<in> set held"
    and rec: "recover_quota sha256 failed cl req policy ctx rg = Some (res, rg')"
  shows "accounted (rg', granted_by res @ remove1 rv held)"
proof -
  have inv: "registry_inv (rg_state rg)" and ok: "leases_ok (rg_identity rg) (rg_state rg) held"
    using acc by (simp_all add: accounted_def)
  then have own: "rv_owner rv = rg_identity rg" "\<not> rv_released rv" using rv(2) by (simp_all add: leases_ok_def)
  show ?thesis
  proof (cases "qc_failure cl = None \<or> \<not> qc_exhausted cl (sr_now req)")
    case True
    then have "res = Inl QuotaNotExhausted" "rg' = drop_lease failed rg"
      using rec by (auto simp: recover_quota_def split: option.splits if_splits)
    then show ?thesis
      using release_leases [OF ok rv(2)] release_from_inv [OF inv] own rv(1)
      by (simp add: drop_lease_def drop_reservation_def accounted_def granted_by_def)
  next
    case False
    then obtain f where "qc_failure cl = Some f" by auto
    then obtain req' ctx' where
      "rotate_account sha256 rv (sl_registration failed) f (qc_snapshot cl) req' policy ctx' rg = Some (res, rg')"
      using rec False rv(1) own(1) by (auto simp: recover_quota_def)
    from rotate_account_leases [OF inv ok rv(2) this] show ?thesis by (simp add: accounted_def)
  qed
qed

lemma pool_step_accounted:
  assumes "pool_step sha256 p p'" "accounted p"
  shows "accounted p'"
  using assms
proof (induction rule: pool_step.induct)
  case (manage a rg rg' held)
  then show ?case using apply_op_accounted by blast
next
  case (grant req h rg lease rg' rv held)
  then obtain st' where "select_from_state sha256 (rg_identity rg) h req (rg_state rg) = Some (Inr lease, st')"
    "rg' = rg\<lparr>rg_state := st'\<rparr>"
    by (auto simp: select_with_health_def)
  then show ?case
    using grant grant_leases [of "rg_state rg"] select_inv [of "rg_state rg"] by (simp add: accounted_def)
next
  case (refuse req h rg e rg' held)
  then obtain st' where "select_from_state sha256 (rg_identity rg) h req (rg_state rg) = Some (Inl e, st')"
    "rg' = rg\<lparr>rg_state := st'\<rparr>"
    by (auto simp: select_with_health_def)
  then have "benign rg rg'"
    using select_inv [of "rg_state rg"] select_refused_quiet by (simp add: benign_def)
  then show ?case by (rule benign_accounted [OF refuse.prems])
next
  case (release rv held rg)
  then show ?case
    using release_leases [of "rg_identity rg" "rg_state rg" held rv] release_from_inv [of "rg_state rg" rv]
    by (auto simp: accounted_def drop_reservation_def leases_ok_def)
next
  case (rotate failed cl req policy ctx rg res rg' rv held)
  then show ?case using recover_quota_accounted by blast
qed

lemma reachable_accounted: "reachable sha256 i p \<Longrightarrow> accounted p"
  unfolding reachable_def
proof (induction rule: rtranclp_induct)
  case base
  show ?case by (simp add: accounted_def registry_new_def leases_ok_def slot_def registry_state_default_def
        registry_inv_default [unfolded registry_state_default_def])
next
  case (step p p')
  then show ?case using pool_step_accounted by blast
qed

end
