(* ===== verification/Selection_Properties.thy ===== *)
theory Selection_Properties
  imports Selection_Correct
begin

text \<open>
  The properties of target selection, on the lemmas of \<open>Selection_Correct\<close>: soundness and
  completeness of a grant, session affinity, and what the strategies promise.
\<close>

section \<open>An example registry\<close>

text \<open>Two accounts of one provider serve a model; the second one is the fallback tier.\<close>

definition example_registration :: "string \<Rightarrow> u32 \<Rightarrow> registration" where
  "example_registration account priority =
     (registration_with_binding (BindingKey ''gpt/main'' account ''fp'') ''openai'' ''gpt'' cs_new)
       \<lparr>cr_priority := priority, cr_max_in_flight := Some 2\<rparr>"

definition example_state :: registry_state where
  "example_state =
     register (example_registration ''spare'' 2) (register (example_registration ''primary'' 1) registry_state_default)"

definition example_request :: selection_request where
  "example_request = (selection_request_new ''gpt'' 1000)\<lparr>sr_strategy := LeastInFlight\<rparr>"

definition example_sha :: "string \<Rightarrow> string" where
  "example_sha v = replicate 16 (CHR ''x'')"

lemma example_state_inv: "registry_inv example_state"
  by (simp add: example_state_def register_inv registration_ok_def example_registration_def
      registration_with_binding_def)

lemma example_request_ok: "request_ok example_request"
  by (simp add: request_ok_def example_request_def selection_request_new_def cs_valid_ops)

definition example_entry :: "string \<Rightarrow> u32 \<Rightarrow> u64 \<Rightarrow> registry_entry" where
  "example_entry account priority order =
     \<lparr>re_registration = example_registration account priority, re_enabled = True, re_in_flight = 0,
      re_order = order\<rparr>"

lemma example_entries:
  "rs_entries example_state =
     [(BindingKey ''gpt/main'' ''primary'' ''fp'', example_entry ''primary'' 1 0),
      (BindingKey ''gpt/main'' ''spare'' ''fp'', example_entry ''spare'' 2 1)]"
  by (simp add: example_state_def register_def Let_def prune_orphan_quotas_def registry_state_default_def
      example_registration_def registration_with_binding_def example_entry_def less_binding_key_def
      saturating_add_def)

lemma example_eligible:
  "eligible_entry example_state health_new (resolved_request example_request example_state)
     (example_entry ''primary'' 1 0)"
proof -
  have "resolved_request example_request example_state = example_request" by code_simp
  moreover have "\<not> quota_blocked example_state r t" for r t
    by (simp add: quota_blocked_def example_state_def register_def Let_def prune_orphan_quotas_def
        registry_state_default_def)
  moreover have "\<not> target_is_cooling_down health_new s t" for s t
    by (simp add: target_is_cooling_down_def target_cooldown_scopes_def is_cooling_down_def cooldown_until_def
        health_new_def all_kinds_def split: option.split)
  ultimately show ?thesis
    by (simp add: eligible_entry_def request_allows_def example_request_def selection_request_new_def
        example_entry_def example_registration_def registration_with_binding_def status_disabled_def
        credential_health_of_def binding_health_of_def health_new_def cs_contains_all_def)
qed

lemma example_ttl: "sr_affinity_ttl example_request \<noteq> 0" "sr_affinity_key example_request = None"
    "sr_affinity_rebind example_request"
  by (simp_all add: example_request_def selection_request_new_def from_secs_def nanos_per_sec_def)

lemma example_granted:
  "\<exists>lease st'. select_from_state example_sha 0 health_new example_request example_state = Some (Inr lease, st')"
proof (rule select_grants)
  have "(BindingKey ''gpt/main'' ''primary'' ''fp'', example_entry ''primary'' 1 0) \<in> set (rs_entries example_state)"
    by (simp add: example_entries)
  then show "eligible_candidates health_new example_request example_state \<noteq> []"
    using eligible_candidates_complete [OF example_request_ok _ example_eligible] by force
qed (simp_all add: example_ttl)

lemma ex_candidates_push:
  "ex_candidates (fold (\<lambda>c. push_candidate (f c)) cs ex) = ex_candidates ex @ map f cs"
  by (induction cs arbitrary: ex) (simp_all add: push_candidate_def)

lemma ex_candidates_explain:
  "ex_candidates (explain_candidates sha256 req m cs) = map (explain_candidate sha256 (sr_strategy req)) cs"
  by (simp add: explain_candidates_def ex_candidates_push explanation_new_def)

section \<open>Properties of selection\<close>

text \<open>C9. A granted lease is sound: the selected target is registered and eligible for the request
  (enabled, permitted by every filter, neither cooling down nor out of quota, below its
  concurrency limit), no eligible target has a better priority, the reservation carries the
  target's binding and declaration order, and exactly that target's in-flight count grows, by
  one; every other entry and the alias table stay as they were.\<close>

theorem select_sound:
  assumes "request_ok req" "registry_inv st"
    and "select_from_state sha256 owner h req st = Some (Inr lease, st')"
  shows "\<exists>b e. map_of (rs_entries st) b = Some e \<and> sl_registration lease = re_registration e
    \<and> cr_binding (re_registration e) = b
    \<and> eligible_entry st h (resolved_request req st) e
    \<and> (\<forall>b' e'. map_of (rs_entries st) b' = Some e' \<longrightarrow> eligible_entry st h (resolved_request req st) e' \<longrightarrow>
         cr_priority (re_registration e) \<le> cr_priority (re_registration e'))
    \<and> sl_reservation lease = Some
        \<lparr>rv_binding = b, rv_credential = bk_account b, rv_registration_order = re_order e,
         rv_owner = owner, rv_released = False\<rparr>
    \<and> binding_in_flight b st' = Some (saturating_add (re_in_flight e) 1)
    \<and> (\<forall>b'. b' \<noteq> b \<longrightarrow> map_of (rs_entries st') b' = map_of (rs_entries st) b')
    \<and> rs_aliases st' = rs_aliases st"
proof -
  let ?el = "eligible_candidates h req st"
  obtain c rebound ex st1 where c: "c \<in> set (best_tier ?el)"
    and com: "commit_selection sha256 owner req rebound c ex st1 = (lease, st')"
    and st1: "rs_entries st1 = rs_entries st" "rs_aliases st1 = rs_aliases st"
    using select_granted [OF assms(3)] by metis
  have cel: "c \<in> set ?el" using c best_tier_subset by blast
  note entry = candidate_entry(1) [OF assms(2) cel] and eff = commit_effects [OF com]
  have "cr_priority (ev_registration c) \<le> cr_priority (re_registration e')"
    if e': "map_of (rs_entries st) b' = Some e'" "eligible_entry st h (resolved_request req st) e'" for b' e'
    using eligible_candidates_complete [OF assms(1) map_of_SomeD [OF e'(1)] e'(2)] best_tier_least [OF c] by metis
  moreover have "cr_credential (ev_registration c) = bk_account (cr_binding (ev_registration c))"
    using registry_entryD(2) [OF assms(2) entry] by simp
  ultimately show ?thesis
    using entry mem_eligible_candidates(1) [OF assms(1) cel] eff(1-4) st1
    by (intro exI [of _ "cr_binding (ev_registration c)"] exI [of _ "ev_entry c"])
      (auto simp: binding_in_flight_def map_of_modify)
qed

theorem select_sound_witness:
  "\<exists>lease st'. select_from_state example_sha 0 health_new example_request example_state = Some (Inr lease, st')
   \<and> bk_account (cr_binding (sl_registration lease)) = ''primary''
   \<and> (\<exists>b e. map_of (rs_entries example_state) b = Some e \<and> sl_registration lease = re_registration e
        \<and> eligible_entry example_state health_new (resolved_request example_request example_state) e)"
proof -
  let ?e = "example_entry ''primary'' 1 0" and ?r = "resolved_request example_request example_state"
  have m: "map_of (rs_entries example_state) (BindingKey ''gpt/main'' ''primary'' ''fp'') = Some ?e"
    by (simp add: example_entries)
  obtain lease st' where s:
    "select_from_state example_sha 0 health_new example_request example_state = Some (Inr lease, st')"
    using example_granted by blast
  obtain b e where e: "map_of (rs_entries example_state) b = Some e" "sl_registration lease = re_registration e"
    "eligible_entry example_state health_new ?r e"
    and least: "\<forall>b' e'. map_of (rs_entries example_state) b' = Some e' \<longrightarrow>
      eligible_entry example_state health_new ?r e' \<longrightarrow> cr_priority (re_registration e) \<le> cr_priority (re_registration e')"
    using select_sound [OF example_request_ok example_state_inv s] by blast
  have "cr_priority (re_registration e) \<le> cr_priority (re_registration ?e)"
    using least m example_eligible by blast
  with e have "bk_account (cr_binding (sl_registration lease)) = ''primary''"
    by (auto simp: example_entries example_entry_def example_registration_def registration_with_binding_def
        word_le_nat_alt split: if_splits)
  then show ?thesis using s e by blast
qed



text \<open>C11. Sessions stick to their target: a granted request with an affinity key records the granted
  target under that key, with a fresh expiry, in a table that never exceeds 4096 entries; and while
  the recorded target is registered, eligible and in the best priority tier, and the record has not
  expired, every further grant for that key is for that same target.\<close>

theorem session_affinity:
  assumes "request_ok req" "registry_inv st" "sr_affinity_key req = Some key"
    and sel: "select_from_state sha256 owner h req st = Some (Inr lease, st')"
  shows "map_of (rs_affinity st') key = Some
        \<lparr>ab_binding = cr_binding (sl_registration lease), ab_provider = cr_provider (sl_registration lease),
         ab_model = cr_model (sl_registration lease), ab_last_used_at = sr_now req,
         ab_expires_at = affinity_expiry req\<rparr>
    \<and> length (rs_affinity st') \<le> 4096
    \<and> (\<forall>a e. map_of (rs_affinity st) key = Some a \<longrightarrow> sr_now req < ab_expires_at a \<longrightarrow>
         map_of (rs_entries st) (ab_binding a) = Some e \<longrightarrow>
         cr_provider (re_registration e) = ab_provider a \<longrightarrow> cr_model (re_registration e) = ab_model a \<longrightarrow>
         eligible_entry st h (resolved_request req st) e \<longrightarrow>
         (\<forall>b' e'. map_of (rs_entries st) b' = Some e' \<longrightarrow> eligible_entry st h (resolved_request req st) e' \<longrightarrow>
            cr_priority (re_registration e) \<le> cr_priority (re_registration e')) \<longrightarrow>
         cr_binding (sl_registration lease) = ab_binding a)"
proof -
  let ?el = "eligible_candidates h req st"
  obtain c rebound ex st1 where c: "c \<in> set (best_tier ?el)"
    and com: "commit_selection sha256 owner req rebound c ex st1 = (lease, st')"
    and inv1: "registry_inv st \<Longrightarrow> \<forall>c \<in> set ?el. cr_binding (ev_registration c) \<in> registered st \<Longrightarrow> registry_inv st1"
    and pin: "\<And>a d. map_of (rs_affinity (prepared (sr_now req) st)) key = Some a \<Longrightarrow>
       d \<in> set (best_tier ?el) \<Longrightarrow> affinity_matches a d \<Longrightarrow> affinity_matches a c"
    using select_granted [OF sel] assms(3) by metis
  have "registry_inv st1" using inv1 assms(2) candidate_entry(2) [OF assms(2)] by blast
  then have "map_of (rs_affinity st') key = Some
        \<lparr>ab_binding = cr_binding (ev_registration c), ab_provider = cr_provider (ev_registration c),
         ab_model = cr_model (ev_registration c), ab_last_used_at = sr_now req,
         ab_expires_at = affinity_expiry req\<rparr>"
    using commit_effects(8) [OF com] assms(3) affinity.ins_get [OF registry_invD(2)] by simp
  moreover have "length (rs_affinity st') \<le> 4096"
    using registry_invD(8) [OF select_inv [OF assms(2) sel]] by (simp add: max_affinity_bindings_def)
  moreover have "cr_binding (ev_registration c) = ab_binding a"
    if a: "map_of (rs_affinity st) key = Some a" "sr_now req < ab_expires_at a"
      and e: "map_of (rs_entries st) (ab_binding a) = Some e" "cr_provider (re_registration e) = ab_provider a"
        "cr_model (re_registration e) = ab_model a" "eligible_entry st h (resolved_request req st) e"
      and least: "\<forall>b' e'. map_of (rs_entries st) b' = Some e' \<longrightarrow> eligible_entry st h (resolved_request req st) e' \<longrightarrow>
            cr_priority (re_registration e) \<le> cr_priority (re_registration e')" for a e
  proof -
    obtain d where d: "d \<in> set ?el" "ev_entry d = e"
      using eligible_candidates_complete [OF assms(1) map_of_SomeD [OF e(1)] e(4)] by blast
    have "d \<in> set (best_tier ?el)"
    proof (rule best_tier_complete [OF d(1)])
      fix d' assume d': "d' \<in> set ?el"
      show "cr_priority (ev_registration d) \<le> cr_priority (ev_registration d')"
        using least candidate_entry(1) [OF assms(2) d'] mem_eligible_candidates(1) [OF assms(1) d'] d(2) by blast
    qed
    moreover have "affinity_matches a d"
      using d(2) e(2,3) registry_entryD(1) [OF assms(2) e(1)] by (simp add: affinity_matches_def)
    moreover have "map_of (rs_affinity (prepared (sr_now req) st)) key = Some a"
      using a btree.get_filter [OF registry_invD(2) [OF assms(2)]] by (simp add: affinity_expired_at_def)
    ultimately have "affinity_matches a c" using pin by blast
    then show ?thesis by (simp add: affinity_matches_def)
  qed
  ultimately show ?thesis using commit_effects(1) [OF com] by simp
qed

theorem session_affinity_witness:
  "\<exists>lease st'. select_from_state example_sha 0 health_new (example_request\<lparr>sr_affinity_key := Some ''session''\<rparr>)
       example_state = Some (Inr lease, st')
     \<and> map_option ab_binding (map_of (rs_affinity st') ''session'') = Some (cr_binding (sl_registration lease))"
proof -
  let ?req = "example_request\<lparr>sr_affinity_key := Some ''session''\<rparr>"
  have ok: "request_ok ?req" using example_request_ok by (simp add: request_ok_def)
  have "eligible_entry example_state health_new (resolved_request ?req example_state) (example_entry ''primary'' 1 0)"
    using example_eligible by (simp add: eligible_entry_def request_allows_def resolved_request_def entry_subject_def)
  moreover have "(BindingKey ''gpt/main'' ''primary'' ''fp'', example_entry ''primary'' 1 0) \<in> set (rs_entries example_state)"
    by (simp add: example_entries)
  ultimately have "eligible_candidates health_new ?req example_state \<noteq> []"
    using eligible_candidates_complete [OF ok] by force
  then obtain lease st' where s: "select_from_state example_sha 0 health_new ?req example_state = Some (Inr lease, st')"
    using select_grants [of ?req health_new example_state example_sha 0] example_ttl by auto
  then show ?thesis using session_affinity [OF ok example_state_inv _ s, of "''session''"] by simp
qed

text \<open>C14. Candidate evaluation is exact: it evaluates every registered entry once, in declaration
  order, and an entry gets no filter reason exactly when it is eligible, which is one condition on
  the request's filters, the declared facts, the health registry, the in-flight limit and the quota
  windows.\<close>

theorem candidates_evaluated_exactly:
  assumes "request_ok req"
  shows "map ev_entry (evaluate_candidates st h req) = sorted_entries st
    \<and> (\<forall>c \<in> set (evaluate_candidates st h req). ev_reasons c = [] \<longleftrightarrow> eligible_entry st h req (ev_entry c))"
proof -
  let ?p = "fallback_priority_of (sorted_entries st) req"
  have "ev_reasons (evaluate_entry st h req ?p e) = [] \<longleftrightarrow> eligible_entry st h req e" for e
    using evaluate_entry_Nil [OF assms] by blast
  moreover have "ev_entry (evaluate_entry st h req ?p e) = e" for e
    by (simp add: evaluate_entry_def Let_def)
  ultimately show ?thesis
    by (auto simp: evaluate_candidates_def Let_def comp_def)
qed

theorem candidates_evaluated_exactly_witness:
  "\<exists>c \<in> set (evaluate_candidates example_state health_new example_request).
     ev_entry c = example_entry ''primary'' 1 0 \<and> ev_reasons c = []"
proof -
  let ?cs = "evaluate_candidates example_state health_new example_request"
  have r: "resolved_request example_request example_state = example_request" by code_simp
  have "example_entry ''primary'' 1 0 \<in> set (map ev_entry ?cs)"
    using candidates_evaluated_exactly [OF example_request_ok, of example_state health_new]
    by (simp add: set_sorted_entries example_entries)
  then obtain c where c: "c \<in> set ?cs" "ev_entry c = example_entry ''primary'' 1 0" by auto
  then have "ev_reasons c = []"
    using candidates_evaluated_exactly [OF example_request_ok, of example_state health_new] example_eligible r by metis
  then show ?thesis using c by blast
qed

end
