(* ===== verification/Lease_Properties.thy ===== *)
theory Lease_Properties
  imports Lease_Accounting Selection_Properties
begin

text \<open>
  What the running registry promises to its callers: exact in-flight counts, concurrency limits
  that hold over every interleaving of operations, and quota rotation that never hands the
  failed target back.
\<close>

section \<open>Supporting facts\<close>

lemma set_btree_set_of [simp]: "set (btree_set_of xs) = set xs"
  by (simp add: btree_set_of_def)

lemma granted_entry:
  assumes "request_ok req" "registry_inv st"
    and sel: "select_from_state sha256 i h req st = Some (Inr lease, st')"
  obtains e rv where "map_of (rs_entries st) (cr_binding (sl_registration lease)) = Some e"
    "sl_registration lease = re_registration e" "eligible_entry st h (resolved_request req st) e"
    "sl_reservation lease = Some rv" "rv_binding rv = cr_binding (sl_registration lease)"
    "rv_registration_order rv = re_order e"
proof -
  obtain c rebound ex st1 where c: "c \<in> set (best_tier (eligible_candidates h req st))"
    and com: "commit_selection sha256 i req rebound c ex st1 = (lease, st')"
    using select_granted [OF sel] by metis
  have el: "c \<in> set (eligible_candidates h req st)" using best_tier_subset c by blast
  note eff = commit_effects [OF com]
  show ?thesis
  proof (rule that [OF _ _ _ eff(2)])
    show "map_of (rs_entries st) (cr_binding (sl_registration lease)) = Some (ev_entry c)"
      using candidate_entry(1) [OF assms(2) el] eff(1) by simp
    show "eligible_entry st h (resolved_request req st) (ev_entry c)"
      using mem_eligible_candidates(1) [OF assms(1) el] .
  qed (simp_all add: eff)
qed

lemma example_reachable: "reachable example_sha 0 (registry_new 0\<lparr>rg_state := example_state\<rparr>, [])"
proof -
  let ?r = "\<lambda>st. registry_new 0\<lparr>rg_state := st\<rparr>" and ?p = "example_registration ''primary'' 1"
  let ?st = "register ?p registry_state_default"
  have ok: "registration_ok (example_registration a n)" for a n
    by (simp add: registration_ok_def example_registration_def registration_with_binding_def)
  have n: "rs_next_order ?st = 1" by (simp add: register_def prune_orphan_quotas_def Let_def
        registry_state_default_def saturating_add_def)
  have "pool_step example_sha (registry_new 0, []) (?r ?st, [])"
    using pool_step.manage [of "Register ?p" "registry_new 0" example_sha] ok
    by (simp add: op_ok_def registry_new_def registry_state_default_def)
  moreover have "pool_step example_sha (?r ?st, []) (?r example_state, [])"
    using pool_step.manage [of "Register (example_registration ''spare'' 2)" "?r ?st" example_sha] ok n
    by (simp add: op_ok_def example_state_def)
  ultimately show ?thesis
    unfolding reachable_def by (meson r_into_rtranclp rtranclp.rtrancl_into_rtrancl)
qed

lemma example_grant:
  obtains lease rg' where
    "select_with_health example_sha example_request health_new (registry_new 0\<lparr>rg_state := example_state\<rparr>)
       = Some (Inr lease, rg')"
proof -
  obtain lease st' where "select_from_state example_sha 0 health_new example_request example_state = Some (Inr lease, st')"
    using example_granted by blast
  then show ?thesis by (intro that) (simp add: select_with_health_def registry_new_def)
qed

text \<open>The parts of a rotation that returns: what was recorded, decided and selected.\<close>

lemma rotate_account_result:
  assumes "rotate_account sha256 rv failed f q req policy ctx rg = Some (Inr r, rg')"
  obtains e st2 h where "map_of (rs_entries (rg_state rg)) (rv_binding rv) = Some e"
    "re_order e = rv_registration_order rv" "re_registration e = failed"
    "insert_quota_for_binding (rv_binding rv) failed q (prepared (sr_now req) (snd (release_from rv (rg_state rg))))
       = (Inr True, st2)"
    "is_retry (decide policy f ctx) \<Longrightarrow> \<exists>r' st3. select_from_state sha256 (rg_identity rg) h req st2 = Some (r', st3)
       \<and> rg_state rg' = st3 \<and> (case r' of Inr l \<Rightarrow> qr_selection r = Some l \<and> qr_retry_decision r = decide policy f ctx
           | Inl e \<Rightarrow> qr_selection r = None \<and> qr_retry_decision r = DoNotRetry StopNoAlternateTarget)"
    "\<not> is_retry (decide policy f ctx) \<Longrightarrow>
       qr_selection r = None \<and> qr_retry_decision r = decide policy f ctx \<and> rg_state rg' = st2"
proof -
  obtain e where e: "map_of (rs_entries (rg_state rg)) (rv_binding rv) = Some e"
    "re_order e = rv_registration_order rv" "re_registration e = failed"
    using assms by (auto simp: rotate_account_def Let_def split: option.splits if_splits)
  let ?p = "prepared (sr_now req) (snd (release_from rv (rg_state rg)))"
  obtain x st2 where ins: "insert_quota_for_binding (rv_binding rv) failed q ?p = (x, st2)" by force
  have x: "x = Inr True"
    using assms e ins by (auto simp: rotate_account_def Let_def prepared_def split: sum.splits bool.splits)
  let ?s = "\<lparr>hs_credential = Some (cr_credential failed), hs_model = Some (cr_model failed),
    hs_provider = Some (cr_provider failed), hs_route = sr_route req, hs_binding = Some (rv_binding rv)\<rparr>"
  obtain m h where h: "apply_failure f ?s (sr_now req) (rg_health rg) = Some (m, h)"
    using assms e ins x by (auto simp: rotate_account_def Let_def prepared_def split: option.splits)
  note parts = assms e ins x h
  have "\<exists>r' st3. select_from_state sha256 (rg_identity rg) h req st2 = Some (r', st3)
       \<and> rg_state rg' = st3 \<and> (case r' of Inr l \<Rightarrow> qr_selection r = Some l \<and> qr_retry_decision r = decide policy f ctx
           | Inl e \<Rightarrow> qr_selection r = None \<and> qr_retry_decision r = DoNotRetry StopNoAlternateTarget)"
    if "is_retry (decide policy f ctx)"
  proof -
    obtain r' st3 where sel: "select_from_state sha256 (rg_identity rg) h req st2 = Some (r', st3)"
      using select_total by blast
    then show ?thesis
      using parts that by (auto simp: rotate_account_def Let_def prepared_def split: sum.splits selection_error.splits)
  qed
  moreover have "qr_selection r = None \<and> qr_retry_decision r = decide policy f ctx \<and> rg_state rg' = st2"
    if "\<not> is_retry (decide policy f ctx)"
    using parts that by (auto simp: rotate_account_def Let_def prepared_def)
  ultimately show ?thesis using that e ins x by metis
qed

text \<open>A window that was accepted is in force.\<close>

lemma entry_insert_True:
  "btree_ok m \<Longrightarrow> quota_entry_insert (k, qs_unit q) q m = (True, m') \<Longrightarrow> ((k, qs_unit q), q) \<in> set m'"
  using entry_table.put_same [of m k q] entry_table.put_result [of m k q]
  by (auto split: option.splits dest!: map_of_SomeD)

lemma accepted_window_blocks:
  assumes "registry_inv st" "cr_binding r = b" "qs_exhausted q now"
    and ins: "insert_quota_for_binding b r q st = (Inr True, st2)"
  shows "quota_blocked st2 r now"
proof (cases "qs_scope q \<in> {QCredential, QCredentialModel}")
  case True
  then obtain m' where "quota_entry_insert (b, qs_unit q) q (rs_binding_quotas st) = (True, m')"
    "st2 = st\<lparr>rs_binding_quotas := m'\<rparr>"
    using ins by (auto simp: insert_quota_for_binding_def insert_binding_quota_def split_beta Let_def prod_eq_iff)
  then show ?thesis
    using entry_insert_True [OF registry_invD(4) [OF assms(1)]] assms(2,3)
    by (force simp: quota_blocked_def list_ex_iff)
next
  case False
  then obtain s m' where s: "quota_subject_of r (qs_scope q) = Inr s"
    "quota_entry_insert (s, qs_unit q) q (rs_quotas st) = (True, m')" "st2 = st\<lparr>rs_quotas := m'\<rparr>"
    using ins by (auto simp: insert_quota_for_binding_def insert_quota_def insert_quota_subject_def split_beta
        Let_def prod_eq_iff split: sum.splits)
  have "subject_matches s r" using quota_subject_of_matches [OF s(1)] by simp
  then show ?thesis
    using entry_insert_True [OF registry_invD(3) [OF assms(1)] s(2)] assms(3) s(3)
    by (force simp: quota_blocked_def list_ex_iff)
qed

lemma select_keeps_blocked:
  assumes "select_from_state sha256 i h req st = Some (res, st')" "quota_blocked st r (sr_now req)"
  shows "quota_blocked st' r (sr_now req)"
proof (cases res)
  case (Inl e)
  then have "st' = st \<or> st' = prepared (sr_now req) st"
    using assms(1) by (auto simp: select_unfold map_prod_def split_beta
        split: if_splits affinity_outcome.splits option.splits)
  then show ?thesis using assms(2) quota_blocked_prepared by auto
next
  case (Inr lease)
  then obtain c rebound ex st1 where "commit_selection sha256 i req rebound c ex st1 = (lease, st')"
    "rs_quotas st1 = rs_quotas (prepared (sr_now req) st)"
    "rs_binding_quotas st1 = rs_binding_quotas (prepared (sr_now req) st)"
    using select_granted [of sha256 i h req st lease st'] assms(1) by metis
  then have "rs_quotas st' = rs_quotas (prepared (sr_now req) st)"
    "rs_binding_quotas st' = rs_binding_quotas (prepared (sr_now req) st)"
    using commit_effects(5,6) by metis+
  then have "quota_blocked st' r (sr_now req) = quota_blocked (prepared (sr_now req) st) r (sr_now req)"
    by (simp add: quota_blocked_def)
  then show ?thesis using assms(2) quota_blocked_prepared by simp
qed

text \<open>A rotation whose window is accepted returns a result.\<close>

lemma rotate_account_returns:
  assumes "map_of (rs_entries (rg_state rg)) (rv_binding rv) = Some e"
    "re_order e = rv_registration_order rv" "re_registration e = failed"
    and ins: "insert_quota_for_binding (rv_binding rv) failed q
      (prepared (sr_now req) (snd (release_from rv (rg_state rg)))) = (Inr True, st2)"
    and h: "apply_failure f \<lparr>hs_credential = Some (cr_credential failed), hs_model = Some (cr_model failed),
      hs_provider = Some (cr_provider failed), hs_route = sr_route req, hs_binding = Some (rv_binding rv)\<rparr>
      (sr_now req) (rg_health rg) = Some (m, h)"
    and "sr_affinity_ttl req \<noteq> 0"
  shows "\<exists>r rg'. rotate_account sha256 rv failed f q req policy ctx rg = Some (Inr r, rg')"
proof (cases "is_retry (decide policy f ctx)")
  case False
  then show ?thesis using assms(1-3) ins h by (simp add: rotate_account_def Let_def prepared_def)
next
  case True
  obtain r' st3 where sel: "select_from_state sha256 (rg_identity rg) h req st2 = Some (r', st3)"
    using select_total by blast
  have "\<exists>m ex. e = NoEligible m ex" if "r' = Inl e" for e
    using sel assms(6) that by (auto simp: select_unfold map_prod_def split_beta
        split: if_splits affinity_outcome.splits option.splits)
  then show ?thesis
    using assms(1-3) ins h True sel
    by (cases r') (auto simp: rotate_account_def Let_def prepared_def)
qed

lemma entry_insert_False:
  assumes "\<not> fst (quota_entry_insert k q m)"
  shows "snd (quota_entry_insert k q m) = m \<and> (\<exists>c \<in> snd ` set m. \<not> quota_replaces q c)"
  using assms map_of_SomeD [of m k] by (force simp: quota_entry_insert_def split: option.splits if_splits)

definition windows :: "registry_state \<Rightarrow> quota_snapshot set" where
  "windows st = snd ` set (rs_quotas st) \<union> snd ` set (rs_binding_quotas st)"

lemma rejected_window:
  assumes ins: "insert_quota_for_binding b r q st = (res, st2)" and no: "res \<noteq> Inr True"
  shows "st2 = st \<and> (res = Inr False \<and> (\<exists>c \<in> windows st. \<not> quota_replaces q c)
    \<or> res = Inl MissingQuotaProject \<and> cr_quota_project r = None \<and> qs_scope q \<in> {QProject, QProjectModel})"
proof (cases "qs_scope q \<in> {QCredential, QCredentialModel}")
  case True
  let ?i = "quota_entry_insert (b, qs_unit q) q (rs_binding_quotas st)"
  have i: "res = Inr (fst ?i)" "st2 = st\<lparr>rs_binding_quotas := snd ?i\<rparr>"
    using ins True by (simp_all add: insert_quota_for_binding_def insert_binding_quota_def split_beta Let_def)
  then have f: "\<not> fst ?i" using no by simp
  then show ?thesis using entry_insert_False [OF f] i by (auto simp: windows_def)
next
  case False
  show ?thesis
  proof (cases "quota_subject_of r (qs_scope q)")
    case (Inl e)
    then show ?thesis
      using ins False quota_subject_of_missing [of r "qs_scope q" e]
      by (simp add: insert_quota_for_binding_def insert_quota_def)
  next
    case (Inr s)
    let ?i = "quota_entry_insert (s, qs_unit q) q (rs_quotas st)"
    have i: "res = Inr (fst ?i)" "st2 = st\<lparr>rs_quotas := snd ?i\<rparr>"
      using ins False Inr
      by (simp_all add: insert_quota_for_binding_def insert_quota_def insert_quota_subject_def split_beta Let_def)
    then have f: "\<not> fst ?i" using no by simp
    then show ?thesis using entry_insert_False [OF f] i by (auto simp: windows_def)
  qed
qed

text \<open>Why a rotation of a lease of this registry may fail.\<close>

lemma rotate_account_error:
  assumes "registry_inv (rg_state rg)" "sr_affinity_ttl req \<noteq> 0"
    and rot: "rotate_account sha256 rv failed f q req policy ctx rg = Some (Inl err, rg')"
  shows "rg_health rg' = rg_health rg \<and> rs_entries (rg_state rg') = rs_entries (drop_reservation rv (rg_state rg))
    \<and> (err = StaleLease \<and> (\<forall>e. map_of (rs_entries (rg_state rg)) (rv_binding rv) = Some e \<longrightarrow>
            re_order e \<noteq> rv_registration_order rv \<or> re_registration e \<noteq> failed)
       \<or> err = StaleQuotaObservation \<and> (\<exists>c \<in> windows (rg_state rg). \<not> quota_replaces q c)
       \<or> err = MissingQuotaProject \<and> cr_quota_project failed = None \<and> qs_scope q \<in> {QProject, QProjectModel})"
proof -
  let ?st = "snd (release_from rv (rg_state rg))"
  have drop: "drop_reservation rv (rg_state rg) = ?st" by (simp add: drop_reservation_def release_from_def)
  show ?thesis
  proof (cases "\<exists>e. map_of (rs_entries (rg_state rg)) (rv_binding rv) = Some e
      \<and> re_order e = rv_registration_order rv \<and> re_registration e = failed")
    case False
    then have "err = StaleLease \<and> rg' = rg\<lparr>rg_state := ?st\<rparr>"
      using rot by (auto simp: rotate_account_def Let_def split: option.splits)
    then show ?thesis using False drop by auto
  next
    case True
    then obtain e where e: "map_of (rs_entries (rg_state rg)) (rv_binding rv) = Some e"
      "re_order e = rv_registration_order rv" "re_registration e = failed" by blast
    let ?p = "prepared (sr_now req) ?st"
    obtain res st2 where ins: "insert_quota_for_binding (rv_binding rv) failed q ?p = (res, st2)" by force
    have no: "res \<noteq> Inr True"
    proof
      assume "res = Inr True"
      moreover have "\<exists>m h. apply_failure f \<lparr>hs_credential = Some (cr_credential failed), hs_model = Some (cr_model failed),
          hs_provider = Some (cr_provider failed), hs_route = sr_route req, hs_binding = Some (rv_binding rv)\<rparr>
          (sr_now req) (rg_health rg) = Some (m, h)"
        using rot e ins \<open>res = Inr True\<close>
        by (auto simp: rotate_account_def Let_def prepared_def split: option.splits)
      ultimately show False
        using rotate_account_returns [OF e, of q req st2 f _ _ sha256 policy ctx] ins assms(2) rot by auto
    qed
    have tables: "windows ?p \<subseteq> windows (rg_state rg)" "rs_entries ?p = rs_entries ?st"
      by (auto simp: windows_def prepared_def recover_quotas_def purge_expired_affinity_def release_from_def)
    have "rg' = rg\<lparr>rg_state := st2\<rparr> \<and> (res = Inl err \<or> res = Inr False \<and> err = StaleQuotaObservation)"
      using rot e ins no by (auto simp: rotate_account_def Let_def prepared_def split: sum.splits bool.splits)
    moreover have "st2 = ?p \<and> (res = Inr False \<and> (\<exists>c \<in> windows (rg_state rg). \<not> quota_replaces q c)
        \<or> res = Inl MissingQuotaProject \<and> cr_quota_project failed = None \<and> qs_scope q \<in> {QProject, QProjectModel})"
      using rejected_window [OF ins no] tables(1) by blast
    ultimately show ?thesis using drop tables(2) by auto
  qed
qed

section \<open>Properties\<close>

text \<open>C3. In-flight counts are exact over every interleaving of registrations, removals, health and
  quota updates, selections, releases and quota rotations: the counter of a registered entry is the
  number of reservations held for that registration, reservations of a replaced registration do not
  count, and the tables of the registry stay consistent; with nothing held, every counter is zero.\<close>

theorem lease_accounting:
  assumes "reachable sha256 i (rg, held)"
  shows "registry_inv (rg_state rg)
    \<and> (\<forall>b e. map_of (rs_entries (rg_state rg)) b = Some e \<longrightarrow>
         unat (re_in_flight e) = held_for b (re_order e) held)
    \<and> (held = [] \<longrightarrow> (\<forall>b n. binding_in_flight b (rg_state rg) = Some n \<longrightarrow> n = 0))"
proof -
  have acc: "registry_inv (rg_state rg)"
    and slots: "\<forall>b ord n. slot (rg_state rg) b = Some (ord, n) \<longrightarrow> unat n = held_for b ord held"
    using reachable_accounted [OF assms] by (auto simp: accounted_def leases_ok_def)
  have exact: "unat (re_in_flight e) = held_for b (re_order e) held"
    if "map_of (rs_entries (rg_state rg)) b = Some e" for b e
    using slots that by (simp add: slot_def)
  moreover have "n = 0" if "held = []" "binding_in_flight b (rg_state rg) = Some n" for b n
    using exact that by (auto simp: binding_in_flight_def held_for_def unsigned_eq_0_iff)
  ultimately show ?thesis using acc by blast
qed

theorem lease_accounting_witness:
  "reachable example_sha 0 (registry_new 0\<lparr>rg_state := example_state\<rparr>, [])
   \<and> registry_inv (rg_state (registry_new 0\<lparr>rg_state := example_state\<rparr>))
   \<and> binding_in_flight (BindingKey ''gpt/main'' ''primary'' ''fp'') example_state = Some 0"
proof -
  have "map_of (rs_entries example_state) (BindingKey ''gpt/main'' ''primary'' ''fp'') \<noteq> None"
    by (simp add: example_entries)
  then obtain n where "binding_in_flight (BindingKey ''gpt/main'' ''primary'' ''fp'') example_state = Some n"
    by (auto simp: binding_in_flight_def)
  then show ?thesis using lease_accounting [OF example_reachable] example_reachable by simp
qed

text \<open>C5. The registry is well-formed in every reachable state: each entry is filed under its own binding
  and account, registration orders are distinct until their counter saturates, every table is an
  ordered map, the affinity table within its ceiling, the aliases resolve, and nothing dangles: every
  affinity binding, round-robin cursor, smooth-weight scope and quota window names what is registered.\<close>

theorem registry_wellformed:
  assumes "reachable sha256 i (rg, held)" "st = rg_state rg"
  shows "btree_ok (rs_entries st)
    \<and> (\<forall>e \<in> set (rs_entries st). cr_binding (re_registration (snd e)) = fst e
          \<and> cr_credential (re_registration (snd e)) = bk_account (fst e))
    \<and> (unat (rs_next_order st) < 2 ^ 64 - 1 \<longrightarrow> distinct (map (\<lambda>e. re_order (snd e)) (rs_entries st)))
    \<and> btree_ok (rs_affinity st) \<and> length (rs_affinity st) \<le> max_affinity_bindings
    \<and> btree_ok (rs_round_robin st) \<and> btree_ok (rs_smooth_current st) \<and> btree_ok (rs_quotas st)
    \<and> btree_ok (rs_binding_quotas st) \<and> alias_inv (rs_aliases st)
    \<and> (\<forall>e \<in> set (rs_affinity st). ab_binding (snd e) \<in> set (keys (rs_entries st)))
    \<and> cursor_refs (set (keys (rs_entries st))) (rs_round_robin st)
    \<and> smooth_refs (set (keys (rs_entries st))) (rs_smooth_current st)
    \<and> quota_refs (subject_is_registered st) (rs_quotas st)
    \<and> quota_refs (\<lambda>b. b \<in> set (keys (rs_entries st))) (rs_binding_quotas st)"
proof -
  have "registry_inv st" using reachable_accounted [OF assms(1)] assms(2) by (simp add: accounted_def)
  then have parts: "entries_ok st" "orders_ok st" "tables_ok st" "refs_ok st" by (simp_all add: registry_inv_def)
  from parts(1) have "btree_ok (rs_entries st)"
    "\<forall>e \<in> set (rs_entries st). cr_binding (re_registration (snd e)) = fst e
      \<and> cr_credential (re_registration (snd e)) = bk_account (fst e)"
    by (auto simp: entries_ok_def registration_ok_def)
  with parts(2-4) show ?thesis
    unfolding orders_ok_def tables_ok_def refs_ok_def affinity_refs_def registered_def by blast
qed

theorem registry_wellformed_witness:
  "rs_entries example_state \<noteq> [] \<and> btree_ok (rs_entries example_state)
   \<and> list_all (\<lambda>e. cr_binding (re_registration (snd e)) = fst e) (rs_entries example_state)
   \<and> length (rs_affinity example_state) \<le> max_affinity_bindings \<and> alias_inv (rs_aliases example_state)"
  using registry_wellformed [OF example_reachable refl] by (simp add: list_all_iff example_entries)



lemma release_from_registration:
  assumes "map_of (rs_entries (snd (release_from rv st))) k = Some d"
  shows "\<exists>e. map_of (rs_entries st) k = Some e \<and> re_registration e = re_registration d \<and> re_enabled e = re_enabled d"
  using assms by (auto simp: release_from_def map_of_modify split: if_splits)

lemma granted_not_excluded:
  assumes "registry_inv st" "request_ok req" "b \<in> set ex" "sr_excluded_bindings req = btree_set_of ex"
    and "select_from_state sha256 i h req st = Some (Inr l, st')"
  shows "cr_binding (sl_registration l) \<noteq> b
    \<and> (\<exists>d. map_of (rs_entries st) (cr_binding (sl_registration l)) = Some d
         \<and> re_registration d = sl_registration l \<and> re_enabled d)"
proof -
  obtain d where d: "map_of (rs_entries st) (cr_binding (sl_registration l)) = Some d"
    "sl_registration l = re_registration d" "eligible_entry st h (resolved_request req st) d"
    using granted_entry [OF assms(2,1,5)] by metis
  then have "re_enabled d" "cr_binding (sl_registration l) \<notin> set (btree_set_of ex)"
    using assms(4) by (simp_all add: eligible_entry_def request_allows_def resolved_request_def Let_def)
  then show ?thesis using d assms(3) by auto
qed

text \<open>C12. Quota rotation is sound: when it returns a result the failed lease was current, its window is
  recorded and blocks the failed target from now on, the caller is told to retry exactly when a
  replacement lease is handed out, and the replacement is a registered, enabled target other than
  the failed one.\<close>

theorem quota_rotation_sound:
  assumes "registry_inv (rg_state rg)" "request_ok req" "sl_reservation failed = Some rv"
    and rec: "recover_quota sha256 failed cl req policy ctx rg = Some (Inr r, rg')"
  shows "rv_owner rv = rg_identity rg
    \<and> quota_blocked (rg_state rg') (sl_registration failed) (sr_now req)
    \<and> (is_retry (qr_retry_decision r) \<longleftrightarrow> qr_selection r \<noteq> None)
    \<and> (\<forall>l. qr_selection r = Some l \<longrightarrow> cr_binding (sl_registration l) \<noteq> rv_binding rv
         \<and> (\<exists>e. map_of (rs_entries (rg_state rg)) (cr_binding (sl_registration l)) = Some e
              \<and> re_registration e = sl_registration l \<and> re_enabled e))"
proof -
  let ?req = "req\<lparr>sr_excluded_bindings := btree_set_of (rv_binding rv # sr_excluded_bindings req)\<rparr>"
  let ?ctx = "with_target_change (quota_target_change (qs_scope (qc_snapshot cl))) ctx"
  obtain f where f: "rv_owner rv = rg_identity rg" "qc_exhausted cl (sr_now req)"
    "rotate_account sha256 rv (sl_registration failed) f (qc_snapshot cl) ?req policy ?ctx rg = Some (Inr r, rg')"
    using rec assms(3) by (auto simp: recover_quota_def split: option.splits if_splits)
  obtain e st2 h where e: "map_of (rs_entries (rg_state rg)) (rv_binding rv) = Some e"
    "re_registration e = sl_registration failed"
    and ins: "insert_quota_for_binding (rv_binding rv) (sl_registration failed) (qc_snapshot cl)
       (prepared (sr_now req) (snd (release_from rv (rg_state rg)))) = (Inr True, st2)"
    and yes: "is_retry (decide policy f ?ctx) \<Longrightarrow> \<exists>r' st3. select_from_state sha256 (rg_identity rg) h ?req st2 = Some (r', st3)
       \<and> rg_state rg' = st3 \<and> (case r' of Inr l \<Rightarrow> qr_selection r = Some l \<and> qr_retry_decision r = decide policy f ?ctx
           | Inl e \<Rightarrow> qr_selection r = None \<and> qr_retry_decision r = DoNotRetry StopNoAlternateTarget)"
    and no: "\<not> is_retry (decide policy f ?ctx) \<Longrightarrow>
       qr_selection r = None \<and> qr_retry_decision r = decide policy f ?ctx \<and> rg_state rg' = st2"
    by (rule rotate_account_result [OF f(3)]) (rule that; simp)
  let ?p = "prepared (sr_now req) (snd (release_from rv (rg_state rg)))"
  have b: "cr_binding (sl_registration failed) = rv_binding rv"
    using registry_entryD(1) [OF assms(1) e(1)] e(2) by simp
  have p: "registry_inv ?p" using assms(1) by (simp add: prepared_inv release_from_inv)
  have blocked: "quota_blocked st2 (sl_registration failed) (sr_now req)"
    using accepted_window_blocks [OF p b _ ins] f(2) by (simp add: qc_exhausted_def)
  have same: "rs_entries st2 = rs_entries (snd (release_from rv (rg_state rg)))"
    using arg_cong [OF ins, of "rs_entries \<circ> snd"] by simp
  obtain e' where "map_of (rs_entries ?p) (rv_binding rv) = Some e'" "re_registration e' = sl_registration failed"
    using e by (cases "rv_released rv") (auto simp: release_from_def map_of_modify)
  then have st2: "registry_inv st2"
    using insert_quota_for_binding_inv [OF p, of "rv_binding rv" e' "qc_snapshot cl"] ins by simp
  show ?thesis
  proof (cases "is_retry (decide policy f ?ctx)")
    case False
    then show ?thesis using no blocked f(1) by simp
  next
    case True
    then obtain r' st3 where sel: "select_from_state sha256 (rg_identity rg) h ?req st2 = Some (r', st3)"
      "rg_state rg' = st3"
      and res: "case r' of Inr l \<Rightarrow> qr_selection r = Some l \<and> qr_retry_decision r = decide policy f ?ctx
           | Inl e \<Rightarrow> qr_selection r = None \<and> qr_retry_decision r = DoNotRetry StopNoAlternateTarget"
      using yes by blast
    have "quota_blocked (rg_state rg') (sl_registration failed) (sr_now req)"
      using select_keeps_blocked [OF sel(1)] blocked sel(2) by simp
    moreover have "cr_binding (sl_registration l) \<noteq> rv_binding rv
        \<and> (\<exists>e. map_of (rs_entries (rg_state rg)) (cr_binding (sl_registration l)) = Some e
             \<and> re_registration e = sl_registration l \<and> re_enabled e)" if "r' = Inr l" for l
      using granted_not_excluded [OF st2, of ?req "rv_binding rv" "rv_binding rv # sr_excluded_bindings req"]
        sel(1) that assms(2) release_from_registration [of rv "rg_state rg", folded same]
      by (fastforce simp: request_ok_def)
    ultimately show ?thesis using res True f(1) by (auto split: sum.splits)
  qed
qed

text \<open>The primary account of the example runs out of requests while its lease is held.\<close>

definition example_lease :: "selection_lease" where
  "example_lease =
     \<lparr>sl_registration = example_registration ''primary'' 1,
      sl_explanation = explanation_new (alias_exact ''gpt'') 1 generation_initial,
      sl_reservation = Some \<lparr>rv_binding = BindingKey ''gpt/main'' ''primary'' ''fp'',
        rv_credential = ''primary'', rv_registration_order = 0, rv_owner = 0, rv_released = False\<rparr>\<rparr>"

definition example_exhaustion :: quota_classification where
  "example_exhaustion =
     \<lparr>qc_signal = SignalExhausted, qc_snapshot = quota_snapshot_new QCredential Requests QuotaExhaustedState 1000,
      qc_failure = Some (for_class ProviderUnavailable)\<rparr>"

abbreviation example_registry :: credential_registry where
  "example_registry \<equiv> registry_new 0\<lparr>rg_state := example_state\<rparr>"

lemma example_rotation:
  "\<exists>r rg'. recover_quota example_sha example_lease example_exhaustion example_request retry_policy_default ctx
     example_registry = Some (Inr r, rg')"
proof -
  let ?b = "BindingKey ''gpt/main'' ''primary'' ''fp''" and ?r = "example_registration ''primary'' 1"
  let ?rv = "\<lparr>rv_binding = ?b, rv_credential = ''primary'', rv_registration_order = 0, rv_owner = 0, rv_released = False\<rparr>"
  let ?req = "example_request\<lparr>sr_excluded_bindings := btree_set_of [?b]\<rparr>" and ?f = "for_class ProviderUnavailable"
  let ?q = "quota_snapshot_new QCredential Requests QuotaExhaustedState 1000"
  have now: "sr_now example_request = 1000" "sr_excluded_bindings example_request = []"
    by (simp_all add: example_request_def selection_request_new_def)
  have un: "recover_quota example_sha example_lease example_exhaustion example_request retry_policy_default ctx
      example_registry = rotate_account example_sha ?rv ?r ?f ?q ?req retry_policy_default
        (with_target_change (quota_target_change QCredential) ctx) example_registry"
    by (simp add: recover_quota_def example_exhaustion_def example_lease_def qc_exhausted_def qs_exhausted_def
        quota_snapshot_new_def registry_new_def now)
  have "rs_binding_quotas (prepared 1000 (snd (release_from ?rv example_state))) = []"
    by (simp add: release_from_def example_state_def register_def Let_def prune_orphan_quotas_def
        registry_state_default_def prepared_def recover_quotas_def purge_expired_affinity_def)
  then have ins: "\<exists>st2. insert_quota_for_binding ?b ?r ?q (prepared 1000 (snd (release_from ?rv example_state))) = (Inr True, st2)"
    by (simp add: insert_quota_for_binding_def insert_binding_quota_def quota_entry_insert_def quota_snapshot_new_def)
  have fail: "apply_failure ?f s t (rg_health example_registry) = Some (NoChange NoCooldownRequested, health_new)" for s t
    by (simp add: apply_failure_def for_class_def failure_classification_new_def registry_new_def)
  have entry: "map_of (rs_entries example_state) ?b = Some (example_entry ''primary'' 1 0)"
    by (simp add: example_entries)
  from ins obtain st2 where
    "insert_quota_for_binding ?b ?r ?q (prepared 1000 (snd (release_from ?rv example_state))) = (Inr True, st2)" ..
  then have "\<exists>r rg'. rotate_account example_sha ?rv ?r ?f ?q ?req retry_policy_default
        (with_target_change (quota_target_change QCredential) ctx) example_registry = Some (Inr r, rg')"
    using entry example_ttl(1) fail now
    by (intro rotate_account_returns [where e = "example_entry ''primary'' 1 0" and m = "NoChange NoCooldownRequested"
          and h = health_new]) (simp_all add: example_entry_def)
  then show ?thesis by (simp only: un)
qed

theorem quota_rotation_sound_witness:
  "\<exists>r rg'. recover_quota example_sha example_lease example_exhaustion example_request retry_policy_default
       (retry_context_new 1 Uncommitted replay_safe) example_registry = Some (Inr r, rg')
     \<and> quota_blocked (rg_state rg') (example_registration ''primary'' 1) 1000
     \<and> (is_retry (qr_retry_decision r) \<longleftrightarrow> qr_selection r \<noteq> None)"
proof -
  obtain r rg' where rec: "recover_quota example_sha example_lease example_exhaustion example_request
      retry_policy_default (retry_context_new 1 Uncommitted replay_safe) example_registry = Some (Inr r, rg')"
    using example_rotation by blast
  have "registry_inv (rg_state example_registry)" using example_state_inv by simp
  then show ?thesis
    using quota_rotation_sound [OF _ example_request_ok _ rec] rec
    by (simp add: example_lease_def example_request_def selection_request_new_def)
qed



end
