(* ===== verification/Strategies.thy ===== *)
theory Strategies
  imports Selection
begin

text \<open>
  What the selection strategies promise. The comparison closures are total comparators, so the
  candidate they pick is really extreme; round robin visits all eligible targets in turn; smooth
  weighted round robin gives every target its share of the picks, up to a constant, however long
  it runs.
\<close>

section \<open>The comparison closures\<close>

lemma total_comparator_image:
  assumes "total_comparator c T" "\<And>x. x \<in> S \<Longrightarrow> f x \<in> T"
  shows "total_comparator (\<lambda>x y. c (f x) (f y)) S"
proof
  show "x \<in> S \<Longrightarrow> y \<in> S \<Longrightarrow> c (f y) (f x) = flip (c (f x) (f y))" for x y
    by (intro total_comparator.c_swap [OF assms(1)] assms(2))
  show "x \<in> S \<Longrightarrow> y \<in> S \<Longrightarrow> z \<in> S \<Longrightarrow> c (f x) (f y) \<noteq> Greater \<Longrightarrow> c (f y) (f z) \<noteq> Greater \<Longrightarrow>
      c (f x) (f z) \<noteq> Greater" for x y z
    by (rule total_comparator.c_trans [OF assms(1) assms(2) assms(2) assms(2)])
qed

lemma total_comparator_cong:
  assumes "total_comparator c S" "\<And>x y. x \<in> S \<Longrightarrow> y \<in> S \<Longrightarrow> d x y = c x y"
  shows "total_comparator d S"
proof
  show "x \<in> S \<Longrightarrow> y \<in> S \<Longrightarrow> d y x = flip (d x y)" for x y
    unfolding assms(2) by (rule total_comparator.c_swap [OF assms(1)])
  show "x \<in> S \<Longrightarrow> y \<in> S \<Longrightarrow> z \<in> S \<Longrightarrow> d x y \<noteq> Greater \<Longrightarrow> d y z \<noteq> Greater \<Longrightarrow> d x z \<noteq> Greater" for x y z
    unfolding assms(2) by (rule total_comparator.c_trans [OF assms(1)])
qed

lemma configured_order_total: "total_comparator (compare_configured_order req) UNIV"
proof (cases "has_explicit_order req")
  case True
  then show ?thesis
    unfolding compare_configured_order_def [abs_def]
    by (simp add: total_comparator_then total_comparator_key)
next
  case False
  then show ?thesis by unfold_locales (simp_all add: compare_configured_order_def)
qed

lemmas configured_total = total_comparator_image [OF configured_order_total UNIV_I, where f = ev_registration and S = UNIV]

interpretation fallback: total_comparator "compare_fallback req" UNIV for req
  unfolding compare_fallback_def [abs_def]
  by (intro total_comparator_then total_comparator_key configured_total)

interpretation in_flight: total_comparator "compare_in_flight req" UNIV for req
  unfolding compare_in_flight_def [abs_def]
  by (intro total_comparator_then total_comparator_key configured_total)

interpretation smooth: total_comparator "compare_smooth req current" UNIV for req current
  unfolding compare_smooth_def [abs_def]
  by (intro total_comparator_then total_comparator_key total_comparator_rev [OF total_comparator_key]
      total_comparator_rev [OF configured_total])

abbreviation weight_of :: "candidate_evaluation \<Rightarrow> nat" where
  "weight_of c \<equiv> unat (effective_weight (ev_registration c))"

abbreviation load_of :: "candidate_evaluation \<Rightarrow> nat" where
  "load_of c \<equiv> unat (saturating_add (re_in_flight (ev_entry c)) 1)"

lemma load_positive: "0 < load_of c"
  by (simp add: saturation)

lemma weight_positive: "0 < weight_of c"
  by (simp add: effective_weight_def max_def word_le_nat_alt)

lemma weight_bound: "weight_of c < 2 ^ 32"
  using unsigned_less [of "effective_weight (ev_registration c)", where 'a = nat] by simp

lemma weight_positive_int: "0 < int (weight_of c)"
  using weight_positive [of c] by (metis of_nat_0_less_iff)

lemma weight_bound_int: "int (weight_of c) < 2 ^ 32"
  using weight_bound [of c] by (metis of_nat_less_iff of_nat_numeral of_nat_power)

text \<open>The products of two 32-bit values never saturate.\<close>

lemma weight_product_nat: "unat (weight_product l r) = weight_of l * load_of r"
proof -
  have "load_of r \<le> 2 ^ 32 - 1"
    using unsigned_less [of "saturating_add (re_in_flight (ev_entry r)) 1", where 'a = nat] by simp
  moreover have "weight_of l \<le> 2 ^ 32 - 1" using weight_bound [of l] by simp
  ultimately have "weight_of l * load_of r \<le> (2 ^ 32 - 1) * (2 ^ 32 - 1)" by (rule mult_le_mono [rotated])
  then show ?thesis by (simp add: weight_product_def unat_saturating_mul)
qed

lemma cmp_weight_product:
  "cmp (weight_product l r) (weight_product r l) = cmp (weight_of l * load_of r) (weight_of r * load_of l)"
  by (simp add: cmp_def word_less_nat_alt word_unat_eq_iff weight_product_nat)

lemma cross_product_total:
  "total_comparator (\<lambda>l r. cmp (weight_product l r) (weight_product r l)) UNIV"
proof
  fix x y z
  assume xy: "cmp (weight_product x y) (weight_product y x) \<noteq> Greater"
    and yz: "cmp (weight_product y z) (weight_product z y) \<noteq> Greater"
  have "weight_of x * load_of y * load_of z \<le> weight_of y * load_of x * load_of z"
    using xy by (simp add: cmp_weight_product not_less)
  also have "\<dots> = weight_of y * load_of z * load_of x" by (simp add: ac_simps)
  also have "\<dots> \<le> weight_of z * load_of y * load_of x"
    using yz by (simp add: cmp_weight_product not_less)
  finally have "load_of y * (weight_of x * load_of z) \<le> load_of y * (weight_of z * load_of x)"
    by (simp add: ac_simps)
  then show "cmp (weight_product x z) (weight_product z x) \<noteq> Greater"
    using load_positive [of y] by (simp add: cmp_weight_product not_less)
qed (simp add: flip_cmp)

interpretation health_weighted: total_comparator "compare_health_weighted req" UNIV for req
  unfolding compare_health_weighted_def [abs_def]
  by (intro total_comparator_then cross_product_total total_comparator_rev [OF total_comparator_key]
      total_comparator_rev [OF configured_total])

text \<open>Metric lists of one request have the same shape, and are then compared lexicographically.\<close>

lemma metrics_total: "total_comparator compare_metrics {ms. map rm_lower_is_better ms = shape}"
proof (induction shape)
  case Nil
  then show ?case by unfold_locales auto
next
  case (Cons b shape)
  let ?S = "{ms. map rm_lower_is_better ms = b # shape}"
  have hd: "total_comparator (\<lambda>l r. then_with (then_with (cmp (rm_known (hd l)) (rm_known (hd r)))
       (cmp (rm_meets_threshold (hd l)) (rm_meets_threshold (hd r))))
       (if b then cmp (rm_value (hd r)) (rm_value (hd l)) else cmp (rm_value (hd l)) (rm_value (hd r)))) ?S"
    by (cases b) (simp_all add: total_comparator_then total_comparator_key total_comparator_rev [OF total_comparator_key])
  have tl: "total_comparator (\<lambda>l r. compare_metrics (tl l) (tl r)) ?S"
    by (rule total_comparator_image [OF Cons]) (auto simp: map_eq_Cons_conv)
  have eq: "compare_metrics l r = then_with (then_with (then_with (cmp (rm_known (hd l)) (rm_known (hd r)))
       (cmp (rm_meets_threshold (hd l)) (rm_meets_threshold (hd r))))
       (if b then cmp (rm_value (hd r)) (rm_value (hd l)) else cmp (rm_value (hd l)) (rm_value (hd r))))
       (compare_metrics (tl l) (tl r))" if "l \<in> ?S" "r \<in> ?S" for l r
    using that by (auto simp: map_eq_Cons_conv compare_metric_def)
  show ?case by (rule total_comparator_cong [OF total_comparator_then [OF hd tl] eq])
qed

definition metrics_shape :: "selection_request \<Rightarrow> bool list" where
  "metrics_shape req =
     (case sr_routing req of
        None \<Rightarrow> []
      | Some routing \<Rightarrow> (if rr_prefer_price routing then [True] else [])
          @ (if rr_prefer_latency routing then [True] else [])
          @ (if rr_prefer_throughput routing then [False] else []))"

lemma routing_metrics_shape: "map rm_lower_is_better (routing_metrics r req) = metrics_shape req"
  by (simp add: routing_metrics_def metrics_shape_def fact_metric_def throughput_metric_def Let_def
      split: option.split)

lemma candidates_total:
  "total_comparator (compare_candidates req) {c. ev_metrics c = routing_metrics (ev_registration c) req}"
proof -
  let ?S = "{c. ev_metrics c = routing_metrics (ev_registration c) req}"
  have m: "total_comparator (\<lambda>l r. compare_metrics (ev_metrics l) (ev_metrics r)) ?S"
    by (rule total_comparator_image [OF metrics_total [of "metrics_shape req"]])
      (simp add: routing_metrics_shape)
  show ?thesis
    unfolding compare_candidates_def [abs_def]
    by (intro total_comparator_then m total_comparator_rev [OF total_comparator_key])
qed

section \<open>Repeated choices\<close>

fun repeat_choice ::
  "nat \<Rightarrow> (registry_state \<Rightarrow> (candidate_evaluation \<times> registry_state) option) \<Rightarrow> registry_state \<Rightarrow>
     candidate_evaluation list \<times> registry_state" where
  "repeat_choice 0 pick st = ([], st)"
| "repeat_choice (Suc n) pick st =
     (case pick st of
        None \<Rightarrow> ([], st)
      | Some (c, st') \<Rightarrow> map_prod ((#) c) id (repeat_choice n pick st'))"

definition cursor_of :: "selection_request \<Rightarrow> candidate_evaluation list \<Rightarrow> registry_state \<Rightarrow> nat" where
  "cursor_of req el st =
     (case map_of (rs_round_robin st) (sr_model req, sr_pool_id req, binding_scope el) of
        Some c \<Rightarrow> c | None \<Rightarrow> 0)"

lemma choose_round_robin_step:
  assumes "el \<noteq> []" "btree_ok (rs_round_robin st)" "cursor_of req el st < usize_max"
  obtains st' where "choose_round_robin req el st = Some (el ! (cursor_of req el st mod length el), st')"
    "btree_ok (rs_round_robin st')" "cursor_of req el st' = Suc (cursor_of req el st)"
proof -
  let ?key = "(sr_model req, sr_pool_id req, binding_scope el)"
  let ?st = "st\<lparr>rs_round_robin := btree_insert ?key (Suc (cursor_of req el st)) (rs_round_robin st)\<rparr>"
  have "min (cursor_of req el st + 1) usize_max = Suc (cursor_of req el st)" using assms(3) by simp
  then have "choose_round_robin req el st = Some (el ! (cursor_of req el st mod length el), ?st)"
    using assms(1) unfolding choose_round_robin_def Let_def cursor_of_def by simp
  moreover have "cursor_of req el ?st = Suc (cursor_of req el st)"
    using assms(2) by (simp add: cursor_of_def btree.get_insert)
  ultimately show ?thesis using that assms(2) by (simp add: btree.ok_insert)
qed

lemma round_robin_picks:
  assumes "el \<noteq> []" "btree_ok (rs_round_robin st)" "cursor_of req el st + n \<le> usize_max"
  shows "fst (repeat_choice n (choose_round_robin req el) st)
    = map (\<lambda>i. el ! ((cursor_of req el st + i) mod length el)) [0..<n]"
  using assms(2,3)
proof (induction n arbitrary: st)
  case (Suc n)
  have "cursor_of req el st < usize_max" using Suc.prems(2) by simp
  then obtain st' where st': "choose_round_robin req el st = Some (el ! (cursor_of req el st mod length el), st')"
    "btree_ok (rs_round_robin st')" "cursor_of req el st' = Suc (cursor_of req el st)"
    using choose_round_robin_step [OF assms(1) Suc.prems(1)] by blast
  have "fst (repeat_choice n (choose_round_robin req el) st')
      = map (\<lambda>i. el ! ((cursor_of req el st' + i) mod length el)) [0..<n]"
    using Suc.IH [OF st'(2)] Suc.prems(2) st'(3) by simp
  then show ?case
    using st'(1,3) by (simp add: upt_conv_Cons map_Suc_upt [symmetric] comp_def del: upt_Suc map_Suc_upt)
qed simp

lemma map_mod_rotate:
  assumes "xs \<noteq> []"
  shows "map (\<lambda>i. xs ! ((c + i) mod length xs)) [0..<k * length xs] = concat (replicate k (rotate c xs))"
proof (induction k)
  case (Suc k)
  let ?n = "length xs"
  have r: "map (\<lambda>i. xs ! ((c + i) mod ?n)) [0..<?n] = rotate c xs"
    by (rule nth_equalityI) (simp_all add: nth_rotate)
  have "[0..<Suc k * ?n] = [0..<?n] @ map (\<lambda>i. i + ?n) [0..<k * ?n]"
    by (simp add: map_add_upt upt_add_eq_append [symmetric] add.commute)
  moreover have "(c + (i + ?n)) mod ?n = (c + i) mod ?n" for i by (metis add.assoc mod_add_self2)
  ultimately show ?case using r Suc.IH by (simp add: comp_def)
qed simp

section \<open>Smooth weighted round robin\<close>

abbreviation binding_of :: "candidate_evaluation \<Rightarrow> binding_key" where
  "binding_of c \<equiv> cr_binding (ev_registration c)"

definition weight_in :: "(binding_key \<times> int) list \<Rightarrow> candidate_evaluation \<Rightarrow> int" where
  "weight_in cur c = (case map_of cur (binding_of c) of Some v \<Rightarrow> v | None \<Rightarrow> 0)"

definition current_of :: "selection_request \<Rightarrow> registry_state \<Rightarrow> (binding_key \<times> int) list" where
  "current_of req st =
     (case map_of (rs_smooth_current st) (sr_model req, sr_pool_id req) of Some c \<Rightarrow> c | None \<Rightarrow> [])"

definition total_weight :: "candidate_evaluation list \<Rightarrow> int" where
  "total_weight el = sum_list (map (\<lambda>c. int (weight_of c)) el)"

lemma i64_clamp_id: "\<bar>x\<bar> < 2 ^ 63 \<Longrightarrow> i64_clamp x = x"
  by (simp add: i64_clamp_def)

text \<open>The weighting loop adds every weight exactly, as long as nothing leaves 64 bits.\<close>

lemma fold_smooth_add:
  assumes "distinct (map binding_of el)" "btree_ok cur"
    "\<And>c. c \<in> set el \<Longrightarrow> \<bar>weight_in cur c + int (weight_of c)\<bar> < 2 ^ 63"
    "0 \<le> t" "t + total_weight el < 2 ^ 63"
  shows "fst (fold smooth_add el (t, cur)) = t + total_weight el
    \<and> btree_ok (snd (fold smooth_add el (t, cur)))
    \<and> (\<forall>c \<in> set el. map_of (snd (fold smooth_add el (t, cur))) (binding_of c)
         = Some (weight_in cur c + int (weight_of c)))
    \<and> (\<forall>b. b \<notin> binding_of ` set el \<longrightarrow> map_of (snd (fold smooth_add el (t, cur))) b = map_of cur b)"
  using assms
proof (induction el arbitrary: t cur)
  case Nil
  then show ?case by (simp add: total_weight_def)
next
  case (Cons d el)
  let ?cur = "btree_insert (binding_of d) (weight_in cur d + int (weight_of d)) cur"
  have nonneg: "0 \<le> total_weight el" by (auto simp: total_weight_def intro!: sum_list_nonneg)
  have t: "total_weight (d # el) = int (weight_of d) + total_weight el" by (simp add: total_weight_def)
  have step: "smooth_add d (t, cur) = (t + int (weight_of d), ?cur)"
    using Cons.prems(3) [of d] Cons.prems(4,5) t nonneg
    by (simp add: smooth_add_def Let_def i64_clamp_id weight_in_def)
  have get: "map_of ?cur b = (if b = binding_of d then Some (weight_in cur d + int (weight_of d)) else map_of cur b)" for b
    using Cons.prems(2) by (simp add: btree.get_insert)
  have same: "weight_in ?cur c = weight_in cur c" if "c \<in> set el" for c
    using Cons.prems(1) that get by (auto simp: weight_in_def image_iff)
  have "distinct (map binding_of el)" "btree_ok ?cur"
    "\<And>c. c \<in> set el \<Longrightarrow> \<bar>weight_in ?cur c + int (weight_of c)\<bar> < 2 ^ 63"
    "0 \<le> t + int (weight_of d)" "t + int (weight_of d) + total_weight el < 2 ^ 63"
    using Cons.prems t same by (simp_all add: btree.ok_insert)
  note ih = Cons.IH [OF this]
  have "binding_of d \<notin> binding_of ` set el" using Cons.prems(1) by auto
  then show ?case using ih get same t by (auto simp: step)
qed

lemma sum_list_lower: "\<forall>x \<in> set xs. - w \<le> (x :: int) \<Longrightarrow> - w * int (length xs) \<le> sum_list xs"
  by (induction xs) (auto simp: algebra_simps)

lemma balanced_upper:
  fixes xs :: "int list"
  assumes "sum_list xs = 0" "\<forall>x \<in> set xs. - w < x" "x \<in> set xs" "0 < w"
  shows "x < w * int (length xs)"
proof -
  have "x + sum_list (remove1 x xs) = 0"
    using assms(1,3) sum_list_map_remove1 [of x xs id] by simp
  moreover have "- w * int (length (remove1 x xs)) \<le> sum_list (remove1 x xs)"
    using assms(2) set_remove1_subset [of x xs] by (intro sum_list_lower) fastforce
  moreover have "int (length (remove1 x xs)) = int (length xs) - 1"
    using assms(3) by (simp add: length_remove1) (metis One_nat_def Suc_leI length_pos_if_in_set of_nat_1 of_nat_diff)
  ultimately have "x \<le> w * (int (length xs) - 1)" by (simp add: algebra_simps)
  then show ?thesis using assms(4) by (simp add: algebra_simps)
qed

definition smooth_balanced :: "candidate_evaluation list \<Rightarrow> (binding_key \<times> int) list \<Rightarrow> bool" where
  "smooth_balanced el cur \<longleftrightarrow> btree_ok cur \<and> sum_list (map (weight_in cur) el) = 0
     \<and> (\<forall>c \<in> set el. - total_weight el < weight_in cur c)"

lemma total_weight_bounds:
  "el \<noteq> [] \<Longrightarrow> 0 < total_weight el" "total_weight el \<le> 2 ^ 32 * int (length el)"
proof -
  show "total_weight el \<le> 2 ^ 32 * int (length el)"
  proof (induction el)
    case (Cons c el)
    then show ?case using weight_bound_int [of c] by (simp add: total_weight_def algebra_simps)
  qed (simp add: total_weight_def)
  show "el \<noteq> [] \<Longrightarrow> 0 < total_weight el"
  proof (induction el)
    case (Cons c el)
    then show ?case
      using weight_positive_int [of c] by (cases "el = []") (simp_all add: total_weight_def)
  qed simp
qed

lemma smooth_balanced_range:
  assumes "smooth_balanced el cur" "c \<in> set el" "length el \<le> 2 ^ 14"
  shows "weight_in cur c < total_weight el * int (length el)"
    "\<bar>weight_in cur c + int (weight_of c)\<bar> < 2 ^ 62" "total_weight el \<le> 2 ^ 46"
proof -
  let ?W = "total_weight el" and ?n = "int (length el)"
  have "el \<noteq> []" using assms(2) by auto
  then have pos: "0 < ?W" by (rule total_weight_bounds(1))
  show upper: "weight_in cur c < ?W * ?n"
    using balanced_upper [of "map (weight_in cur) el" ?W "weight_in cur c"] assms(1,2) pos
    by (simp add: smooth_balanced_def)
  have n: "?n \<le> 2 ^ 14" using assms(3) by (metis of_nat_le_iff of_nat_numeral of_nat_power)
  show W: "?W \<le> 2 ^ 46" using total_weight_bounds(2) [of el] n by simp
  have "?W * ?n \<le> 2 ^ 46 * 2 ^ 14" using W n pos by (intro mult_mono) simp_all
  moreover have "- ?W < weight_in cur c" using assms(1,2) by (simp add: smooth_balanced_def)
  moreover note weight_bound_int [of c] weight_positive_int [of c]
  ultimately have "weight_in cur c + int (weight_of c) < 2 ^ 62" "- (2 ^ 62) < weight_in cur c + int (weight_of c)"
    using upper W by simp_all
  then show "\<bar>weight_in cur c + int (weight_of c)\<bar> < 2 ^ 62" by (simp only: abs_less_iff) simp
qed

lemma choose_smooth_step:
  assumes el: "el \<noteq> []" "distinct (map binding_of el)" "length el \<le> 2 ^ 14"
    and ok: "btree_ok (rs_smooth_current st)" and bal: "smooth_balanced el (current_of req st)"
  obtains s st' where "choose_smooth req el st = Some (s, st')" "s \<in> set el"
    "\<forall>c \<in> set el. weight_in (current_of req st') c =
       weight_in (current_of req st) c + int (weight_of c) - (if c = s then total_weight el else 0)"
    "btree_ok (rs_smooth_current st')" "smooth_balanced el (current_of req st')"
proof -
  let ?cur = "current_of req st" and ?W = "total_weight el" and ?key = "(sr_model req, sr_pool_id req)"
  let ?acc = "fold smooth_add el (0, ?cur)"
  have W: "0 < ?W" "?W \<le> 2 ^ 46"
    using total_weight_bounds(1) [OF el(1)] smooth_balanced_range(3) [OF bal hd_in_set [OF el(1)] el(3)] by simp_all
  have "\<bar>weight_in ?cur c + int (weight_of c)\<bar> < 2 ^ 63" if "c \<in> set el" for c
    using smooth_balanced_range(2) [OF bal that el(3)] by simp
  then have acc: "fst ?acc = ?W" "btree_ok (snd ?acc)"
    "\<forall>c \<in> set el. map_of (snd ?acc) (binding_of c) = Some (weight_in ?cur c + int (weight_of c))"
    using fold_smooth_add [OF el(2), of ?cur 0] bal W(2) by (auto simp: smooth_balanced_def)
  obtain s where s: "max_by (compare_smooth req (snd ?acc)) el = Some s" "s \<in> set el"
    using max_by_Some [OF el(1)] max_by_mem by metis
  have top: "weight_in ?cur d + int (weight_of d) \<le> weight_in ?cur s + int (weight_of s)" if "d \<in> set el" for d
    using smooth.max_by_greatest [OF s(1) subset_UNIV that] acc(3) that s(2)
    by (auto simp: compare_smooth_def not_less)
  let ?new = "map_modify (binding_of s) (\<lambda>v. i64_clamp (v - ?W)) (snd ?acc)"
  let ?st = "st\<lparr>rs_smooth_current := btree_insert ?key ?new (rs_smooth_current st)\<rparr>"
  have ch: "choose_smooth req el st = Some (s, ?st)"
    using s(1) acc(1) by (simp add: choose_smooth_def Let_def split_beta current_of_def [symmetric])
  have cur': "current_of req ?st = ?new" using ok by (simp add: current_of_def btree.get_insert)
  have clamp: "i64_clamp (weight_in ?cur s + int (weight_of s) - ?W) = weight_in ?cur s + int (weight_of s) - ?W"
    using smooth_balanced_range(2) [OF bal s(2) el(3)] W
    by (intro i64_clamp_id) (simp only: abs_less_iff, simp)
  have inj: "binding_of c = binding_of s \<longleftrightarrow> c = s" if "c \<in> set el" for c
    using el(2) that s(2) by (auto simp: distinct_map inj_on_def)
  have val: "weight_in ?new c = weight_in ?cur c + int (weight_of c) - (if c = s then ?W else 0)" if "c \<in> set el" for c
    using acc(3) that clamp inj [OF that] by (auto simp: weight_in_def map_of_modify)
  have sum: "sum_list (map (weight_in ?new) el) = 0"
  proof -
    have "sum_list (map (weight_in ?new) el)
        = sum_list (map (\<lambda>c. weight_in ?cur c + int (weight_of c) - (if c = s then ?W else 0)) el)"
      using val by (simp cong: map_cong)
    also have "\<dots> = sum_list (map (weight_in ?cur) el) + ?W - sum_list (map (\<lambda>c. if c = s then ?W else 0) el)"
      by (simp add: total_weight_def sum_list_addf sum_list_subtractf)
    also have "sum_list (map (\<lambda>c. if c = s then ?W else 0) el) = ?W"
      using el(2) s(2) by (simp add: sum_list_distinct_conv_sum_set distinct_map)
    finally show ?thesis using bal by (simp add: smooth_balanced_def)
  qed
  have pos: "0 < weight_in ?cur s + int (weight_of s)"
  proof (rule ccontr)
    assume "\<not> 0 < weight_in ?cur s + int (weight_of s)"
    then have "sum_list (map (\<lambda>c. weight_in ?cur c + int (weight_of c)) el) \<le> 0"
      using top by (intro sum_list_nonpos) force
    then show False using bal W(1) by (simp add: smooth_balanced_def sum_list_addf total_weight_def)
  qed
  have "- ?W < weight_in ?new c" if "c \<in> set el" for c
  proof -
    have "- ?W < weight_in (current_of req st) c"
      using bal that by (simp add: smooth_balanced_def)
    then show ?thesis
      using val [OF that] pos weight_positive_int [of c] by (cases "c = s") simp_all
  qed
  then have "smooth_balanced el ?new"
    using sum btree.ok_modify [OF acc(2)] by (simp add: smooth_balanced_def)
  then show ?thesis
    using that [OF ch s(2)] val cur' ok by (simp add: btree.ok_insert)
qed

end
