(* ===== verification/Strategy_Properties.thy ===== *)
theory Strategy_Properties
  imports Strategies Selection_Properties
begin

text \<open>
  The promises of the strategies, stated on \<open>choose_index\<close>: the extreme candidate for the
  strategies that compare, whole rounds for round robin, and a bounded deviation from the
  configured share for smooth weighted round robin.
\<close>

section \<open>Dispatch on the strategy\<close>

definition is_adaptive :: "selection_request \<Rightarrow> bool" where
  "is_adaptive req \<longleftrightarrow> (case sr_routing req of Some routing \<Rightarrow> adaptive routing | None \<Rightarrow> False)"

lemma choose_index_strategy:
  assumes "\<not> is_adaptive req"
  shows "sr_strategy req = RoundRobin \<Longrightarrow> choose_index req = choose_round_robin req"
    "sr_strategy req = SmoothWeightedRoundRobin \<Longrightarrow> choose_index req = choose_smooth req"
  using assms by (auto simp: choose_index_def is_adaptive_def fun_eq_iff split: option.splits)

lemma choose_index_adaptive:
  "is_adaptive req \<Longrightarrow> choose_index req el st = map_option (\<lambda>c. (c, st)) (max_by (compare_candidates req) el)"
  by (simp add: choose_index_def is_adaptive_def)

lemma choose_index_Nil: "choose_index req [] st = None"
  by (simp add: choose_index_def choose_round_robin_def choose_smooth_def split: option.split selection_strategy.split)

text \<open>Evaluations as \<open>evaluate_entry\<close> makes them carry the metrics of their registration.\<close>

definition evaluated_for :: "selection_request \<Rightarrow> candidate_evaluation list \<Rightarrow> bool" where
  "evaluated_for req el \<longleftrightarrow> (\<forall>c \<in> set el. ev_metrics c = routing_metrics (ev_registration c) req)"

lemma adaptive_best:
  assumes "max_by (compare_candidates req) el = Some c" "evaluated_for req el" "d \<in> set el"
  shows "compare_metrics (ev_metrics d) (ev_metrics c) \<noteq> Greater"
proof -
  have "set el \<subseteq> {c. ev_metrics c = routing_metrics (ev_registration c) req}"
    using assms(2) by (auto simp: evaluated_for_def)
  then have "compare_candidates req d c \<noteq> Greater"
    using total_comparator.max_by_greatest [OF candidates_total assms(1) _ assms(3)] by simp
  then show ?thesis by (simp add: compare_candidates_def)
qed

text \<open>When the price is the first preference, an affordable known price is beaten only by a
  lower one.\<close>

lemma price_first:
  assumes "sr_routing req = Some routing" "rr_prefer_price routing"
    and "ev_metrics c = routing_metrics (ev_registration c) req"
      "ev_metrics d = routing_metrics (ev_registration d) req"
    and "compare_metrics (ev_metrics d) (ev_metrics c) \<noteq> Greater"
    and "fact_value (cf_price (cr_facts (ev_registration d))) = Some p"
      "\<forall>limit. rr_max_price routing = Some limit \<longrightarrow> p \<le> limit"
  shows "\<exists>q. fact_value (cf_price (cr_facts (ev_registration c))) = Some q \<and> q \<le> p"
proof -
  let ?m = "\<lambda>e. fact_metric (fact_value (cf_price (cr_facts (ev_registration e)))) (rr_max_price routing) True"
  have "compare_metric (?m d) (?m c) \<noteq> Greater"
    using assms(5) unfolding assms(3,4) by (simp add: routing_metrics_def assms(1,2) Let_def)
  then show ?thesis
    using assms(6,7) by (auto simp: compare_metric_def fact_metric_def not_less split: option.splits if_splits)
qed

section \<open>Properties of the strategies\<close>

text \<open>C17. The strategies that compare pick the extreme candidate: an adaptive request gets one
  that no other beats on the metrics (and, when price comes first, one at least as cheap as any
  affordable candidate); least-in-flight the smallest load; health-weighted the largest weight per
  load, with products that never saturate; ordered fallback the earliest position; fill-first the
  first eligible target.\<close>

theorem strategies_optimal:
  assumes "choose_index req el st = Some (c, st')" "evaluated_for req el"
  shows "c \<in> set el
    \<and> (is_adaptive req \<longrightarrow> (\<forall>d \<in> set el. compare_metrics (ev_metrics d) (ev_metrics c) \<noteq> Greater)
         \<and> (\<forall>routing d p. sr_routing req = Some routing \<longrightarrow> rr_prefer_price routing \<longrightarrow> d \<in> set el \<longrightarrow>
              fact_value (cf_price (cr_facts (ev_registration d))) = Some p \<longrightarrow>
              (\<forall>limit. rr_max_price routing = Some limit \<longrightarrow> p \<le> limit) \<longrightarrow>
              (\<exists>q. fact_value (cf_price (cr_facts (ev_registration c))) = Some q \<and> q \<le> p)))
    \<and> (\<not> is_adaptive req \<longrightarrow>
         (sr_strategy req = LeastInFlight \<longrightarrow>
            (\<forall>d \<in> set el. re_in_flight (ev_entry c) \<le> re_in_flight (ev_entry d)))
         \<and> (sr_strategy req = HealthWeighted \<longrightarrow>
            (\<forall>d \<in> set el. weight_of d * load_of c \<le> weight_of c * load_of d))
         \<and> (sr_strategy req = OrderedFallback \<longrightarrow>
            (\<forall>d \<in> set el. ordered_fallback_position (ev_registration c) req
                          \<le> ordered_fallback_position (ev_registration d) req))
         \<and> (sr_strategy req = FillFirst \<longrightarrow> c = hd el))"
proof -
  have "el \<noteq> []" using choose_index_Nil [of req st] assms(1) by auto
  then have mem: "c \<in> set el" using choose_index_Some [of el req st] assms(1) by auto
  show ?thesis
  proof (cases "is_adaptive req")
    case True
    then have m: "max_by (compare_candidates req) el = Some c"
      using assms(1) by (auto simp: choose_index_adaptive)
    have best: "compare_metrics (ev_metrics d) (ev_metrics c) \<noteq> Greater" if "d \<in> set el" for d
      using adaptive_best [OF m assms(2) that] .
    then show ?thesis
      using True mem assms(2) price_first [OF _ _ _ _ best] by (auto simp: evaluated_for_def)
  next
    case False
    then have ch: "choose_index req el st = Some (c, st')" "\<not> (case sr_routing req of None \<Rightarrow> False | Some x \<Rightarrow> adaptive x)"
      using assms(1) by (simp_all add: is_adaptive_def)
    have "re_in_flight (ev_entry c) \<le> re_in_flight (ev_entry d)"
      if "sr_strategy req = LeastInFlight" "d \<in> set el" for d
      using ch that in_flight.min_by_least [OF _ subset_UNIV that(2), of req c]
      by (auto simp: choose_index_def compare_in_flight_def not_less)
    moreover have "weight_of d * load_of c \<le> weight_of c * load_of d"
      if "sr_strategy req = HealthWeighted" "d \<in> set el" for d
      using ch that health_weighted.max_by_greatest [OF _ subset_UNIV that(2), of req c]
      by (auto simp: choose_index_def compare_health_weighted_def cmp_weight_product not_less)
    moreover have "ordered_fallback_position (ev_registration c) req \<le> ordered_fallback_position (ev_registration d) req"
      if "sr_strategy req = OrderedFallback" "d \<in> set el" for d
      using ch that fallback.min_by_least [OF _ subset_UNIV that(2), of req c]
      by (auto simp: choose_index_def compare_fallback_def not_less)
    moreover have "c = hd el" if "sr_strategy req = FillFirst"
      using ch that by (auto simp: choose_index_def split: list.splits)
    ultimately show ?thesis using False mem by blast
  qed
qed

text \<open>Two idle targets of one model, as the evaluation leaves them for a request without routing.\<close>

definition example_evaluation :: "string \<Rightarrow> u64 \<Rightarrow> candidate_evaluation" where
  "example_evaluation account order =
     \<lparr>ev_entry = example_entry account 1 order, ev_reasons = [], ev_metrics = []\<rparr>"

definition example_tier :: "candidate_evaluation list" where
  "example_tier = [example_evaluation ''primary'' 0, example_evaluation ''spare'' 1]"

definition strategy_request :: "selection_strategy \<Rightarrow> selection_request" where
  "strategy_request s = (selection_request_new ''gpt'' 1000)\<lparr>sr_strategy := s\<rparr>"

lemma strategy_request_plain [simp]:
  "\<not> is_adaptive (strategy_request s)" "sr_strategy (strategy_request s) = s"
  by (simp_all add: is_adaptive_def strategy_request_def selection_request_new_def)

lemma example_tier_ok:
  "example_tier \<noteq> []" "length example_tier = 2" "distinct (map binding_of example_tier)"
  "evaluated_for (strategy_request s) example_tier"
  by (simp_all add: example_tier_def example_evaluation_def example_entry_def example_registration_def
      registration_with_binding_def evaluated_for_def routing_metrics_def strategy_request_def
      selection_request_new_def)

theorem strategies_optimal_witness:
  "choose_index (strategy_request FillFirst) example_tier registry_state_default
     = Some (example_evaluation ''primary'' 0, registry_state_default)
   \<and> evaluated_for (strategy_request FillFirst) example_tier
   \<and> (\<exists>c st'. choose_index (strategy_request HealthWeighted) example_tier registry_state_default = Some (c, st')
        \<and> (\<forall>d \<in> set example_tier. weight_of d * load_of c \<le> weight_of c * load_of d))"
proof -
  let ?req = "strategy_request HealthWeighted"
  obtain c st' where c: "choose_index ?req example_tier registry_state_default = Some (c, st')"
    using choose_index_Some [OF example_tier_ok(1)] by blast
  have "choose_index (strategy_request FillFirst) example_tier registry_state_default
      = Some (example_evaluation ''primary'' 0, registry_state_default)"
    by (simp add: choose_index_def example_tier_def strategy_request_def selection_request_new_def)
  moreover have "\<forall>d \<in> set example_tier. weight_of d * load_of c \<le> weight_of c * load_of d"
    using strategies_optimal [OF c example_tier_ok(4)] by simp
  ultimately show ?thesis using c example_tier_ok(4) by blast
qed

text \<open>C16. Round robin is fair: over any number of whole rounds it picks every eligible target once
  per round, in the order of the eligible list, starting from where the cursor stands.\<close>

theorem round_robin_fair:
  assumes "sr_strategy req = RoundRobin" "\<not> is_adaptive req" "el \<noteq> []" "btree_ok (rs_round_robin st)"
    and "cursor_of req el st + rounds * length el \<le> usize_max"
  shows "fst (repeat_choice (rounds * length el) (choose_index req el) st)
    = concat (replicate rounds (rotate (cursor_of req el st) el))"
proof -
  have "choose_index req el = choose_round_robin req el" using choose_index_strategy(1) [OF assms(2,1)] by simp
  then show ?thesis using round_robin_picks [OF assms(3,4,5)] map_mod_rotate [OF assms(3)] by simp
qed

theorem round_robin_fair_witness:
  "fst (repeat_choice 4 (choose_index (strategy_request RoundRobin) example_tier) registry_state_default)
     = example_tier @ example_tier"
proof -
  have "cursor_of (strategy_request RoundRobin) example_tier registry_state_default = 0"
    "btree_ok (rs_round_robin registry_state_default)"
    by (simp_all add: cursor_of_def registry_state_default_def btree_ok_def)
  moreover have "concat (replicate 2 xs) = xs @ xs" for xs :: "candidate_evaluation list"
    by (simp add: numeral_2_eq_2)
  ultimately show ?thesis
    using round_robin_fair [of "strategy_request RoundRobin" example_tier registry_state_default 2]
    by (simp add: example_tier_ok(1,2) usize_max_def)
qed

text \<open>The picks of a run from a balanced table, and the weights it leaves.\<close>

lemma smooth_run:
  assumes el: "el \<noteq> []" "distinct (map binding_of el)" "length el \<le> 2 ^ 14"
    and ok: "btree_ok (rs_smooth_current st)" and bal: "smooth_balanced el (current_of req st)"
    and run: "repeat_choice n (choose_smooth req el) st = (picks, st')"
  shows "length picks = n \<and> set picks \<subseteq> set el \<and> smooth_balanced el (current_of req st')
    \<and> (\<forall>c \<in> set el. weight_in (current_of req st') c =
         weight_in (current_of req st) c + int n * int (weight_of c) - total_weight el * int (count_list picks c))"
  using ok bal run
proof (induction n arbitrary: st picks)
  case (Suc n)
  obtain s st1 where s: "choose_smooth req el st = Some (s, st1)" "s \<in> set el"
    "\<forall>c \<in> set el. weight_in (current_of req st1) c =
       weight_in (current_of req st) c + int (weight_of c) - (if c = s then total_weight el else 0)"
    "btree_ok (rs_smooth_current st1)" "smooth_balanced el (current_of req st1)"
    using choose_smooth_step [OF el Suc.prems(1,2)] by blast
  obtain ps where ps: "repeat_choice n (choose_smooth req el) st1 = (ps, st')" "picks = s # ps"
    using Suc.prems(3) s(1) by (cases "repeat_choice n (choose_smooth req el) st1") auto
  have ih: "length ps = n" "set ps \<subseteq> set el" "smooth_balanced el (current_of req st')"
    "\<forall>c \<in> set el. weight_in (current_of req st') c =
       weight_in (current_of req st1) c + int n * int (weight_of c) - total_weight el * int (count_list ps c)"
    using Suc.IH [OF s(4,5) ps(1)] by blast+
  have "weight_in (current_of req st') c =
      weight_in (current_of req st) c + int (Suc n) * int (weight_of c) - total_weight el * int (count_list picks c)"
    if "c \<in> set el" for c
    using bspec [OF ih(4) that] bspec [OF s(3) that] ps(2) by (cases "c = s") (simp_all add: algebra_simps)
  then show ?case using ih s(2) ps(2) by simp
qed simp

text \<open>C15. Smooth weighted round robin keeps to the configured shares: over any number of choices
  among the same targets, from a fresh table, every target is picked its weighted share of the
  times, less than one pick above it and less than the number of targets below it; so no target
  starves, whatever its weight.\<close>

theorem smooth_share:
  assumes "sr_strategy req = SmoothWeightedRoundRobin" "\<not> is_adaptive req"
    and el: "el \<noteq> []" "distinct (map binding_of el)" "length el \<le> 2 ^ 14"
    and st: "btree_ok (rs_smooth_current st)" "map_of (rs_smooth_current st) (sr_model req, sr_pool_id req) = None"
    and run: "repeat_choice n (choose_index req el) st = (picks, st')" and c: "c \<in> set el"
  shows "length picks = n \<and> set picks \<subseteq> set el
    \<and> total_weight el * int (count_list picks c) < int n * int (weight_of c) + total_weight el
    \<and> int n * int (weight_of c) < total_weight el * (int (count_list picks c) + int (length el))
    \<and> (total_weight el * int (length el) \<le> int n * int (weight_of c) \<longrightarrow> c \<in> set picks)"
proof -
  let ?W = "total_weight el" and ?k = "int (count_list picks c)"
  have W: "0 < ?W" by (rule total_weight_bounds(1) [OF el(1)])
  have cur: "current_of req st = []" using st(2) by (simp add: current_of_def)
  have zero: "weight_in [] = (\<lambda>d. 0)" by (simp add: weight_in_def fun_eq_iff)
  have bal: "smooth_balanced el (current_of req st)"
    using W by (simp add: smooth_balanced_def cur zero btree_ok_def)
  have "repeat_choice n (choose_smooth req el) st = (picks, st')"
    using run choose_index_strategy(2) [OF assms(2,1)] by simp
  from smooth_run [OF el st(1) bal this] c have r: "length picks = n" "set picks \<subseteq> set el" "smooth_balanced el (current_of req st')"
    "weight_in (current_of req st') c = int n * int (weight_of c) - ?W * ?k"
    by (simp_all add: cur zero)
  have "- ?W < int n * int (weight_of c) - ?W * ?k" using r(3,4) c by (metis smooth_balanced_def)
  moreover have up: "int n * int (weight_of c) - ?W * ?k < ?W * int (length el)"
    using smooth_balanced_range(1) [OF r(3) c el(3)] r(4) by simp
  moreover have "c \<in> set picks" if "?W * int (length el) \<le> int n * int (weight_of c)"
  proof (rule ccontr)
    assume "c \<notin> set picks"
    then have "?k = 0" by simp
    then show False using up that by simp
  qed
  ultimately show ?thesis using r(1,2) by (simp add: distrib_left)
qed

theorem smooth_share_witness:
  "\<exists>picks st'. repeat_choice 4 (choose_index (strategy_request SmoothWeightedRoundRobin) example_tier)
       registry_state_default = (picks, st') \<and> length picks = 4 \<and> set picks \<subseteq> set example_tier
     \<and> example_evaluation ''spare'' 1 \<in> set picks"
proof -
  let ?req = "strategy_request SmoothWeightedRoundRobin" and ?c = "example_evaluation ''spare'' 1"
  obtain picks st' where run: "repeat_choice 4 (choose_index ?req example_tier) registry_state_default = (picks, st')"
    by force
  have w: "weight_of (example_evaluation a k) = 1" for a k
    by (simp add: example_evaluation_def example_entry_def example_registration_def registration_with_binding_def
        effective_weight_def saturating_mul_def max_def)
  have "total_weight example_tier = 2" by (simp add: example_tier_def total_weight_def w del: of_nat_unat)
  moreover have "?c \<in> set example_tier" by (simp add: example_tier_def)
  ultimately show ?thesis
    using smooth_share [of ?req example_tier registry_state_default 4 picks st' ?c] run w
    by (simp add: example_tier_ok registry_state_default_def btree_ok_def del: of_nat_unat)
qed

end
