(* ===== verification/Quota_Windows.thy ===== *)
theory Quota_Windows
  imports Registry
begin

text \<open>
  Both quota tables of the registry, the one of bindings and the one of shared subjects, keep the
  contract of a quota table: per window the newest observation survives, whatever the order in
  which concurrent requests report.
\<close>

interpretation binding_windows: quota_table
  "\<lambda>st. btree_ok (rs_binding_quotas st)" insert_binding_quota "\<lambda>st b u. map_of (rs_binding_quotas st) (b, u)"
  using entry_table.put_ok entry_table.put_same entry_table.put_other entry_table.put_result
  by unfold_locales (simp_all add: insert_binding_quota_def split_beta Let_def)

interpretation subject_windows: quota_table
  "\<lambda>st. btree_ok (rs_quotas st)" insert_quota_subject "\<lambda>st s u. map_of (rs_quotas st) (s, u)"
  using entry_table.put_ok entry_table.put_same entry_table.put_other entry_table.put_result
  by unfold_locales (simp_all add: insert_quota_subject_def split_beta Let_def)

lemma quota_order_observed: "quota_order q w \<noteq> Greater \<Longrightarrow> qs_observed_at q \<le> qs_observed_at w"
  by (auto simp: quota_order_def cmp_def split: if_splits)

lemma put_all_binding:
  "binding_windows.put_all ps st = fold (\<lambda>p st. snd (insert_binding_quota (fst p) (snd p) st)) ps st"
  by (simp add: binding_windows.put_all_def case_prod_beta')

text \<open>C18. The newest observation wins: after any sequence of reports the window of a binding and unit
  is one that was reported for them, observed no earlier than any other of them, and among those
  observed at the same time the most restrictive one; the order of the reports does not matter
  beyond that.\<close>

theorem newest_observation_wins:
  assumes "btree_ok (rs_binding_quotas st)" "map_of (rs_binding_quotas st) (b, qs_unit q) = None"
    and "(b, q) \<in> set ps"
  shows "\<exists>w. map_of (rs_binding_quotas
        (fold (\<lambda>p st. snd (insert_binding_quota (fst p) (snd p) st)) ps st)) (b, qs_unit q) = Some w
    \<and> (b, w) \<in> set ps
    \<and> (\<forall>q'. (b, q') \<in> set ps \<longrightarrow> qs_unit q' = qs_unit q \<longrightarrow>
         qs_observed_at q' \<le> qs_observed_at w \<and> quota_order q' w \<noteq> Greater)"
  using binding_windows.put_all_newest [of st b "qs_unit q" ps] assms quota_order_observed
  unfolding put_all_binding by (auto split: option.splits)

theorem newest_observation_wins_witness:
  "\<exists>w. map_of (rs_binding_quotas
      (fold (\<lambda>p st. snd (insert_binding_quota (fst p) (snd p) st))
        [(BindingKey ''t'' ''a'' ''f'', quota_snapshot_new QCredential Requests QuotaExhaustedState 7),
         (BindingKey ''t'' ''a'' ''f'', quota_snapshot_new QCredential Requests QuotaAvailable 5)]
        registry_state_default)) (BindingKey ''t'' ''a'' ''f'', Requests) = Some w
    \<and> 7 \<le> qs_observed_at w"
  using newest_observation_wins [of registry_state_default "BindingKey ''t'' ''a'' ''f''"
      "quota_snapshot_new QCredential Requests QuotaExhaustedState 7"
      "[(BindingKey ''t'' ''a'' ''f'', quota_snapshot_new QCredential Requests QuotaExhaustedState 7),
        (BindingKey ''t'' ''a'' ''f'', quota_snapshot_new QCredential Requests QuotaAvailable 5)]"]
  by (auto simp: registry_state_default_def quota_snapshot_new_def btree_ok_def)

end
