(* ===== verification/Connect.thy ===== *)
theory Connect
  imports Pooler_Prelude
begin

unbundle bit_operations_syntax

text \<open>
  ConnectRPC envelope framing (\<open>pooler-protocol/src/connect.rs\<close>): envelopes, limits, the
  incremental decoder and the encoder. The gzip codec is the package \<open>flate2\<close>: a parameter of
  the model, given by the blocks its reader returns, the position its reader stops at, and the
  writes its encoder makes. The decoder's loop is a recursion over the rest of the chunk.
\<close>

section \<open>Envelopes and limits\<close>

definition connect_envelope_header_bytes :: nat where "connect_envelope_header_bytes = 5"

definition connect_flag_compressed :: u8 where "connect_flag_compressed = 1"

definition connect_flag_end_stream :: u8 where "connect_flag_end_stream = 2"

definition connect_allowed_flags :: u8 where
  "connect_allowed_flags = connect_flag_compressed OR connect_flag_end_stream"

definition default_connect_max_frame_bytes :: nat where
  "default_connect_max_frame_bytes = 16 * 1024 * 1024"

definition default_connect_max_decompressed_bytes :: nat where
  "default_connect_max_decompressed_bytes = 64 * 1024 * 1024"

datatype connect_compression = Identity | Gzip

record connect_limits =
  cl_max_frame_bytes :: nat
  cl_max_decompressed_bytes :: nat

definition connect_limits_new :: "nat \<Rightarrow> nat \<Rightarrow> connect_limits" where
  "connect_limits_new frame decompressed =
     \<lparr>cl_max_frame_bytes = frame, cl_max_decompressed_bytes = decompressed\<rparr>"

definition connect_limits_default :: connect_limits where
  "connect_limits_default =
     connect_limits_new default_connect_max_frame_bytes default_connect_max_decompressed_bytes"

record connect_envelope =
  env_flags :: u8
  env_payload :: "u8 list"

datatype connect_error =
    InvalidFlags u8
  | CompressedEndStream
  | CompressionNotNegotiated
  | FrameTooLarge nat nat
  | DecompressedTooLarge nat nat
  | Truncated nat
  | InvalidGzip string
  | AfterEndStream

definition validate_flags :: "u8 \<Rightarrow> connect_error + unit" where
  "validate_flags flags =
     (if flags AND NOT connect_allowed_flags \<noteq> 0 then Inl (InvalidFlags flags)
      else if flags AND connect_flag_compressed \<noteq> 0 \<and> flags AND connect_flag_end_stream \<noteq> 0
      then Inl CompressedEndStream
      else Inr ())"

definition envelope_new :: "u8 \<Rightarrow> u8 list \<Rightarrow> connect_error + connect_envelope" where
  "envelope_new flags payload =
     (case validate_flags flags of
        Inl e \<Rightarrow> Inl e
      | Inr u \<Rightarrow> Inr \<lparr>env_flags = flags, env_payload = payload\<rparr>)"

definition envelope_data :: "u8 list \<Rightarrow> connect_envelope" where
  "envelope_data payload = \<lparr>env_flags = 0, env_payload = payload\<rparr>"

definition envelope_compressed_data :: "u8 list \<Rightarrow> connect_envelope" where
  "envelope_compressed_data payload = \<lparr>env_flags = connect_flag_compressed, env_payload = payload\<rparr>"

definition envelope_end_stream :: "u8 list \<Rightarrow> connect_envelope" where
  "envelope_end_stream payload = \<lparr>env_flags = connect_flag_end_stream, env_payload = payload\<rparr>"

definition envelope_is_compressed :: "connect_envelope \<Rightarrow> bool" where
  "envelope_is_compressed e \<longleftrightarrow> env_flags e AND connect_flag_compressed \<noteq> 0"

definition envelope_is_end_stream :: "connect_envelope \<Rightarrow> bool" where
  "envelope_is_end_stream e \<longleftrightarrow> env_flags e AND connect_flag_end_stream \<noteq> 0"

section \<open>Payloads\<close>

text \<open>
  \<open>gz_reads p\<close>: the results of the successive reads from a decoder over \<open>p\<close>, up to the one that
  returns no bytes; \<open>gz_position p\<close>: the bytes of \<open>p\<close> the decoder has then consumed;
  \<open>gz_writes p\<close>: the writes an encoder makes for \<open>p\<close>.
\<close>

record gzip_codec =
  gz_reads :: "u8 list \<Rightarrow> (string + u8 list) list"
  gz_position :: "u8 list \<Rightarrow> nat"
  gz_writes :: "u8 list \<Rightarrow> u8 list list"

fun gzip_read_loop :: "nat \<Rightarrow> u8 list \<Rightarrow> (string + u8 list) list \<Rightarrow> connect_error + u8 list" where
  "gzip_read_loop limit decoded [] = Inr decoded"
| "gzip_read_loop limit decoded (Inl message # rest) = Inl (InvalidGzip message)"
| "gzip_read_loop limit decoded (Inr buffer # rest) =
     (if buffer = [] then Inr decoded
      else
        let observed = min usize_max (length decoded + length buffer) in
        if observed > limit then Inl (DecompressedTooLarge observed limit)
        else gzip_read_loop limit (decoded @ buffer) rest)"

definition gzip_decode :: "gzip_codec \<Rightarrow> u8 list \<Rightarrow> nat \<Rightarrow> connect_error + u8 list" where
  "gzip_decode z payload limit =
     (case gzip_read_loop limit [] (gz_reads z payload) of
        Inl e \<Rightarrow> Inl e
      | Inr decoded \<Rightarrow>
          if gz_position z payload \<noteq> length payload
          then Inl (InvalidGzip ''trailing bytes after gzip member'')
          else Inr decoded)"

text \<open>\<open>BoundedWriter::write\<close>, run over the encoder's writes; its error becomes \<open>FrameTooLarge\<close>.\<close>

fun bounded_write :: "nat \<Rightarrow> u8 list \<Rightarrow> u8 list list \<Rightarrow> connect_error + u8 list" where
  "bounded_write limit written [] = Inr written"
| "bounded_write limit written (bytes # rest) =
     (let observed = min usize_max (length written + length bytes) in
      if observed > limit then Inl (FrameTooLarge observed limit)
      else bounded_write limit (written @ bytes) rest)"

definition gzip_encode :: "gzip_codec \<Rightarrow> u8 list \<Rightarrow> nat \<Rightarrow> connect_error + u8 list" where
  "gzip_encode z payload max_frame_bytes = bounded_write max_frame_bytes [] (gz_writes z payload)"

definition decode_payload ::
  "gzip_codec \<Rightarrow> u8 list \<Rightarrow> u8 \<Rightarrow> connect_compression \<Rightarrow> connect_limits \<Rightarrow> connect_error + u8 list" where
  "decode_payload z payload flags compression limits =
     (if flags AND connect_flag_compressed = 0
      then
        if length payload > cl_max_decompressed_bytes limits
        then Inl (DecompressedTooLarge (length payload) (cl_max_decompressed_bytes limits))
        else Inr payload
      else if compression \<noteq> Gzip then Inl CompressionNotNegotiated
      else gzip_decode z payload (cl_max_decompressed_bytes limits))"

section \<open>Decoder\<close>

record connect_decoder =
  cd_limits :: connect_limits
  cd_compression :: connect_compression
  cd_pending :: "u8 list"
  cd_expected :: "nat option"
  cd_ended :: bool

definition decoder_with_compression :: "connect_limits \<Rightarrow> connect_compression \<Rightarrow> connect_decoder" where
  "decoder_with_compression limits compression =
     \<lparr>cd_limits = limits, cd_compression = compression, cd_pending = [], cd_expected = None,
      cd_ended = False\<rparr>"

definition decoder_new :: "connect_limits \<Rightarrow> connect_decoder" where
  "decoder_new limits = decoder_with_compression limits Identity"

definition decoder_with_gzip :: "connect_limits \<Rightarrow> connect_decoder" where
  "decoder_with_gzip limits = decoder_with_compression limits Gzip"

definition from_be_bytes :: "u8 \<Rightarrow> u8 \<Rightarrow> u8 \<Rightarrow> u8 \<Rightarrow> nat" where
  "from_be_bytes a b c d = ((unat a * 256 + unat b) * 256 + unat c) * 256 + unat d"

definition to_be_bytes :: "nat \<Rightarrow> u8 list" where
  "to_be_bytes n =
     [word_of_nat (n div 2 ^ 24), word_of_nat (n div 2 ^ 16), word_of_nat (n div 2 ^ 8), word_of_nat n]"

text \<open>A complete header gives the length of the payload.\<close>

definition parse_header :: "connect_decoder \<Rightarrow> connect_error + nat" where
  "parse_header d =
     (case validate_flags (cd_pending d ! 0) of
        Inl e \<Rightarrow> Inl e
      | Inr u \<Rightarrow>
          let payload_bytes =
            from_be_bytes (cd_pending d ! 1) (cd_pending d ! 2) (cd_pending d ! 3) (cd_pending d ! 4)
          in
          if payload_bytes > cl_max_frame_bytes (cd_limits d)
          then Inl (FrameTooLarge payload_bytes (cl_max_frame_bytes (cd_limits d)))
          else Inr payload_bytes)"

text \<open>The header part of one turn of the loop: the rest of the chunk, and the length of the payload
  once the header is complete.\<close>

definition take_header ::
  "connect_decoder \<Rightarrow> u8 list \<Rightarrow> (connect_error + (u8 list \<times> nat option)) \<times> connect_decoder" where
  "take_header d chunk =
     (case cd_expected d of
        Some expected \<Rightarrow> (Inr (chunk, Some expected), d)
      | None \<Rightarrow>
        let needed = connect_envelope_header_bytes - length (cd_pending d);
            d = d\<lparr>cd_pending := cd_pending d @ take needed chunk\<rparr>;
            chunk = drop needed chunk
        in
        if length (cd_pending d) < connect_envelope_header_bytes then (Inr (chunk, None), d)
        else
          case parse_header d of
            Inl e \<Rightarrow> (Inl e, d)
          | Inr payload_bytes \<Rightarrow>
              (Inr (chunk, Some payload_bytes), d\<lparr>cd_expected := Some payload_bytes\<rparr>))"

text \<open>A complete payload gives an envelope.\<close>

definition parse_payload :: "gzip_codec \<Rightarrow> connect_decoder \<Rightarrow> connect_error + connect_envelope" where
  "parse_payload z d =
     (let flags = cd_pending d ! 0 in
      case decode_payload z (drop connect_envelope_header_bytes (cd_pending d)) flags
             (cd_compression d) (cd_limits d) of
        Inl e \<Rightarrow> Inl e
      | Inr payload \<Rightarrow> Inr \<lparr>env_flags = flags, env_payload = payload\<rparr>)"

text \<open>The payload part of the turn: an envelope once it is complete.\<close>

definition take_payload ::
  "gzip_codec \<Rightarrow> connect_decoder \<Rightarrow> nat \<Rightarrow> u8 list \<Rightarrow>
     (connect_error + (u8 list \<times> connect_envelope option)) \<times> connect_decoder" where
  "take_payload z d expected chunk =
     (let total_bytes = connect_envelope_header_bytes + expected in
      if total_bytes > usize_max then (Inl (FrameTooLarge expected (cl_max_frame_bytes (cd_limits d))), d)
      else
        let needed = total_bytes - length (cd_pending d);
            d = d\<lparr>cd_pending := cd_pending d @ take needed chunk\<rparr>;
            chunk = drop needed chunk
        in
        if length (cd_pending d) < total_bytes then (Inr (chunk, None), d)
        else
          case parse_payload z d of
            Inl e \<Rightarrow> (Inl e, d)
          | Inr envelope \<Rightarrow>
              (Inr (chunk, Some envelope),
               d\<lparr>cd_ended := envelope_is_end_stream envelope, cd_pending := [], cd_expected := None\<rparr>))"

definition push_envelope ::
  "connect_envelope option \<Rightarrow> (connect_error + connect_envelope list) \<times> connect_decoder \<Rightarrow>
     (connect_error + connect_envelope list) \<times> connect_decoder" where
  "push_envelope envelope res =
     (case (envelope, fst res) of
        (Some e, Inr es) \<Rightarrow> (Inr (e # es), snd res)
      | _ \<Rightarrow> res)"

text \<open>Every turn takes bytes of the chunk, or empties a buffer that was full before.\<close>

lemma take_header_progress:
  assumes "take_header d chunk = (Inr (chunk', r), d')" "chunk \<noteq> []"
  shows "length chunk' < length chunk \<or> (chunk' = chunk \<and> cd_pending d' = cd_pending d \<and> r \<noteq> None)"
proof (cases "cd_expected d")
  case None
  then show ?thesis
    using assms by (auto simp: take_header_def Let_def connect_envelope_header_bytes_def
        split: if_splits sum.splits)
next
  case (Some n)
  then show ?thesis using assms by (simp add: take_header_def) metis
qed

lemma take_payload_progress:
  assumes "take_payload z d n chunk = (Inr (chunk', r), d')"
  shows "length chunk' \<le> length chunk"
    "chunk \<noteq> [] \<Longrightarrow> length chunk' < length chunk \<or> length (cd_pending d') < length (cd_pending d)"
  using assms
  by (auto simp: take_payload_def Let_def connect_envelope_header_bytes_def split: if_splits sum.splits)

function feed ::
  "gzip_codec \<Rightarrow> connect_decoder \<Rightarrow> u8 list \<Rightarrow>
     (connect_error + connect_envelope list) \<times> connect_decoder" where
  "feed z d chunk =
     (if chunk = [] then (Inr [], d)
      else if cd_ended d then (Inl AfterEndStream, d)
      else
        case take_header d chunk of
          (Inl e, d1) \<Rightarrow> (Inl e, d1)
        | (Inr (chunk1, None), d1) \<Rightarrow> feed z d1 chunk1
        | (Inr (chunk1, Some expected), d1) \<Rightarrow>
            (case take_payload z d1 expected chunk1 of
               (Inl e, d2) \<Rightarrow> (Inl e, d2)
             | (Inr (chunk2, envelope), d2) \<Rightarrow> push_envelope envelope (feed z d2 chunk2)))"
  by pat_completeness auto

termination
proof (relation "measures [\<lambda>(z, d, chunk). length chunk, \<lambda>(z, d, chunk). length (cd_pending d)]",
    goal_cases)
  case (2 z d chunk r d1 c chunk1 e)
  then have "take_header d chunk = (Inr (chunk1, None), d1)" by simp
  from take_header_progress [OF this 2(1)] show ?case by auto
next
  case (3 z d chunk r d1 c chunk1 e expected r2 d2 c2 chunk2 envelope)
  then have h: "take_header d chunk = (Inr (chunk1, Some expected), d1)"
    and p: "take_payload z d1 expected chunk1 = (Inr (chunk2, envelope), d2)" by simp_all
  show ?case
    using take_header_progress [OF h 3(1)] take_payload_progress [OF p] 3(1) by auto
qed auto

declare feed.simps [simp del]

definition finish :: "connect_decoder \<Rightarrow> connect_error + unit" where
  "finish d =
     (if cd_pending d = [] \<and> cd_expected d = None then Inr ()
      else Inl (Truncated (length (cd_pending d))))"

section \<open>Encoder\<close>

record connect_encoder =
  ce_limits :: connect_limits
  ce_compression :: connect_compression

definition encoder_with_compression :: "connect_limits \<Rightarrow> connect_compression \<Rightarrow> connect_encoder" where
  "encoder_with_compression limits compression = \<lparr>ce_limits = limits, ce_compression = compression\<rparr>"

definition encoder_new :: "connect_limits \<Rightarrow> connect_encoder" where
  "encoder_new limits = encoder_with_compression limits Identity"

definition encoder_with_gzip :: "connect_limits \<Rightarrow> connect_encoder" where
  "encoder_with_gzip limits = encoder_with_compression limits Gzip"

text \<open>The payload as it goes on the wire.\<close>

definition wire_payload :: "gzip_codec \<Rightarrow> connect_encoder \<Rightarrow> connect_envelope \<Rightarrow> connect_error + u8 list" where
  "wire_payload z enc envelope =
     (if envelope_is_compressed envelope
      then
        if envelope_is_end_stream envelope then Inl CompressedEndStream
        else if ce_compression enc \<noteq> Gzip then Inl CompressionNotNegotiated
        else gzip_encode z (env_payload envelope) (cl_max_frame_bytes (ce_limits enc))
      else Inr (env_payload envelope))"

definition encode :: "gzip_codec \<Rightarrow> connect_encoder \<Rightarrow> connect_envelope \<Rightarrow> connect_error + u8 list" where
  "encode z enc envelope =
     (case validate_flags (env_flags envelope) of
        Inl e \<Rightarrow> Inl e
      | Inr u \<Rightarrow>
          if length (env_payload envelope) > cl_max_decompressed_bytes (ce_limits enc)
          then Inl (DecompressedTooLarge (length (env_payload envelope))
                     (cl_max_decompressed_bytes (ce_limits enc)))
          else
            case wire_payload z enc envelope of
              Inl e \<Rightarrow> Inl e
            | Inr payload \<Rightarrow>
                if length payload > cl_max_frame_bytes (ce_limits enc) \<or> length payload \<ge> 2 ^ 32
                then Inl (FrameTooLarge (length payload) (cl_max_frame_bytes (ce_limits enc)))
                else Inr (env_flags envelope # to_be_bytes (length payload) @ payload))"

definition decode_connect_envelopes ::
  "gzip_codec \<Rightarrow> u8 list \<Rightarrow> connect_limits \<Rightarrow> connect_compression \<Rightarrow> connect_error + connect_envelope list" where
  "decode_connect_envelopes z input limits compression =
     (case feed z (decoder_with_compression limits compression) input of
        (Inl e, d) \<Rightarrow> Inl e
      | (Inr envelopes, d) \<Rightarrow>
          (case finish d of Inl e \<Rightarrow> Inl e | Inr u \<Rightarrow> Inr envelopes))"

definition encode_connect_envelope ::
  "gzip_codec \<Rightarrow> connect_envelope \<Rightarrow> connect_limits \<Rightarrow> connect_compression \<Rightarrow> connect_error + u8 list" where
  "encode_connect_envelope z envelope limits compression =
     encode z (encoder_with_compression limits compression) envelope"

section \<open>Chunk independence\<close>

text \<open>The decoder between two chunks: a part of a header, or a valid header and a part of the
  payload it announces.\<close>

definition decoder_inv :: "connect_decoder \<Rightarrow> bool" where
  "decoder_inv d \<longleftrightarrow>
     (case cd_expected d of
        None \<Rightarrow> length (cd_pending d) < 5
      | Some n \<Rightarrow> 5 \<le> length (cd_pending d) \<and> length (cd_pending d) < 5 + n
          \<and> n \<le> cl_max_frame_bytes (cd_limits d) \<and> n < 2 ^ 32)"

lemma from_be_bytes_bound: "from_be_bytes a b c d < 2 ^ 32"
  using unsigned_less [of a, where 'a = nat] unsigned_less [of b, where 'a = nat]
    unsigned_less [of c, where 'a = nat] unsigned_less [of d, where 'a = nat]
  by (simp add: from_be_bytes_def)

lemma be_bytes_roundtrip:
  assumes "n < 2 ^ 32" "to_be_bytes n = [a, b, c, d]"
  shows "from_be_bytes a b c d = n"
proof -
  let ?q1 = "n div 256" let ?q2 = "?q1 div 256" let ?q3 = "?q2 div 256"
  have q: "n div 65536 = ?q2" "n div 16777216 = ?q3"
    using div_mult2_eq [of n 256 256] div_mult2_eq [of n 65536 256] by simp_all
  have "unat a = ?q3 mod 256" "unat b = ?q2 mod 256" "unat c = ?q1 mod 256" "unat d = n mod 256"
    using assms(2) by (auto simp: to_be_bytes_def q unat_of_nat)
  moreover have "?q3 mod 256 = ?q3" using assms(1) by simp
  ultimately show ?thesis
    unfolding from_be_bytes_def using div_mult_mod_eq [of n 256] div_mult_mod_eq [of ?q1 256] div_mult_mod_eq [of ?q2 256]
    by simp
qed

end
