(* ===== verification/Connect_Properties.thy ===== *)
theory Connect_Properties
  imports Connect
begin

text \<open>
  What the Connect codec promises: the decoder gives the same result for every way of cutting the
  stream into chunks, it never holds more than one bounded envelope, and it reads back what the
  encoder wrote.
\<close>

section \<open>Chunk independence\<close>

lemma header_bytes [simp]: "connect_envelope_header_bytes = 5"
  by (simp add: connect_envelope_header_bytes_def)

lemma take_header_split:
  assumes "cd_expected d = None" "length (cd_pending d) + length a < 5"
  shows "take_header d (a @ b) = take_header (d\<lparr>cd_pending := cd_pending d @ a\<rparr>) b"
proof -
  have "take (5 - length (cd_pending d)) (a @ b) = a @ take (5 - (length (cd_pending d) + length a)) b"
    "drop (5 - length (cd_pending d)) (a @ b) = drop (5 - (length (cd_pending d) + length a)) b"
    using assms(2) by simp_all
  then show ?thesis using assms by (simp add: take_header_def Let_def split: sum.split del: take_append drop_append)
qed

lemma take_header_part:
  assumes "cd_expected d = None" "length (cd_pending d) + length a < 5"
  shows "take_header d a = (Inr ([], None), d\<lparr>cd_pending := cd_pending d @ a\<rparr>)"
  using assms by (simp add: take_header_def Let_def)

lemma take_header_full:
  assumes "5 \<le> length (cd_pending d) + length a \<or> cd_expected d \<noteq> None"
  shows "take_header d (a @ b) = map_prod (map_sum id (map_prod (\<lambda>c. c @ b) id)) id (take_header d a)"
  using assms by (auto simp: take_header_def Let_def split: option.split sum.split)

lemma total_fits: "n < 2 ^ 32 \<Longrightarrow> \<not> 5 + n > usize_max"
  by (simp add: usize_max_def)

lemma take_payload_split:
  assumes "n < 2 ^ 32" "length (cd_pending d) + length a < 5 + n"
  shows "take_payload z d n (a @ b) = take_payload z (d\<lparr>cd_pending := cd_pending d @ a\<rparr>) n b"
proof -
  have "take (5 + n - length (cd_pending d)) (a @ b) = a @ take (5 + n - (length (cd_pending d) + length a)) b"
    "drop (5 + n - length (cd_pending d)) (a @ b) = drop (5 + n - (length (cd_pending d) + length a)) b"
    using assms(2) by simp_all
  then show ?thesis using total_fits [OF assms(1)] assms(2)
    by (simp add: take_payload_def Let_def split: sum.split del: take_append drop_append)
qed

lemma take_payload_part:
  assumes "n < 2 ^ 32" "length (cd_pending d) + length a < 5 + n"
  shows "take_payload z d n a = (Inr ([], None), d\<lparr>cd_pending := cd_pending d @ a\<rparr>)"
  using assms total_fits [OF assms(1)] by (simp add: take_payload_def Let_def)

lemma take_payload_full:
  assumes "n < 2 ^ 32" "5 + n \<le> length (cd_pending d) + length a"
  shows "take_payload z d n (a @ b) = map_prod (map_sum id (map_prod (\<lambda>c. c @ b) id)) id (take_payload z d n a)"
  using assms total_fits [OF assms(1)] by (simp add: take_payload_def Let_def split: sum.split)

text \<open>What a complete header or payload leaves.\<close>

lemma parse_header_bound:
  "parse_header d = Inr n \<Longrightarrow> n < 2 ^ 32 \<and> n \<le> cl_max_frame_bytes (cd_limits d)"
  using from_be_bytes_bound by (auto simp: parse_header_def Let_def split: sum.splits if_splits)

lemma take_header_done:
  assumes "take_header d a = (Inr (c, Some n), d1)" "cd_expected d = None" "length (cd_pending d) < 5"
  shows "length (cd_pending d1) = 5 \<and> cd_expected d1 = Some n \<and> n < 2 ^ 32
    \<and> n \<le> cl_max_frame_bytes (cd_limits d1) \<and> cd_ended d1 = cd_ended d"
  using assms by (auto simp: take_header_def Let_def dest: parse_header_bound split: if_splits sum.splits)

lemma take_payload_done:
  assumes "take_payload z d n a = (Inr (c, Some e), d1)"
  shows "cd_pending d1 = [] \<and> cd_expected d1 = None"
  using assms by (auto simp: take_payload_def Let_def split: if_splits sum.splits)

lemma take_payload_complete:
  assumes "take_payload z d n a = (Inr (c, r), d1)" "5 + n \<le> length (cd_pending d) + length a"
  shows "r \<noteq> None"
  using assms by (auto simp: take_payload_def Let_def split: if_splits sum.splits)

definition then_feed ::
  "gzip_codec \<Rightarrow> u8 list \<Rightarrow> (connect_error + connect_envelope list) \<times> connect_decoder \<Rightarrow>
     (connect_error + connect_envelope list) \<times> connect_decoder" where
  "then_feed z b res =
     (case res of
        (Inl e, d) \<Rightarrow> (Inl e, d)
      | (Inr es, d) \<Rightarrow> map_prod (map_sum id (\<lambda>es'. es @ es')) id (feed z d b))"

lemma then_feed_push: "then_feed z b (push_envelope v res) = push_envelope v (then_feed z b res)"
proof (cases res)
  case (Pair r d)
  obtain r' d' where "feed z d b = (r', d')" by force
  then show ?thesis
    by (cases v; cases r; cases r') (simp_all add: Pair then_feed_def push_envelope_def)
qed

lemma map_sum_append_Nil [simp]: "map_prod (map_sum id (\<lambda>es'. [] @ es')) id r = r"
  by (cases r; cases "fst r") auto

lemma feed_Nil [simp]: "feed z d [] = (Inr [], d)"
  by (subst feed.simps) simp

lemma feed_step:
  "a \<noteq> [] \<Longrightarrow> \<not> cd_ended d \<Longrightarrow> feed z d a =
     (case take_header d a of
          (Inl e, d1) \<Rightarrow> (Inl e, d1)
        | (Inr (chunk1, None), d1) \<Rightarrow> feed z d1 chunk1
        | (Inr (chunk1, Some expected), d1) \<Rightarrow>
            (case take_payload z d1 expected chunk1 of
               (Inl e, d2) \<Rightarrow> (Inl e, d2)
             | (Inr (chunk2, envelope), d2) \<Rightarrow> push_envelope envelope (feed z d2 chunk2)))"
  by (subst feed.simps) simp

text \<open>The payload part of a turn and all turns after it.\<close>

definition payload_turn ::
  "gzip_codec \<Rightarrow> connect_decoder \<Rightarrow> nat \<Rightarrow> u8 list \<Rightarrow>
     (connect_error + connect_envelope list) \<times> connect_decoder" where
  "payload_turn z d n a =
     (case take_payload z d n a of
        (Inl e, d2) \<Rightarrow> (Inl e, d2)
      | (Inr (chunk2, envelope), d2) \<Rightarrow> push_envelope envelope (feed z d2 chunk2))"

lemma feed_header_turn:
  "a \<noteq> [] \<Longrightarrow> \<not> cd_ended d \<Longrightarrow> take_header d a = (Inr (c, Some n), d1) \<Longrightarrow> feed z d a = payload_turn z d1 n c"
  by (simp add: feed_step payload_turn_def)

lemma feed_payload:
  "a \<noteq> [] \<Longrightarrow> \<not> cd_ended d \<Longrightarrow> cd_expected d = Some n \<Longrightarrow> feed z d a = payload_turn z d n a"
  by (simp add: feed_header_turn take_header_def)

lemma payload_turn_append:
  assumes ended: "\<not> cd_ended d" and n: "cd_expected d = Some n" "n < 2 ^ 32"
    and IH: "\<And>c v d2. take_payload z d n a = (Inr (c, Some v), d2) \<Longrightarrow> feed z d2 (c @ b) = then_feed z b (feed z d2 c)"
  shows "payload_turn z d n (a @ b) = then_feed z b (payload_turn z d n a)"
proof (cases "length (cd_pending d) + length a < 5 + n")
  case short: True
  let ?d = "d\<lparr>cd_pending := cd_pending d @ a\<rparr>"
  have turn: "payload_turn z d n a = (Inr [], ?d)"
    using take_payload_part [OF n(2) short] by (simp add: payload_turn_def push_envelope_def)
  have "payload_turn z d n (a @ b) = feed z ?d b"
  proof (cases "b = []")
    case True
    then show ?thesis using turn by simp
  next
    case False
    then have "feed z ?d b = payload_turn z ?d n b" using ended n(1) by (intro feed_payload) simp_all
    then show ?thesis using take_payload_split [OF n(2) short] by (simp add: payload_turn_def)
  qed
  then show ?thesis using turn by (simp add: then_feed_def)
next
  case False
  then have full: "5 + n \<le> length (cd_pending d) + length a" by simp
  obtain r d2 where p: "take_payload z d n a = (r, d2)" by force
  show ?thesis
  proof (cases r)
    case (Inl e)
    then show ?thesis
      using take_payload_full [OF n(2) full, of z b] p by (simp add: payload_turn_def then_feed_def)
  next
    case (Inr cv)
    obtain c v where cv: "cv = (c, Some v)"
      using take_payload_complete [of z d n a "fst cv" "snd cv" d2] p Inr full by (cases cv) auto
    then have p': "take_payload z d n a = (Inr (c, Some v), d2)" using p Inr by simp
    show ?thesis
      using take_payload_full [OF n(2) full, of z b] p' IH [OF p'] by (simp add: payload_turn_def then_feed_push)
  qed
qed

lemma take_header_partial:
  assumes "cd_expected d = None" "length (cd_pending d) + length a < 5" "\<not> cd_ended d"
  shows "feed z d (a @ b) = then_feed z b (feed z d a)"
proof -
  let ?d = "d\<lparr>cd_pending := cd_pending d @ a\<rparr>"
  have one: "feed z d a = (Inr [], ?d)"
    using feed_step [of a d z] take_header_part [OF assms(1,2)] assms(3) by (cases "a = []") simp_all
  have "feed z d (a @ b) = feed z ?d b"
  proof (cases "b = []")
    case True
    then show ?thesis using one by simp
  next
    case False
    then show ?thesis
      using feed_step [of "a @ b" d z] feed_step [of b ?d z] take_header_split [OF assms(1,2)] assms(3) by simp
  qed
  then show ?thesis using one by (simp add: then_feed_def)
qed

lemma take_payload_shrinks: "take_payload z d n a = (Inr (c, v), d2) \<Longrightarrow> length c \<le> length a"
  by (rule take_payload_progress(1))

lemma feed_append:
  "decoder_inv d \<Longrightarrow> feed z d (a @ b) = then_feed z b (feed z d a)"
proof (induction "length a" arbitrary: d a rule: less_induct)
  case less
  have IH: "feed z d2 (c @ b) = then_feed z b (feed z d2 c)"
    if "take_payload z d1 n a1 = (Inr (c, Some v), d2)" "length c < length a" for d1 n a1 c v d2
    using less.hyps [OF that(2)] take_payload_done [OF that(1)] by (simp add: decoder_inv_def)
  consider "a = []" | "a \<noteq> []" "cd_ended d" | n where "a \<noteq> []" "\<not> cd_ended d" "cd_expected d = Some n"
    | "a \<noteq> []" "\<not> cd_ended d" "cd_expected d = None" by (cases "cd_expected d") auto
  then show ?case
  proof cases
    case 1
    then show ?thesis by (simp add: then_feed_def)
  next
    case 2
    then show ?thesis by (simp add: feed.simps then_feed_def)
  next
    case (3 n)
    then have n: "n < 2 ^ 32" "length (cd_pending d) < 5 + n" using less.prems by (simp_all add: decoder_inv_def)
    have "length c < length a" if "take_payload z d n a = (Inr (c, Some v), d2)" for c v d2
      using that n(2) 3(1) by (auto simp: take_payload_def Let_def split: if_splits sum.splits)
    then have "payload_turn z d n (a @ b) = then_feed z b (payload_turn z d n a)"
      using payload_turn_append [OF 3(2,3) n(1)] IH by blast
    then show ?thesis using feed_payload [OF _ 3(2,3)] 3(1) by simp
  next
    case 4
    have short: "length (cd_pending d) < 5" using less.prems 4(3) by (simp add: decoder_inv_def)
    show ?thesis
    proof (cases "length (cd_pending d) + length a < 5")
      case True
      then show ?thesis by (rule take_header_partial [OF 4(3) _ 4(2)])
    next
      case False
      obtain r d1 where h: "take_header d a = (r, d1)" by force
      have hb: "take_header d (a @ b) = map_prod (map_sum id (map_prod (\<lambda>c. c @ b) id)) id (take_header d a)"
        using False by (intro take_header_full) simp
      show ?thesis
      proof (cases r)
        case (Inl e)
        then show ?thesis using h hb feed_step 4(1,2) by (simp add: then_feed_def)
      next
        case (Inr cn)
        have "snd cn \<noteq> None" using h Inr False 4(3)
          by (auto simp: take_header_def Let_def split: if_splits sum.splits)
        then obtain c n where h': "take_header d a = (Inr (c, Some n), d1)" using h Inr by (cases cn) auto
        have d1: "cd_expected d1 = Some n" "n < 2 ^ 32" "\<not> cd_ended d1"
          using take_header_done [OF h' 4(3) short] 4(2) by simp_all
        have "length c < length a" using take_header_progress [OF h' 4(1)] h' 4(3) short
          by (auto simp: take_header_def Let_def split: if_splits sum.splits)
        then have "payload_turn z d1 n (c @ b) = then_feed z b (payload_turn z d1 n c)"
          using payload_turn_append [OF d1(3,1,2)] IH take_payload_shrinks by (meson le_less_trans)
        then show ?thesis
          using feed_header_turn [OF _ 4(2) h'] feed_header_turn [of "a @ b" d] h' hb 4(1,2) by simp
      qed
    qed
  qed
qed

section \<open>Invariant and bounds\<close>

lemma take_header_frame:
  assumes "take_header d a = (r, d1)"
  shows "cd_limits d1 = cd_limits d" "cd_compression d1 = cd_compression d" "cd_ended d1 = cd_ended d"
  using assms by (auto simp: take_header_def Let_def split: option.splits if_splits sum.splits)

lemma take_payload_frame:
  assumes "take_payload z d n a = (r, d1)"
  shows "cd_limits d1 = cd_limits d" "cd_compression d1 = cd_compression d"
  using assms by (auto simp: take_payload_def Let_def split: if_splits sum.splits)

lemma gzip_read_loop_bound:
  "gzip_read_loop limit decoded rs = Inr p \<Longrightarrow> length decoded \<le> limit \<Longrightarrow> limit < usize_max \<Longrightarrow> length p \<le> limit"
  by (induction limit decoded rs rule: gzip_read_loop.induct) (auto simp: Let_def split: if_splits)

lemma decode_payload_bound:
  "decode_payload z p f c l = Inr q \<Longrightarrow> cl_max_decompressed_bytes l < usize_max \<Longrightarrow>
     length q \<le> cl_max_decompressed_bytes l"
  by (auto simp: decode_payload_def gzip_decode_def dest!: gzip_read_loop_bound split: if_splits sum.splits)

text \<open>What holds of the decoder and of the envelopes after any call, successful or not.\<close>

definition within_limits ::
  "(connect_error + connect_envelope list) \<times> connect_decoder \<Rightarrow> connect_limits \<Rightarrow> bool" where
  "within_limits res l \<longleftrightarrow> cd_limits (snd res) = l \<and> length (cd_pending (snd res)) \<le> 5 + cl_max_frame_bytes l
     \<and> (\<forall>es. fst res = Inr es \<longrightarrow> decoder_inv (snd res)
          \<and> (\<forall>e \<in> set es. length (env_payload e) \<le> cl_max_decompressed_bytes l))"

lemma within_limits_push:
  "within_limits res l \<Longrightarrow> (\<And>e. v = Some e \<Longrightarrow> length (env_payload e) \<le> cl_max_decompressed_bytes l) \<Longrightarrow>
     within_limits (push_envelope v res) l"
  by (cases v; cases res; cases "fst res") (auto simp: within_limits_def push_envelope_def)

lemma decoder_inv_pending: "decoder_inv d \<Longrightarrow> length (cd_pending d) \<le> 5 + cl_max_frame_bytes (cd_limits d)"
  by (auto simp: decoder_inv_def split: option.splits)

lemma payload_turn_limits:
  assumes n: "cd_expected d = Some n" "n < 2 ^ 32" "n \<le> cl_max_frame_bytes l" "5 \<le> length (cd_pending d)"
      "length (cd_pending d) \<le> 5 + n"
    and l: "cd_limits d = l" "cl_max_decompressed_bytes l < usize_max"
    and IH: "\<And>c v d2. take_payload z d n a = (Inr (c, v), d2) \<Longrightarrow> decoder_inv d2 \<Longrightarrow> cd_limits d2 = l \<Longrightarrow>
      within_limits (feed z d2 c) l"
  shows "within_limits (payload_turn z d n a) l"
proof (cases "length (cd_pending d) + length a < 5 + n")
  case True
  let ?d = "d\<lparr>cd_pending := cd_pending d @ a\<rparr>"
  have "decoder_inv ?d" using True n l by (simp add: decoder_inv_def)
  then have "within_limits (feed z ?d []) l" using True n(3) l(1) by (simp add: within_limits_def)
  then show ?thesis using take_payload_part [OF n(2) True] by (simp add: payload_turn_def push_envelope_def)
next
  case False
  let ?d = "d\<lparr>cd_pending := cd_pending d @ take (5 + n - length (cd_pending d)) a\<rparr>"
  have len: "length (cd_pending ?d) = 5 + n" using False n(5) by simp
  show ?thesis
  proof (cases "parse_payload z ?d")
    case (Inl e)
    then have "take_payload z d n a = (Inl e, ?d)"
      using len total_fits [OF n(2)] by (simp add: take_payload_def Let_def)
    then show ?thesis using len n(3) l(1) by (simp add: payload_turn_def within_limits_def)
  next
    case (Inr v)
    let ?d2 = "?d\<lparr>cd_ended := envelope_is_end_stream v, cd_pending := [], cd_expected := None\<rparr>"
    let ?c = "drop (5 + n - length (cd_pending d)) a"
    have p: "take_payload z d n a = (Inr (?c, Some v), ?d2)"
      using Inr len total_fits [OF n(2)] by (simp add: take_payload_def Let_def)
    have "within_limits (feed z ?d2 ?c) l" using IH [OF p] l(1) by (simp add: decoder_inv_def)
    moreover have "length (env_payload v) \<le> cl_max_decompressed_bytes l"
      using Inr l decode_payload_bound by (auto simp: parse_payload_def Let_def split: sum.splits)
    ultimately show ?thesis using p within_limits_push [of _ l "Some v"] by (simp add: payload_turn_def)
  qed
qed

lemma take_payload_consumes:
  "take_payload z d n a = (Inr (c, v), d2) \<Longrightarrow> length (cd_pending d) < 5 + n \<Longrightarrow> a \<noteq> [] \<Longrightarrow> length c < length a"
  by (auto simp: take_payload_def Let_def split: if_splits sum.splits)

lemma take_header_consumes:
  "take_header d a = (Inr (c, r), d1) \<Longrightarrow> cd_expected d = None \<Longrightarrow> length (cd_pending d) < 5 \<Longrightarrow> a \<noteq> [] \<Longrightarrow>
     length c < length a"
  by (auto simp: take_header_def Let_def split: if_splits sum.splits)

lemma feed_limits:
  assumes "decoder_inv d" "cd_limits d = l" "cl_max_decompressed_bytes l < usize_max"
  shows "within_limits (feed z d a) l"
  using assms(1,2)
proof (induction "length a" arbitrary: d a rule: less_induct)
  case less
  consider "a = [] \<or> cd_ended d" | n where "a \<noteq> []" "\<not> cd_ended d" "cd_expected d = Some n"
    | "a \<noteq> []" "\<not> cd_ended d" "cd_expected d = None" by (cases "cd_expected d") auto
  then show ?case
  proof cases
    case 1
    then show ?thesis
      using less.prems decoder_inv_pending [of d] by (auto simp: feed.simps within_limits_def)
  next
    case (2 n)
    then have n: "n < 2 ^ 32" "n \<le> cl_max_frame_bytes l" "5 \<le> length (cd_pending d)" "length (cd_pending d) < 5 + n"
      using less.prems by (simp_all add: decoder_inv_def)
    have "within_limits (payload_turn z d n a) l"
      using n less.hyps [OF take_payload_consumes [OF _ n(4) 2(1)]] less.prems(2) assms(3)
      by (intro payload_turn_limits [OF 2(3)]) simp_all
    then show ?thesis using feed_payload [OF 2] by simp
  next
    case 3
    have short: "length (cd_pending d) < 5" using less.prems 3(3) by (simp add: decoder_inv_def)
    obtain r d1 where h: "take_header d a = (r, d1)" by force
    consider e where "r = Inl e" | c where "r = Inr (c, None)" | c n where "r = Inr (c, Some n)"
      by (cases r) (auto split: prod.splits, metis option.exhaust surj_pair)
    then show ?thesis
    proof cases
      case 1
      then have "length (cd_pending d1) \<le> 5"
        using h 3(3) short by (auto simp: take_header_def Let_def split: if_splits sum.splits)
      then show ?thesis
        using 1 h feed_step [OF 3(1,2), of z] take_header_frame(1) [OF h] less.prems(2) by (simp add: within_limits_def)
    next
      case (2 c)
      then have h': "take_header d a = (Inr (c, None), d1)" using h by simp
      have "decoder_inv d1"
        using h' 3(3) short by (auto simp: take_header_def Let_def decoder_inv_def split: if_splits sum.splits)
      moreover have "cd_limits d1 = l" using take_header_frame(1) [OF h'] less.prems(2) by simp
      ultimately have "within_limits (feed z d1 c) l"
        using less.hyps [OF take_header_consumes [OF h' 3(3) short 3(1)]] by blast
      then show ?thesis using h' feed_step [OF 3(1,2), of z] by simp
    next
      case c: (3 c n)
      then have h': "take_header d a = (Inr (c, Some n), d1)" using h by simp
      have d1: "length (cd_pending d1) = 5" "cd_expected d1 = Some n" "n < 2 ^ 32" "cd_limits d1 = l"
        "n \<le> cl_max_frame_bytes l"
        using take_header_done [OF h' 3(3) short] take_header_frame(1) [OF h'] less.prems(2) by auto
      have len: "length c < length a" by (rule take_header_consumes [OF h' 3(3) short 3(1)])
      have "within_limits (payload_turn z d1 n c) l"
      proof (rule payload_turn_limits [OF d1(2,3,5)])
        show "within_limits (feed z d2 c2) l"
          if "take_payload z d1 n c = (Inr (c2, v), d2)" "decoder_inv d2" "cd_limits d2 = l" for c2 v d2
          using less.hyps [of c2 d2] take_payload_shrinks [OF that(1)] len that(2,3) by simp
      qed (use d1 assms(3) in simp_all)
      then show ?thesis using feed_header_turn [OF 3(1,2) h'] by simp
    qed
  qed
qed

section \<open>A stream of chunks\<close>

text \<open>A caller pushes the chunks one after the other and stops at the first error.\<close>

fun feed_all ::
  "gzip_codec \<Rightarrow> connect_decoder \<Rightarrow> u8 list list \<Rightarrow>
     (connect_error + connect_envelope list) \<times> connect_decoder" where
  "feed_all z d [] = (Inr [], d)"
| "feed_all z d (c # cs) =
     (case feed z d c of
        (Inl e, d1) \<Rightarrow> (Inl e, d1)
      | (Inr es, d1) \<Rightarrow> map_prod (map_sum id (\<lambda>es'. es @ es')) id (feed_all z d1 cs))"

lemma feed_frame:
  assumes "decoder_inv d" "feed z d a = (Inr es, d1)" "cl_max_decompressed_bytes (cd_limits d) < usize_max"
  shows "decoder_inv d1" "cd_limits d1 = cd_limits d"
  using feed_limits [OF assms(1) refl assms(3), of z a] assms(2) by (simp_all add: within_limits_def)

lemma feed_all_concat:
  "decoder_inv d \<Longrightarrow> cl_max_decompressed_bytes (cd_limits d) < usize_max \<Longrightarrow>
     feed_all z d cs = feed z d (concat cs)"
proof (induction cs arbitrary: d)
  case (Cons c cs)
  obtain r d1 where f: "feed z d c = (r, d1)" by force
  show ?case
  proof (cases r)
    case (Inl e)
    then show ?thesis using f feed_append [OF Cons.prems(1), of z c "concat cs"] by (simp add: then_feed_def)
  next
    case (Inr es)
    then have "feed_all z d1 cs = feed z d1 (concat cs)"
      using Cons.IH feed_frame [OF Cons.prems(1) _ Cons.prems(2)] Cons.prems(2) f by metis
    then show ?thesis
      using f Inr feed_append [OF Cons.prems(1), of z c "concat cs"] by (simp add: then_feed_def)
  qed
qed simp

section \<open>Round trip\<close>

text \<open>What the code relies on of the gzip package: what it wrote it reads back, in non-empty blocks,
  to the last byte.\<close>

definition gzip_faithful :: "gzip_codec \<Rightarrow> bool" where
  "gzip_faithful z \<longleftrightarrow> (\<forall>p. let w = concat (gz_writes z p) in
     (\<exists>blocks. gz_reads z w = map Inr blocks \<and> concat blocks = p \<and> [] \<notin> set blocks)
     \<and> gz_position z w = length w)"

lemma gzip_read_loop_blocks:
  "length (decoded @ concat blocks) \<le> limit \<Longrightarrow> [] \<notin> set blocks \<Longrightarrow>
     gzip_read_loop limit decoded (map Inr blocks) = Inr (decoded @ concat blocks)"
  by (induction blocks arbitrary: decoded) (auto simp: Let_def)

lemma bounded_write_Inr: "bounded_write limit written ws = Inr p \<Longrightarrow> p = written @ concat ws"
  by (induction limit written ws rule: bounded_write.induct) (auto simp: Let_def split: if_splits)

lemma decode_wire_payload:
  assumes "gzip_faithful z" "wire_payload z enc e = Inr p"
    and "length (env_payload e) \<le> cl_max_decompressed_bytes (ce_limits enc)"
  shows "decode_payload z p (env_flags e) (ce_compression enc) (ce_limits enc) = Inr (env_payload e)"
proof (cases "envelope_is_compressed e")
  case False
  then show ?thesis
    using assms(2,3) by (auto simp: wire_payload_def decode_payload_def envelope_is_compressed_def)
next
  case True
  then have g: "ce_compression enc = Gzip" "p = concat (gz_writes z (env_payload e))"
    using assms(2) by (auto simp: wire_payload_def gzip_encode_def dest: bounded_write_Inr split: if_splits)
  obtain blocks where b: "gz_reads z p = map Inr blocks" "concat blocks = env_payload e" "[] \<notin> set blocks"
    "gz_position z p = length p"
    using assms(1) g(2) unfolding gzip_faithful_def Let_def by blast
  then have "gzip_decode z p (cl_max_decompressed_bytes (ce_limits enc)) = Inr (env_payload e)"
    using gzip_read_loop_blocks [of "[]" blocks] assms(3) by (simp add: gzip_decode_def)
  then show ?thesis using True g(1) by (simp add: decode_payload_def envelope_is_compressed_def)
qed

definition idle :: "connect_limits \<Rightarrow> connect_compression \<Rightarrow> bool \<Rightarrow> connect_decoder" where
  "idle l c ended = \<lparr>cd_limits = l, cd_compression = c, cd_pending = [], cd_expected = None, cd_ended = ended\<rparr>"

lemma feed_encoded:
  assumes z: "gzip_faithful z" and enc: "encode z enc e = Inr w"
  shows "feed z (idle (ce_limits enc) (ce_compression enc) False) w
    = (Inr [e], idle (ce_limits enc) (ce_compression enc) (envelope_is_end_stream e))"
proof -
  obtain p where p: "wire_payload z enc e = Inr p" "w = env_flags e # to_be_bytes (length p) @ p"
    "validate_flags (env_flags e) = Inr ()" "length p \<le> cl_max_frame_bytes (ce_limits enc)" "length p < 2 ^ 32"
    "length (env_payload e) \<le> cl_max_decompressed_bytes (ce_limits enc)"
    using enc by (auto simp: encode_def split: sum.splits if_splits)
  obtain b0 b1 b2 b3 where be: "to_be_bytes (length p) = [b0, b1, b2, b3]" by (simp add: to_be_bytes_def)
  let ?d = "idle (ce_limits enc) (ce_compression enc) False" and ?h = "[env_flags e, b0, b1, b2, b3]"
  let ?d1 = "?d\<lparr>cd_pending := ?h, cd_expected := Some (length p)\<rparr>"
  have w: "w = ?h @ p" using p(2) be by simp
  have "parse_header (?d\<lparr>cd_pending := ?h\<rparr>) = Inr (length p)"
    using p(3,4) be_bytes_roundtrip [OF p(5) be] by (simp add: parse_header_def idle_def)
  then have h: "take_header ?d w = (Inr (p, Some (length p)), ?d1)"
    by (simp add: take_header_def w idle_def)
  have "parse_payload z (?d1\<lparr>cd_pending := ?h @ p\<rparr>) = Inr e"
    using decode_wire_payload [OF z p(1,6)] by (simp add: parse_payload_def idle_def)
  then have "take_payload z ?d1 (length p) p = (Inr ([], Some e), idle (ce_limits enc) (ce_compression enc) (envelope_is_end_stream e))"
    using total_fits [OF p(5)] by (simp add: take_payload_def idle_def)
  then show ?thesis
    using feed_header_turn [OF _ _ h, of z] w by (simp add: payload_turn_def push_envelope_def idle_def)
qed

lemma idle_simps [simp]:
  "decoder_inv (idle l c e)" "cd_limits (idle l c e) = l" "cd_pending (idle l c e) = []"
  "cd_expected (idle l c e) = None"
  by (simp_all add: decoder_inv_def idle_def)

lemma decoder_idle: "decoder_with_compression l c = idle l c False"
  by (simp add: decoder_with_compression_def idle_def)

lemma feed_encoded_list:
  assumes z: "gzip_faithful z"
  shows "list_all2 (\<lambda>e w. encode z (encoder_with_compression l c) e = Inr w) es ws \<Longrightarrow>
    (\<forall>e \<in> set (butlast es). \<not> envelope_is_end_stream e) \<Longrightarrow>
    feed z (idle l c False) (concat ws) = (Inr es, idle l c (es \<noteq> [] \<and> envelope_is_end_stream (last es)))"
proof (induction es ws rule: list_all2_induct)
  case (Cons e es w ws)
  have one: "feed z (idle l c False) w = (Inr [e], idle l c (envelope_is_end_stream e))"
    using feed_encoded [OF z Cons(1)] by (simp add: encoder_with_compression_def)
  show ?case
  proof (cases "es = []")
    case True
    then show ?thesis using one Cons(2) by simp
  next
    case False
    then have "\<not> envelope_is_end_stream e" "\<forall>e \<in> set (butlast es). \<not> envelope_is_end_stream e"
      using Cons.prems by simp_all
    then show ?thesis
      using one Cons.IH False feed_append [of "idle l c False" z w "concat ws"] by (simp add: then_feed_def)
  qed
qed simp

section \<open>Properties\<close>

text \<open>C28. The Connect codec round-trips over any fragmentation: the envelopes an encoder has written,
  compressed or not, are read back unchanged by a decoder with the same limits and compression,
  however the bytes are cut into chunks, and the stream then ends cleanly.\<close>

theorem connect_roundtrip:
  assumes "gzip_faithful z" "cl_max_decompressed_bytes l < usize_max"
    and "list_all2 (\<lambda>e w. encode z (encoder_with_compression l c) e = Inr w) es ws"
    and "\<forall>e \<in> set (butlast es). \<not> envelope_is_end_stream e" and "concat chunks = concat ws"
  shows "(\<exists>d. feed_all z (decoder_with_compression l c) chunks = (Inr es, d) \<and> finish d = Inr ())
    \<and> decode_connect_envelopes z (concat ws) l c = Inr es"
proof -
  have "feed_all z (idle l c False) chunks = feed z (idle l c False) (concat ws)"
    using feed_all_concat [of "idle l c False" z chunks] assms(2,5) by simp
  then show ?thesis
    using feed_encoded_list [OF assms(1,3,4)]
    by (simp add: decoder_idle decode_connect_envelopes_def finish_def)
qed

definition stored_gzip :: gzip_codec where
  "stored_gzip = \<lparr>gz_reads = (\<lambda>p. if p = [] then [] else [Inr p]), gz_position = length, gz_writes = (\<lambda>p. [p])\<rparr>"

lemma stored_gzip_faithful: "gzip_faithful stored_gzip"
proof -
  have "\<exists>blocks. [Inr p :: string + u8 list] = map Inr blocks \<and> concat blocks = p \<and> [] \<notin> set blocks" if "p \<noteq> []" for p :: "u8 list"
    using that by (intro exI [of _ "[p]"]) simp
  then show ?thesis by (simp add: gzip_faithful_def stored_gzip_def)
qed

theorem connect_roundtrip_witness:
  "(\<exists>d. feed_all stored_gzip (decoder_with_compression connect_limits_default Gzip)
      [[1, 0, 0], [0, 2, 7], [8, 2, 0, 0, 0, 0]]
      = (Inr [envelope_compressed_data [7, 8], envelope_end_stream []], d) \<and> finish d = Inr ())"
proof -
  let ?l = connect_limits_default and ?e1 = "envelope_compressed_data [7, 8]" and ?e2 = "envelope_end_stream []"
  have "encode stored_gzip (encoder_with_compression ?l Gzip) ?e1 = Inr [1, 0, 0, 0, 2, 7, 8]"
    "encode stored_gzip (encoder_with_compression ?l Gzip) ?e2 = Inr [2, 0, 0, 0, 0]"
    by code_simp+
  moreover have "cl_max_decompressed_bytes ?l < usize_max"
    by (simp add: connect_limits_default_def connect_limits_new_def usize_max_def
        default_connect_max_decompressed_bytes_def)
  moreover have "\<not> envelope_is_end_stream ?e1" by code_simp
  ultimately show ?thesis
    using connect_roundtrip [OF stored_gzip_faithful, of ?l Gzip "[?e1, ?e2]"
        "[[1, 0, 0, 0, 2, 7, 8], [2, 0, 0, 0, 0]]" "[[1, 0, 0], [0, 2, 7], [8, 2, 0, 0, 0, 0]]"]
    by simp
qed

text \<open>C30. The decoder is safe on any input: whatever the bytes and however they are cut, the result is
  that of the whole input at once, the decoder never buffers more than one header and one payload
  of the frame limit, and no payload it hands out exceeds the decompressed limit.\<close>

theorem connect_bounded:
  assumes "cl_max_decompressed_bytes l < usize_max"
    and "feed_all z (decoder_with_compression l c) chunks = (res, d)"
  shows "feed z (decoder_with_compression l c) (concat chunks) = (res, d)
    \<and> length (cd_pending d) \<le> 5 + cl_max_frame_bytes l
    \<and> (\<forall>es e. res = Inr es \<longrightarrow> e \<in> set es \<longrightarrow> length (env_payload e) \<le> cl_max_decompressed_bytes l)"
proof -
  have f: "feed z (idle l c False) (concat chunks) = (res, d)"
    using feed_all_concat [of "idle l c False" z chunks] assms by (simp add: decoder_idle)
  then show ?thesis
    using feed_limits [of "idle l c False" l z "concat chunks"] assms(1)
    by (simp add: decoder_idle within_limits_def)
qed

theorem connect_bounded_witness:
  "\<exists>res d. feed_all stored_gzip (decoder_new (connect_limits_new 4 4)) [[0, 0], [0, 0, 9]] = (res, d)
     \<and> length (cd_pending d) \<le> 9"
proof -
  obtain res d where "feed_all stored_gzip (decoder_new (connect_limits_new 4 4)) [[0, 0], [0, 0, 9]] = (res, d)"
    by force
  then show ?thesis
    using connect_bounded [of "connect_limits_new 4 4" stored_gzip Identity "[[0, 0], [0, 0, 9]]" res d]
    by (simp add: decoder_new_def connect_limits_new_def usize_max_def)
qed

end
