(* ===== verification/Sse.thy ===== *)
theory Sse
  imports Pooler_Prelude
begin

text \<open>
  Server-sent events framing (\<open>pooler-http/src/sse.rs\<close>): the incremental parser, byte by byte as
  its loop goes, and the encoder. Bytes are characters; \<open>str::from_utf8\<close> is \<open>valid_utf8\<close>, the
  test of the standard library written out.
\<close>

section \<open>UTF-8\<close>

text \<open>The ranges of the bytes that may follow a leading byte.\<close>

definition utf8_ranges :: "nat \<Rightarrow> (nat \<times> nat) list option" where
  "utf8_ranges n =
     (let cont = (0x80, 0xBF) in
      if 0xC2 \<le> n \<and> n \<le> 0xDF then Some [cont]
      else if n = 0xE0 then Some [(0xA0, 0xBF), cont]
      else if n = 0xED then Some [(0x80, 0x9F), cont]
      else if 0xE1 \<le> n \<and> n \<le> 0xEF then Some [cont, cont]
      else if n = 0xF0 then Some [(0x90, 0xBF), cont, cont]
      else if 0xF1 \<le> n \<and> n \<le> 0xF3 then Some [cont, cont, cont]
      else if n = 0xF4 then Some [(0x80, 0x8F), cont, cont]
      else None)"

fun in_ranges :: "(nat \<times> nat) list \<Rightarrow> string \<Rightarrow> bool" where
  "in_ranges [] cs = True"
| "in_ranges ((lo, hi) # rs) [] = False"
| "in_ranges ((lo, hi) # rs) (c # cs) = (lo \<le> of_char c \<and> of_char c \<le> hi \<and> in_ranges rs cs)"

function valid_utf8 :: "string \<Rightarrow> bool" where
  "valid_utf8 [] = True"
| "valid_utf8 (c # cs) =
     (if (of_char c :: nat) < 0x80 then valid_utf8 cs
      else case utf8_ranges (of_char c) of
        None \<Rightarrow> False
      | Some rs \<Rightarrow> in_ranges rs cs \<and> valid_utf8 (drop (length rs) cs))"
  by pat_completeness auto
termination by (relation "measure length") auto

section \<open>Limits, events and errors\<close>

definition default_sse_max_line_bytes :: nat where "default_sse_max_line_bytes = 64 * 1024"

definition default_sse_max_event_bytes :: nat where "default_sse_max_event_bytes = 16 * 1024 * 1024"

record sse_limits =
  sse_max_line_bytes :: nat
  sse_max_event_bytes :: nat

definition sse_limits_new :: "nat \<Rightarrow> nat \<Rightarrow> sse_limits" where
  "sse_limits_new line event = \<lparr>sse_max_line_bytes = line, sse_max_event_bytes = event\<rparr>"

definition sse_limits_default :: sse_limits where
  "sse_limits_default = sse_limits_new default_sse_max_line_bytes default_sse_max_event_bytes"

record sse_event =
  se_event :: "string option"
  se_data :: string
  se_id :: "string option"

definition sse_event_new :: "string \<Rightarrow> sse_event" where
  "sse_event_new data = \<lparr>se_event = None, se_data = data, se_id = None\<rparr>"

definition sse_with_event :: "string \<Rightarrow> sse_event \<Rightarrow> sse_event" where
  "sse_with_event name e = e\<lparr>se_event := Some name\<rparr>"

definition sse_with_id :: "string \<Rightarrow> sse_event \<Rightarrow> sse_event" where
  "sse_with_id i e = e\<lparr>se_id := Some i\<rparr>"

definition sse_is_done :: "sse_event \<Rightarrow> bool" where
  "sse_is_done e \<longleftrightarrow> se_event e = None \<and> se_data e = ''[DONE]''"

datatype sse_error =
    LineTooLarge nat nat
  | EventTooLarge nat nat
  | InvalidUtf8
  | Incomplete nat
  | InvalidField string

section \<open>Parser\<close>

record sse_parser =
  sp_limits :: sse_limits
  sp_line :: string
  sp_pending_cr :: bool
  sp_event_name :: "string option"
  sp_data :: string
  sp_has_data :: bool
  sp_last_event_id :: "string option"
  sp_event_bytes :: nat

definition sse_with_limits :: "sse_limits \<Rightarrow> sse_parser" where
  "sse_with_limits l =
     \<lparr>sp_limits = l, sp_line = [], sp_pending_cr = False, sp_event_name = None, sp_data = [],
      sp_has_data = False, sp_last_event_id = None, sp_event_bytes = 0\<rparr>"

definition sse_parser_new :: sse_parser where
  "sse_parser_new = sse_with_limits sse_limits_default"

abbreviation CR :: char where "CR \<equiv> CHR 0x0D"
abbreviation LF :: char where "LF \<equiv> CHR 0x0A"

definition saturating_len :: "nat \<Rightarrow> nat \<Rightarrow> nat" where
  "saturating_len a b = min usize_max (a + b)"

definition push_line_byte :: "char \<Rightarrow> sse_parser \<Rightarrow> (sse_error + unit) \<times> sse_parser" where
  "push_line_byte byte p =
     (let observed = saturating_len (length (sp_line p)) 1 in
      if observed > sse_max_line_bytes (sp_limits p)
      then (Inl (LineTooLarge (sse_max_line_bytes (sp_limits p)) observed), p)
      else (Inr (), p\<lparr>sp_line := sp_line p @ [byte]\<rparr>))"

text \<open>\<open>split_once(':')\<close>, with the whole line as the field when there is no colon, and the value
  without one leading space.\<close>

definition split_field :: "string \<Rightarrow> string \<times> string" where
  "split_field line =
     (if CHR '':'' \<in> set line
      then (takeWhile (\<lambda>c. c \<noteq> CHR '':'') line, tl (dropWhile (\<lambda>c. c \<noteq> CHR '':'') line))
      else (line, []))"

definition strip_space :: "string \<Rightarrow> string" where
  "strip_space v = (case v of [] \<Rightarrow> [] | c # cs \<Rightarrow> if c = CHR '' '' then cs else v)"

definition strip_newline :: "string \<Rightarrow> string" where
  "strip_newline v = (if v \<noteq> [] \<and> last v = LF then butlast v else [])"

definition dispatch :: "sse_parser \<Rightarrow> sse_event" where
  "dispatch p =
     \<lparr>se_event = (case sp_event_name p of Some n \<Rightarrow> if n = [] then None else Some n | None \<Rightarrow> None),
      se_data = strip_newline (sp_data p), se_id = sp_last_event_id p\<rparr>"

definition process_line :: "string \<Rightarrow> sse_parser \<Rightarrow> sse_event list \<times> sse_parser" where
  "process_line line p =
     (if line = []
      then (if sp_has_data p then [dispatch p] else [],
            p\<lparr>sp_event_name := None, sp_data := [], sp_has_data := False, sp_event_bytes := 0\<rparr>)
      else if starts_with line '':'' then ([], p)
      else
        let (field, raw) = split_field line; v = strip_space raw in
        ([],
         if field = ''event'' then p\<lparr>sp_event_name := Some v\<rparr>
         else if field = ''data'' then p\<lparr>sp_data := sp_data p @ v @ [LF], sp_has_data := True\<rparr>
         else if field = ''id''
         then (if CHR 0x00 \<in> set v then p else p\<lparr>sp_last_event_id := Some v\<rparr>)
         else p))"

definition finish_line :: "nat \<Rightarrow> sse_parser \<Rightarrow> (sse_error + sse_event list) \<times> sse_parser" where
  "finish_line line_ending_bytes p =
     (if \<not> valid_utf8 (sp_line p) then (Inl InvalidUtf8, p)
      else
        let line = sp_line p;
            comment = starts_with line '':'';
            p1 = (if comment then p
                  else p\<lparr>sp_event_bytes := saturating_len (sp_event_bytes p)
                           (saturating_len (length line) line_ending_bytes)\<rparr>)
        in
        if \<not> comment \<and> sp_event_bytes p1 > sse_max_event_bytes (sp_limits p1)
        then (Inl (EventTooLarge (sse_max_event_bytes (sp_limits p1)) (sp_event_bytes p1)), p1)
        else
          let (events, p2) = process_line line p1 in (Inr events, p2\<lparr>sp_line := []\<rparr>))"

text \<open>The \<open>match\<close> on a byte, and the body of the loop around it.\<close>

definition match_byte :: "char \<Rightarrow> sse_parser \<Rightarrow> (sse_error + sse_event list) \<times> sse_parser" where
  "match_byte byte p =
     (if byte = CR then (Inr [], p\<lparr>sp_pending_cr := True\<rparr>)
      else if byte = LF then finish_line 1 p
      else map_prod (map_sum id (\<lambda>u. [])) id (push_line_byte byte p))"

definition then_events ::
  "(sse_error + sse_event list) \<times> sse_parser \<Rightarrow>
     (sse_parser \<Rightarrow> (sse_error + sse_event list) \<times> sse_parser) \<Rightarrow>
     (sse_error + sse_event list) \<times> sse_parser" where
  "then_events res f =
     (case res of
        (Inl e, p) \<Rightarrow> (Inl e, p)
      | (Inr events, p) \<Rightarrow> map_prod (map_sum id (\<lambda>events'. events @ events')) id (f p))"

definition feed_byte :: "char \<Rightarrow> sse_parser \<Rightarrow> (sse_error + sse_event list) \<times> sse_parser" where
  "feed_byte byte p =
     (if sp_pending_cr p
      then
        then_events (finish_line (if byte = LF then 2 else 1) (p\<lparr>sp_pending_cr := False\<rparr>))
          (\<lambda>p. if byte = LF then (Inr [], p) else match_byte byte p)
      else match_byte byte p)"

fun sse_feed :: "sse_parser \<Rightarrow> string \<Rightarrow> (sse_error + sse_event list) \<times> sse_parser" where
  "sse_feed p [] = (Inr [], p)"
| "sse_feed p (byte # chunk) = then_events (feed_byte byte p) (\<lambda>p. sse_feed p chunk)"

definition pending_bytes :: "sse_parser \<Rightarrow> nat" where
  "pending_bytes p =
     saturating_len (saturating_len (length (sp_line p)) (length (sp_data p))) (sp_event_bytes p)"

definition sse_finish :: "sse_parser \<Rightarrow> (sse_error + sse_event list) \<times> sse_parser" where
  "sse_finish p =
     then_events
       (if sp_pending_cr p then finish_line 1 (p\<lparr>sp_pending_cr := False\<rparr>) else (Inr [], p))
       (\<lambda>p. if sp_line p \<noteq> [] \<or> sp_has_data p \<or> sp_event_name p \<noteq> None \<or> sp_event_bytes p \<noteq> 0
            then (Inl (Incomplete (pending_bytes p)), p)
            else (Inr [], p))"

section \<open>Encoder\<close>

definition push_line :: "sse_limits \<Rightarrow> string \<Rightarrow> string \<Rightarrow> sse_error + string" where
  "push_line l line output =
     (if length line > sse_max_line_bytes l then Inl (LineTooLarge (sse_max_line_bytes l) (length line))
      else
        let observed = saturating_len (saturating_len (length output) (length line)) 1 in
        if observed > sse_max_event_bytes l then Inl (EventTooLarge (sse_max_event_bytes l) observed)
        else Inr (output @ line @ [LF]))"

definition space_if :: "string \<Rightarrow> string" where
  "space_if v = (if v \<noteq> [] \<and> hd v = CHR '' '' then '' '' else [])"

definition push_field :: "sse_limits \<Rightarrow> string \<Rightarrow> string \<Rightarrow> string \<Rightarrow> sse_error + string" where
  "push_field l field v output =
     (if CR \<in> set v \<or> LF \<in> set v then Inl (InvalidField field)
      else push_line l (field @ '':'' @ space_if v @ v) output)"

definition push_data_line :: "sse_limits \<Rightarrow> string \<Rightarrow> string \<Rightarrow> sse_error + string" where
  "push_data_line l data output = push_line l (''data:'' @ space_if data @ data) output"

text \<open>The index loop: \<open>current\<close> is the slice from \<open>start\<close> to \<open>index\<close>.\<close>

fun push_data_lines :: "sse_limits \<Rightarrow> string \<Rightarrow> string \<Rightarrow> string \<Rightarrow> sse_error + string" where
  "push_data_lines l current [] output = push_data_line l current output"
| "push_data_lines l current (b # bytes) output =
     (if b \<noteq> CR \<and> b \<noteq> LF then push_data_lines l (current @ [b]) bytes output
      else
        case push_data_line l current output of
          Inl e \<Rightarrow> Inl e
        | Inr output' \<Rightarrow>
            (case bytes of
               [] \<Rightarrow> push_data_lines l [] [] output'
             | c # rest \<Rightarrow>
                 if b = CR \<and> c = LF then push_data_lines l [] rest output'
                 else push_data_lines l [] (c # rest) output'))"

definition and_push :: "sse_error + string \<Rightarrow> (string \<Rightarrow> sse_error + string) \<Rightarrow> sse_error + string" where
  "and_push res f = (case res of Inl e \<Rightarrow> Inl e | Inr output \<Rightarrow> f output)"

definition sse_encode :: "sse_limits \<Rightarrow> sse_event \<Rightarrow> sse_error + string" where
  "sse_encode l e =
     and_push (case se_event e of Some name \<Rightarrow> push_field l ''event'' name [] | None \<Rightarrow> Inr [])
       (\<lambda>output. and_push
          (case se_id e of Some i \<Rightarrow> push_field l ''id'' i output | None \<Rightarrow> Inr output)
          (\<lambda>output. and_push (push_data_lines l [] (se_data e) output)
             (\<lambda>output. push_line l [] output)))"

end
