(* ===== verification/Sse_Properties.thy ===== *)
theory Sse_Properties
  imports Sse
begin

text \<open>
  What the event-stream codec promises: the parser reads back what the encoder wrote, for every
  way of cutting the bytes into chunks and under the same limits; and on any input it holds no
  more than one bounded line and one bounded record.
\<close>

section \<open>UTF-8 and line breaks\<close>

lemma utf8_ranges_high:
  assumes "utf8_ranges n = Some rs" "(lo, hi) \<in> set rs"
  shows "0x80 \<le> lo"
  using assms by (auto simp: utf8_ranges_def Let_def split: if_splits)

lemma in_ranges_ascii:
  "\<forall>(lo, hi) \<in> set rs. 0x80 \<le> lo \<Longrightarrow> (of_char c :: nat) < 0x80 \<Longrightarrow>
     in_ranges rs (xs @ c # ys) \<longleftrightarrow> length rs \<le> length xs \<and> in_ranges rs xs"
proof (induction rs xs rule: in_ranges.induct)
  case (2 lo hi rs)
  then show ?case by auto
qed auto

lemma in_ranges_length: "in_ranges rs xs \<Longrightarrow> length rs \<le> length xs"
  by (induction rs xs rule: in_ranges.induct) auto

text \<open>An ASCII byte cuts a UTF-8 text into two.\<close>

lemma valid_utf8_split:
  assumes "(of_char c :: nat) < 0x80"
  shows "valid_utf8 (xs @ c # ys) \<longleftrightarrow> valid_utf8 xs \<and> valid_utf8 ys"
proof (induction xs rule: valid_utf8.induct)
  case 1
  then show ?case using assms by simp
next
  case (2 x xs)
  show ?case
  proof (cases "(of_char x :: nat) < 0x80")
    case True
    then show ?thesis using 2 by simp
  next
    case False
    show ?thesis
    proof (cases "utf8_ranges (of_char x)")
      case None
      then show ?thesis using False by simp
    next
      case (Some rs)
      have r: "in_ranges rs (xs @ c # ys) \<longleftrightarrow> length rs \<le> length xs \<and> in_ranges rs xs"
        using utf8_ranges_high [OF Some] assms by (intro in_ranges_ascii) auto
      then show ?thesis
        using False Some 2(2) [OF False Some] in_ranges_length [of rs xs] by auto
    qed
  qed
qed

lemma valid_utf8_ascii_prefix:
  "\<forall>c \<in> set a. (of_char c :: nat) < 0x80 \<Longrightarrow> valid_utf8 (a @ v) = valid_utf8 v"
  by (induction a) auto

section \<open>Lines\<close>

lemma then_events_assoc: "then_events (then_events r f) g = then_events r (\<lambda>p. then_events (f p) g)"
proof (cases r)
  case (Pair x p)
  show ?thesis
  proof (cases x)
    case (Inr es)
    obtain y q where "f p = (y, q)" by force
    then show ?thesis
      using Pair Inr by (cases y; cases "fst (g q)"; cases "g q") (auto simp: then_events_def)
  qed (simp add: Pair then_events_def)
qed

lemma then_events_Nil [simp]: "then_events (Inr [], p) f = f p"
  by (cases "f p"; cases "fst (f p)") (auto simp: then_events_def)

lemma sse_feed_append: "sse_feed p (a @ b) = then_events (sse_feed p a) (\<lambda>p. sse_feed p b)"
  by (induction a arbitrary: p) (simp_all add: then_events_assoc)

text \<open>The bytes of a line are collected while they fit.\<close>

lemma feed_plain:
  assumes "CR \<notin> set v" "LF \<notin> set v" "\<not> sp_pending_cr p"
    "length (sp_line p) + length v \<le> sse_max_line_bytes (sp_limits p)" "sse_max_line_bytes (sp_limits p) < usize_max"
  shows "sse_feed p v = (Inr [], p\<lparr>sp_line := sp_line p @ v\<rparr>)"
  using assms
proof (induction v arbitrary: p)
  case (Cons c v)
  have "saturating_len (length (sp_line p)) 1 = Suc (length (sp_line p))"
    using Cons.prems(4,5) by (simp add: saturating_len_def)
  then have "feed_byte c p = (Inr [], p\<lparr>sp_line := sp_line p @ [c]\<rparr>)"
    using Cons.prems by (auto simp: feed_byte_def match_byte_def push_line_byte_def Let_def)
  then show ?case using Cons by simp
qed simp

lemma feed_line:
  assumes "CR \<notin> set v" "LF \<notin> set v" "\<not> sp_pending_cr p" "sp_line p = []"
    "length v \<le> sse_max_line_bytes (sp_limits p)" "sse_max_line_bytes (sp_limits p) < usize_max"
  shows "sse_feed p (v @ [LF]) = finish_line 1 (p\<lparr>sp_line := v\<rparr>)"
  using assms feed_plain [of v p]
  by (simp add: sse_feed_append feed_byte_def match_byte_def)
    (cases "finish_line 1 (p\<lparr>sp_line := v\<rparr>)"; cases "fst (finish_line 1 (p\<lparr>sp_line := v\<rparr>))";
      simp add: then_events_def)

section \<open>What the encoder writes\<close>

abbreviation unlines :: "string list \<Rightarrow> string" where
  "unlines ls \<equiv> concat (map (\<lambda>x. x @ [LF]) ls)"

definition field_line :: "string \<Rightarrow> string \<Rightarrow> string" where
  "field_line f v = f @ '':'' @ space_if v @ v"

fun segments :: "string \<Rightarrow> string \<Rightarrow> string list" where
  "segments cur [] = [cur]"
| "segments cur (b # bs) = (if b = LF then cur # segments [] bs else segments (cur @ [b]) bs)"

definition event_lines :: "sse_event \<Rightarrow> string list" where
  "event_lines e =
     (case se_event e of Some n \<Rightarrow> [field_line ''event'' n] | None \<Rightarrow> [])
     @ (case se_id e of Some i \<Rightarrow> [field_line ''id'' i] | None \<Rightarrow> [])
     @ map (field_line ''data'') (segments [] (se_data e)) @ [[]]"

definition push_lines :: "sse_limits \<Rightarrow> string list \<Rightarrow> string \<Rightarrow> sse_error + string" where
  "push_lines l ls output = foldl (\<lambda>r x. and_push r (push_line l x)) (Inr output) ls"

lemma and_push_simps [simp]: "and_push (Inl e) f = Inl e" "and_push (Inr x) f = f x"
  by (simp_all add: and_push_def)

lemma push_lines_Inl: "foldl (\<lambda>r x. and_push r (push_line l x)) (Inl e) ls = Inl e"
  by (induction ls) simp_all

lemma push_lines_append: "push_lines l (xs @ ys) out = and_push (push_lines l xs out) (push_lines l ys)"
  by (cases "push_lines l xs out") (simp_all add: push_lines_def push_lines_Inl)

lemma push_lines_one [simp]: "push_lines l [x] out = push_line l x out" "push_lines l [] out = Inr out"
  by (simp_all add: push_lines_def)

lemma push_lines_Cons: "push_lines l (x # ls) out = and_push (push_line l x out) (push_lines l ls)"
  using push_lines_append [of l "[x]" ls out] by simp

lemma push_data_segments:
  "CR \<notin> set bs \<Longrightarrow> push_data_lines l cur bs out = push_lines l (map (field_line ''data'') (segments cur bs)) out"
proof (induction bs arbitrary: cur out)
  case Nil
  then show ?case by (simp add: push_data_line_def field_line_def)
next
  case (Cons b bs)
  show ?case
  proof (cases "b = LF")
    case True
    have "push_data_lines l cur (b # bs) out = and_push (push_data_line l cur out) (push_data_lines l [] bs)"
      using True by (cases bs; cases "push_data_line l cur out") simp_all
    moreover have "push_data_line l cur out = push_line l (field_line ''data'' cur) out"
      by (simp add: push_data_line_def field_line_def)
    moreover have "push_data_lines l [] bs = push_lines l (map (field_line ''data'') (segments [] bs))"
      using Cons by auto
    ultimately show ?thesis
      using True push_lines_append [of l "[field_line ''data'' cur]" "map (field_line ''data'') (segments [] bs)" out]
      by simp
  next
    case False
    then show ?thesis using Cons by auto
  qed
qed

lemma sse_encode_lines:
  assumes "sse_encode l e = Inr out" "CR \<notin> set (se_data e)"
  shows "push_lines l (event_lines e) [] = Inr out"
    "\<And>n. se_event e = Some n \<Longrightarrow> CR \<notin> set n \<and> LF \<notin> set n"
    "\<And>i. se_id e = Some i \<Longrightarrow> CR \<notin> set i \<and> LF \<notin> set i"
  using assms push_data_segments [OF assms(2), of l "[]"]
  by (auto simp: sse_encode_def event_lines_def push_lines_append push_lines_Cons push_field_def field_line_def
        and_push_def
      split: option.splits if_splits sum.splits)

lemma push_line_Inr:
  assumes "push_line l x out = Inr out'" "sse_max_event_bytes l < usize_max"
  shows "out' = out @ x @ [LF]" "length x \<le> sse_max_line_bytes l" "length out' \<le> sse_max_event_bytes l"
  using assms by (auto simp: push_line_def saturating_len_def Let_def split: if_splits)

lemma push_lines_Inr:
  assumes "push_lines l ls out = Inr out'" "sse_max_event_bytes l < usize_max" "length out \<le> sse_max_event_bytes l"
  shows "out' = out @ unlines ls \<and> (\<forall>x \<in> set ls. length x \<le> sse_max_line_bytes l) \<and> length out' \<le> sse_max_event_bytes l"
  using assms
proof (induction ls arbitrary: out)
  case (Cons x ls)
  obtain out1 where out1: "push_line l x out = Inr out1" "push_lines l ls out1 = Inr out'"
    using Cons.prems(1) push_lines_append [of l "[x]" ls out] by (auto simp: and_push_def split: sum.splits)
  then show ?case using Cons.IH [OF out1(2)] push_line_Inr [OF out1(1) Cons.prems(2)] Cons.prems(2) by auto
qed simp

lemma segments_unlines: "unlines (segments cur bs) = cur @ bs @ [LF]" "segments cur bs \<noteq> []"
  by (induction cur bs rule: segments.induct) auto

lemma segments_plain:
  "CR \<notin> set bs \<Longrightarrow> CR \<notin> set cur \<Longrightarrow> LF \<notin> set cur \<Longrightarrow> x \<in> set (segments cur bs) \<Longrightarrow> CR \<notin> set x \<and> LF \<notin> set x"
  by (induction cur bs rule: segments.induct) (auto split: if_splits)

lemma segments_valid: "valid_utf8 (cur @ bs) \<Longrightarrow> x \<in> set (segments cur bs) \<Longrightarrow> valid_utf8 x"
proof (induction cur bs rule: segments.induct)
  case (2 cur b bs)
  have "(of_char LF :: nat) < 0x80" by simp
  then show ?case using 2 valid_utf8_split [of LF cur bs] by (auto split: if_splits)
qed simp

section \<open>What the parser makes of it\<close>

lemma split_field_line: "CHR '':'' \<notin> set f \<Longrightarrow> split_field (f @ '':'' @ w) = (f, w)"
  by (simp add: split_field_def) (induction f, auto)

lemma strip_space_if: "strip_space (space_if v @ v) = v"
  by (cases v) (auto simp: strip_space_def space_if_def)

text \<open>A parser at the start of a line that still fits its record.\<close>

definition ready :: "sse_parser \<Rightarrow> string \<Rightarrow> bool" where
  "ready p x \<longleftrightarrow> \<not> sp_pending_cr p \<and> sp_line p = [] \<and> CR \<notin> set x \<and> LF \<notin> set x \<and> valid_utf8 x
     \<and> length x \<le> sse_max_line_bytes (sp_limits p) \<and> sse_max_line_bytes (sp_limits p) < usize_max
     \<and> sp_event_bytes p + Suc (length x) \<le> sse_max_event_bytes (sp_limits p)
     \<and> sse_max_event_bytes (sp_limits p) < usize_max"

lemma feed_ready:
  assumes "ready p x" "\<not> starts_with x '':''"
  shows "sse_feed p (x @ [LF]) =
    (let r = process_line x (p\<lparr>sp_line := x, sp_event_bytes := sp_event_bytes p + Suc (length x)\<rparr>)
     in (Inr (fst r), (snd r)\<lparr>sp_line := []\<rparr>))"
proof -
  have "saturating_len (sp_event_bytes p) (saturating_len (length x) 1) = sp_event_bytes p + Suc (length x)"
    using assms(1) by (auto simp: ready_def saturating_len_def)
  then have "finish_line 1 (p\<lparr>sp_line := x\<rparr>) =
      (let r = process_line x (p\<lparr>sp_line := x, sp_event_bytes := sp_event_bytes p + Suc (length x)\<rparr>)
       in (Inr (fst r), (snd r)\<lparr>sp_line := []\<rparr>))"
    using assms by (simp add: finish_line_def ready_def Let_def split_beta)
  then show ?thesis using feed_line [of x p] assms(1) by (simp add: ready_def)
qed

lemma field_line_starts: "f \<noteq> [] \<Longrightarrow> hd f \<noteq> CHR '':'' \<Longrightarrow> \<not> starts_with (field_line f v) '':'' \<and> field_line f v \<noteq> []"
  by (cases f) (simp_all add: starts_with_def field_line_def)

lemma feed_event_line:
  assumes "ready p (field_line ''event'' v)"
  shows "sse_feed p (field_line ''event'' v @ [LF]) =
    (Inr [], p\<lparr>sp_event_name := Some v, sp_event_bytes := sp_event_bytes p + Suc (length (field_line ''event'' v))\<rparr>)"
proof -
  have "sp_line p = []" using assms by (simp add: ready_def)
  then show ?thesis
    using feed_ready [OF assms] field_line_starts [of "''event''" v] split_field_line [of "''event''"]
    by (cases p) (simp add: process_line_def Let_def field_line_def strip_space_if)
qed

lemma feed_id_line:
  assumes "ready p (field_line ''id'' v)" "CHR 0x00 \<notin> set v"
  shows "sse_feed p (field_line ''id'' v @ [LF]) =
    (Inr [], p\<lparr>sp_last_event_id := Some v, sp_event_bytes := sp_event_bytes p + Suc (length (field_line ''id'' v))\<rparr>)"
proof -
  have "sp_line p = []" using assms by (simp add: ready_def)
  then show ?thesis
    using feed_ready [OF assms(1)] field_line_starts [of "''id''" v] split_field_line [of "''id''"] assms(2)
    by (cases p) (simp add: process_line_def Let_def field_line_def strip_space_if)
qed

lemma feed_data_line:
  assumes "ready p (field_line ''data'' v)"
  shows "sse_feed p (field_line ''data'' v @ [LF]) =
    (Inr [], p\<lparr>sp_data := sp_data p @ v @ [LF], sp_has_data := True,
       sp_event_bytes := sp_event_bytes p + Suc (length (field_line ''data'' v))\<rparr>)"
proof -
  have "sp_line p = []" using assms by (simp add: ready_def)
  then show ?thesis
    using feed_ready [OF assms] field_line_starts [of "''data''" v] split_field_line [of "''data''"]
    by (cases p) (simp add: process_line_def Let_def field_line_def strip_space_if)
qed

lemma feed_blank_line:
  assumes "ready p []" "sp_has_data p"
  shows "sse_feed p [LF] =
    (Inr [dispatch p], p\<lparr>sp_event_name := None, sp_data := [], sp_has_data := False, sp_event_bytes := 0\<rparr>)"
proof -
  have "sp_line p = []" using assms by (simp add: ready_def)
  then show ?thesis
    using feed_ready [OF assms(1)] assms(2)
    by (cases p) (simp add: process_line_def Let_def starts_with_def dispatch_def)
qed

definition ok_line :: "sse_limits \<Rightarrow> string \<Rightarrow> bool" where
  "ok_line l x \<longleftrightarrow> CR \<notin> set x \<and> LF \<notin> set x \<and> valid_utf8 x \<and> length x \<le> sse_max_line_bytes l"

definition at_line :: "sse_limits \<Rightarrow> sse_parser \<Rightarrow> bool" where
  "at_line l p \<longleftrightarrow> sp_limits p = l \<and> \<not> sp_pending_cr p \<and> sp_line p = []
     \<and> sse_max_line_bytes l < usize_max \<and> sse_max_event_bytes l < usize_max"

lemma ready_iff:
  "at_line l p \<Longrightarrow> ok_line l x \<Longrightarrow> sp_event_bytes p + Suc (length x) \<le> sse_max_event_bytes l \<Longrightarrow> ready p x"
  by (auto simp: ready_def at_line_def ok_line_def)

lemma feed_data_lines:
  assumes "at_line l p" "\<forall>v \<in> set vs. ok_line l (field_line ''data'' v)"
    and "sp_event_bytes p + length (unlines (map (field_line ''data'') vs)) \<le> sse_max_event_bytes l"
  shows "sse_feed p (unlines (map (field_line ''data'') vs)) =
    (Inr [], p\<lparr>sp_data := sp_data p @ unlines vs, sp_has_data := (sp_has_data p \<or> vs \<noteq> []),
       sp_event_bytes := sp_event_bytes p + length (unlines (map (field_line ''data'') vs))\<rparr>)"
  using assms
proof (induction vs arbitrary: p)
  case Nil
  then show ?case by simp
next
  case (Cons v vs)
  let ?x = "field_line ''data'' v"
  let ?p = "p\<lparr>sp_data := sp_data p @ v @ [LF], sp_has_data := True, sp_event_bytes := sp_event_bytes p + Suc (length ?x)\<rparr>"
  have "ready p ?x" using Cons.prems by (intro ready_iff [of l]) simp_all
  then have one: "sse_feed p (?x @ [LF]) = (Inr [], ?p)" by (rule feed_data_line)
  have "at_line l ?p" using Cons.prems(1) by (simp add: at_line_def)
  then have "sse_feed ?p (unlines (map (field_line ''data'') vs)) =
    (Inr [], ?p\<lparr>sp_data := sp_data ?p @ unlines vs, sp_has_data := (sp_has_data ?p \<or> vs \<noteq> []),
       sp_event_bytes := sp_event_bytes ?p + length (unlines (map (field_line ''data'') vs))\<rparr>)"
    using Cons.prems by (intro Cons.IH) simp_all
  then show ?case using one by (simp only: list.map concat.simps sse_feed_append then_events_Nil) (simp add: ac_simps)
qed

text \<open>Between records a parser keeps nothing but the last event id.\<close>

definition sse_idle :: "sse_limits \<Rightarrow> string option \<Rightarrow> sse_parser" where
  "sse_idle l last_id = (sse_with_limits l)\<lparr>sp_last_event_id := last_id\<rparr>"

definition carried :: "string option \<Rightarrow> sse_event \<Rightarrow> string option" where
  "carried last_id e = (case se_id e of Some i \<Rightarrow> Some i | None \<Rightarrow> last_id)"

definition wellformed_event :: "sse_event \<Rightarrow> bool" where
  "wellformed_event e \<longleftrightarrow> valid_utf8 (se_data e) \<and> CR \<notin> set (se_data e)
     \<and> (\<forall>n. se_event e = Some n \<longrightarrow> valid_utf8 n \<and> n \<noteq> [])
     \<and> (\<forall>i. se_id e = Some i \<longrightarrow> valid_utf8 i \<and> CHR 0x00 \<notin> set i)"

lemma field_line_valid:
  "f \<in> {''event'', ''id'', ''data''} \<Longrightarrow> valid_utf8 v \<Longrightarrow> valid_utf8 (field_line f v)"
  unfolding field_line_def append_assoc [symmetric]
  by (subst valid_utf8_ascii_prefix) (auto simp: space_if_def split: if_splits)

lemma field_line_plain:
  "f \<in> {''event'', ''id'', ''data''} \<Longrightarrow> CR \<notin> set v \<Longrightarrow> LF \<notin> set v \<Longrightarrow>
     CR \<notin> set (field_line f v) \<and> LF \<notin> set (field_line f v)"
  by (auto simp: field_line_def space_if_def split: if_splits)

lemma event_lines_ok:
  assumes "wellformed_event e" "sse_encode l e = Inr out" "sse_max_event_bytes l < usize_max"
  shows "out = unlines (event_lines e)" "\<forall>x \<in> set (event_lines e). ok_line l x" "length out \<le> sse_max_event_bytes l"
proof -
  have cr: "CR \<notin> set (se_data e)" using assms(1) by (simp add: wellformed_event_def)
  note enc = sse_encode_lines [OF assms(2) cr]
  note len = push_lines_Inr [OF enc(1) assms(3)]
  have "CR \<notin> set x \<and> LF \<notin> set x \<and> valid_utf8 x" if "x \<in> set (event_lines e)" for x
  proof -
    consider n where "se_event e = Some n" "x = field_line ''event'' n" | i where "se_id e = Some i" "x = field_line ''id'' i"
      | v where "v \<in> set (segments [] (se_data e))" "x = field_line ''data'' v" | "x = []"
      using \<open>x \<in> set (event_lines e)\<close> by (cases "se_event e"; cases "se_id e") (auto simp: event_lines_def)
    then show ?thesis
    proof cases
      case (1 n)
      then have "CR \<notin> set n \<and> LF \<notin> set n" "valid_utf8 n" using enc(2) assms(1) by (simp_all add: wellformed_event_def)
      then show ?thesis using 1(2) field_line_valid [of "''event''" n] field_line_plain [of "''event''" n] by simp
    next
      case (2 i)
      then have "CR \<notin> set i \<and> LF \<notin> set i" "valid_utf8 i" using enc(3) assms(1) by (simp_all add: wellformed_event_def)
      then show ?thesis using 2(2) field_line_valid [of "''id''" i] field_line_plain [of "''id''" i] by simp
    next
      case (3 v)
      then have "CR \<notin> set v \<and> LF \<notin> set v" "valid_utf8 v"
        using segments_plain [OF cr, of "[]"] segments_valid [of "[]" "se_data e"] assms(1)
        by (simp_all add: wellformed_event_def)
      then show ?thesis using 3(2) field_line_valid [of "''data''" v] field_line_plain [of "''data''" v] by simp
    qed simp
  qed
  then show "\<forall>x \<in> set (event_lines e). ok_line l x" using len by (simp add: ok_line_def)
  show "out = unlines (event_lines e)" "length out \<le> sse_max_event_bytes l" using len by auto
qed

lemma feed_encoded_event:
  assumes e: "wellformed_event e" "sse_encode l e = Inr out"
    and l: "sse_max_event_bytes l < usize_max" "sse_max_line_bytes l < usize_max"
  shows "sse_feed (sse_idle l last_id) out = (Inr [e\<lparr>se_id := carried last_id e\<rparr>], sse_idle l (carried last_id e))"
proof -
  note lines = event_lines_ok [OF e l(1)]
  let ?ev = "case se_event e of Some n \<Rightarrow> [field_line ''event'' n] | None \<Rightarrow> []"
  let ?id = "case se_id e of Some i \<Rightarrow> [field_line ''id'' i] | None \<Rightarrow> []"
  let ?vs = "segments [] (se_data e)"
  let ?p0 = "sse_idle l last_id"
  let ?p1 = "?p0\<lparr>sp_event_name := se_event e, sp_event_bytes := length (unlines ?ev)\<rparr>"
  let ?p2 = "?p1\<lparr>sp_last_event_id := carried last_id e, sp_event_bytes := length (unlines ?ev) + length (unlines ?id)\<rparr>"
  let ?p3 = "?p2\<lparr>sp_data := unlines ?vs, sp_has_data := True,
    sp_event_bytes := length (unlines ?ev) + length (unlines ?id) + length (unlines (map (field_line ''data'') ?vs))\<rparr>"
  have out: "out = unlines ?ev @ unlines ?id @ unlines (map (field_line ''data'') ?vs) @ [LF]"
    unfolding lines(1) by (simp add: event_lines_def)
  have len: "length (unlines ?ev) + length (unlines ?id) + length (unlines (map (field_line ''data'') ?vs)) + 1
      \<le> sse_max_event_bytes l"
    using lines(3) unfolding out by simp
  have at: "at_line l ?p0" "at_line l ?p1" "at_line l ?p2" "at_line l ?p3"
    using l by (simp_all add: at_line_def sse_idle_def sse_with_limits_def)
  have s1: "sse_feed ?p0 (unlines ?ev) = (Inr [], ?p1)"
  proof (cases "se_event e")
    case None
    then show ?thesis by (simp add: sse_idle_def sse_with_limits_def)
  next
    case (Some n)
    have "ready ?p0 (field_line ''event'' n)"
      using Some lines(2) len at(1)
      by (intro ready_iff [of l]) (simp_all add: event_lines_def sse_idle_def sse_with_limits_def)
    from feed_event_line [OF this] show ?thesis using Some by (simp add: sse_idle_def sse_with_limits_def)
  qed
  have s2: "sse_feed ?p1 (unlines ?id) = (Inr [], ?p2)"
  proof (cases "se_id e")
    case None
    then show ?thesis by (simp add: carried_def sse_idle_def sse_with_limits_def)
  next
    case (Some i)
    have "ready ?p1 (field_line ''id'' i)"
      using Some lines(2) len at(2) by (intro ready_iff [of l]) (simp_all add: event_lines_def)
    moreover have "CHR 0x00 \<notin> set i" using e(1) Some by (simp add: wellformed_event_def)
    ultimately show ?thesis using feed_id_line [of ?p1 i] Some by (simp add: carried_def)
  qed
  have "\<forall>v \<in> set ?vs. ok_line l (field_line ''data'' v)" using lines(2) by (simp add: event_lines_def)
  then have s3: "sse_feed ?p2 (unlines (map (field_line ''data'') ?vs)) = (Inr [], ?p3)"
    using feed_data_lines [OF at(3)] len segments_unlines(2) [of "[]" "se_data e"]
    by (simp add: sse_idle_def sse_with_limits_def)
  have "ready ?p3 []" using at(4) len by (intro ready_iff [of l]) (simp_all add: ok_line_def)
  moreover have "dispatch ?p3 = e\<lparr>se_id := carried last_id e\<rparr>"
    using e(1) by (cases e) (auto simp: dispatch_def strip_newline_def segments_unlines(1) wellformed_event_def
        split: option.split)
  ultimately have s4: "sse_feed ?p3 [LF] = (Inr [e\<lparr>se_id := carried last_id e\<rparr>], sse_idle l (carried last_id e))"
    using feed_blank_line [of ?p3] by (simp add: sse_idle_def sse_with_limits_def)
  show ?thesis unfolding out by (simp only: sse_feed_append s1 s2 s3 s4 then_events_Nil)
qed

section \<open>Bounds\<close>

definition sse_inv :: "sse_limits \<Rightarrow> sse_parser \<Rightarrow> bool" where
  "sse_inv l p \<longleftrightarrow> sp_limits p = l \<and> length (sp_line p) \<le> sse_max_line_bytes l
     \<and> length (sp_data p) \<le> sp_event_bytes p \<and> sp_event_bytes p \<le> sse_max_event_bytes l"

definition sse_bounded :: "sse_limits \<Rightarrow> (sse_error + sse_event list) \<times> sse_parser \<Rightarrow> bool" where
  "sse_bounded l res \<longleftrightarrow> length (sp_line (snd res)) \<le> sse_max_line_bytes l
     \<and> length (sp_data (snd res)) \<le> sse_max_event_bytes l
     \<and> (\<forall>es. fst res = Inr es \<longrightarrow> sse_inv l (snd res) \<and> (\<forall>e \<in> set es. length (se_data e) \<le> sse_max_event_bytes l))"

lemma sse_bounded_then:
  assumes "sse_bounded l r" "\<And>p. sse_inv l p \<Longrightarrow> sse_bounded l (f p)"
  shows "sse_bounded l (then_events r f)"
proof (cases r)
  case (Pair x p)
  show ?thesis
  proof (cases x)
    case (Inl e)
    then show ?thesis using Pair assms(1) by (simp add: then_events_def)
  next
    case (Inr es)
    then have p: "sse_inv l p" "\<forall>e \<in> set es. length (se_data e) \<le> sse_max_event_bytes l"
      using Pair assms(1) by (simp_all add: sse_bounded_def)
    obtain y q where f: "f p = (y, q)" by force
    have "sse_bounded l (y, q)" using assms(2) [OF p(1)] f by simp
    then show ?thesis
      using p(2) Pair Inr f by (cases y) (auto simp: then_events_def sse_bounded_def)
  qed
qed

lemma split_field_length: "length (snd (split_field line)) \<le> length line"
  using length_dropWhile_le [of "\<lambda>c. c \<noteq> CHR '':''" line] diff_le_self le_trans
  by (auto simp: split_field_def)

lemma strip_space_length: "length (strip_space v) \<le> length v"
  by (simp add: strip_space_def split: list.split)

lemma process_line_bounded:
  assumes "length (sp_data p) + Suc (length line) \<le> sp_event_bytes p \<or> starts_with line '':''"
    "length (sp_data p) \<le> sp_event_bytes p" "process_line line p = (es, q)"
  shows "sp_limits q = sp_limits p \<and> sp_event_bytes q \<le> sp_event_bytes p \<and> length (sp_data q) \<le> sp_event_bytes q
    \<and> (\<forall>e \<in> set es. length (se_data e) \<le> sp_event_bytes p)"
proof -
  let ?v = "strip_space (snd (split_field line))"
  have v: "length ?v \<le> length line" using split_field_length strip_space_length le_trans by blast
  show ?thesis
    using assms v by (auto simp: process_line_def dispatch_def strip_newline_def split_beta Let_def split: if_splits)
qed

lemma finish_line_bounded:
  assumes "sse_inv l p" "sse_max_event_bytes l < usize_max" "0 < k"
  shows "sse_bounded l (finish_line k p)"
proof -
  let ?line = "sp_line p"
  let ?n = "saturating_len (sp_event_bytes p) (saturating_len (length ?line) k)"
  let ?p1 = "if starts_with ?line '':'' then p else p\<lparr>sp_event_bytes := ?n\<rparr>"
  consider "\<not> valid_utf8 ?line" | "valid_utf8 ?line" "\<not> starts_with ?line '':''" "?n > sse_max_event_bytes l"
    | "valid_utf8 ?line" "starts_with ?line '':'' \<or> ?n \<le> sse_max_event_bytes l" by fastforce
  then show ?thesis
  proof cases
    case 1
    then show ?thesis using assms(1) by (simp add: finish_line_def sse_bounded_def sse_inv_def)
  next
    case 2
    then show ?thesis using assms(1) by (simp add: finish_line_def sse_bounded_def sse_inv_def Let_def)
  next
    case 3
    obtain es q where pr: "process_line ?line ?p1 = (es, q)" by force
    have f: "finish_line k p = (Inr es, q\<lparr>sp_line := []\<rparr>)"
      using 3 pr assms(1) by (auto simp: finish_line_def sse_inv_def Let_def split: if_splits)
    have n: "?n = sp_event_bytes p + (length ?line + k)" if "?n \<le> sse_max_event_bytes l"
      using that assms(2) by (auto simp: saturating_len_def min_def split: if_splits)
    have "length (sp_data ?p1) + Suc (length ?line) \<le> sp_event_bytes ?p1 \<or> starts_with ?line '':''"
      "length (sp_data ?p1) \<le> sp_event_bytes ?p1"
      using 3(2) n assms(1,3) by (auto simp: sse_inv_def)
    from process_line_bounded [OF this pr] show ?thesis
      using f assms(1) 3(2) by (auto simp: sse_bounded_def sse_inv_def split: if_splits)
  qed
qed

lemma sse_inv_bounded: "sse_inv l p \<Longrightarrow> sse_bounded l (Inr [], p)"
  by (simp add: sse_bounded_def sse_inv_def)

lemma match_byte_bounded:
  assumes "sse_inv l p" "sse_max_event_bytes l < usize_max" "sse_max_line_bytes l < usize_max"
  shows "sse_bounded l (match_byte b p)"
proof -
  have "sse_bounded l (map_prod (map_sum id (\<lambda>u. [])) id (push_line_byte b p))"
    using assms by (auto simp: push_line_byte_def saturating_len_def sse_bounded_def sse_inv_def Let_def)
  then show ?thesis
    using assms finish_line_bounded [OF assms(1,2), of 1]
    by (auto simp: match_byte_def sse_bounded_def sse_inv_def)
qed

lemma feed_bounded:
  assumes "sse_max_event_bytes l < usize_max" "sse_max_line_bytes l < usize_max"
  shows "sse_inv l p \<Longrightarrow> sse_bounded l (sse_feed p chunk)"
proof (induction chunk arbitrary: p)
  case Nil
  then show ?case by (simp add: sse_inv_bounded)
next
  case (Cons b chunk)
  have "sse_bounded l (feed_byte b p)"
  proof (cases "sp_pending_cr p")
    case True
    have "sse_inv l (p\<lparr>sp_pending_cr := False\<rparr>)" using Cons.prems by (simp add: sse_inv_def)
    then show ?thesis
      using True match_byte_bounded [OF _ assms] sse_inv_bounded
      by (auto simp: feed_byte_def intro!: sse_bounded_then finish_line_bounded assms)
  next
    case False
    then show ?thesis using match_byte_bounded [OF Cons.prems assms] by (simp add: feed_byte_def)
  qed
  then show ?case using Cons.IH by (auto intro: sse_bounded_then)
qed

section \<open>Properties\<close>

fun sse_feed_all :: "sse_parser \<Rightarrow> string list \<Rightarrow> (sse_error + sse_event list) \<times> sse_parser" where
  "sse_feed_all p [] = (Inr [], p)"
| "sse_feed_all p (c # cs) = then_events (sse_feed p c) (\<lambda>p. sse_feed_all p cs)"

lemma sse_feed_all_concat: "sse_feed_all p cs = sse_feed p (concat cs)"
  by (induction cs arbitrary: p) (simp_all add: sse_feed_append)

text \<open>What a reader is given: each event, with the last id that was set.\<close>

fun delivered :: "string option \<Rightarrow> sse_event list \<Rightarrow> sse_event list" where
  "delivered last_id [] = []"
| "delivered last_id (e # es) = e\<lparr>se_id := carried last_id e\<rparr> # delivered (carried last_id e) es"

lemma feed_encoded_events:
  assumes l: "sse_max_event_bytes l < usize_max" "sse_max_line_bytes l < usize_max"
  shows "list_all2 (\<lambda>e w. sse_encode l e = Inr w) es ws \<Longrightarrow> \<forall>e \<in> set es. wellformed_event e \<Longrightarrow>
    \<exists>last_id'. sse_feed (sse_idle l last_id) (concat ws) = (Inr (delivered last_id es), sse_idle l last_id')"
proof (induction es ws arbitrary: last_id rule: list_all2_induct)
  case (Cons e es w ws)
  have "sse_feed (sse_idle l last_id) w = (Inr [e\<lparr>se_id := carried last_id e\<rparr>], sse_idle l (carried last_id e))"
    using feed_encoded_event [OF _ Cons(1) l] Cons.prems by simp
  moreover obtain last_id' where
    "sse_feed (sse_idle l (carried last_id e)) (concat ws) = (Inr (delivered (carried last_id e) es), sse_idle l last_id')"
    using Cons.IH Cons.prems by auto
  ultimately show ?case by (auto simp: sse_feed_append then_events_def)
qed auto

text \<open>C29. Event streams round-trip over any fragmentation: a sequence of well-formed events (valid text,
  no carriage return in the data, a non-empty type, an id without NUL) written by the encoder is
  read back by a parser with the same limits, whatever the chunks, event by event and with the ids
  carried over as the protocol says; and the stream then ends cleanly.\<close>

theorem sse_roundtrip:
  assumes "sse_max_event_bytes l < usize_max" "sse_max_line_bytes l < usize_max"
    and "list_all2 (\<lambda>e w. sse_encode l e = Inr w) es ws" "\<forall>e \<in> set es. wellformed_event e"
    and "concat chunks = concat ws"
  shows "\<exists>p. sse_feed_all (sse_with_limits l) chunks = (Inr (delivered None es), p) \<and> sse_finish p = (Inr [], p)"
proof -
  obtain last_id where "sse_feed (sse_idle l None) (concat ws) = (Inr (delivered None es), sse_idle l last_id)"
    using feed_encoded_events [OF assms(1-4)] by blast
  moreover have "sse_idle l None = sse_with_limits l" by (simp add: sse_idle_def sse_with_limits_def)
  moreover have "sse_finish (sse_idle l i) = (Inr [], sse_idle l i)" for i
    by (simp add: sse_finish_def sse_idle_def sse_with_limits_def)
  ultimately show ?thesis using assms(5) by (simp add: sse_feed_all_concat)
qed

theorem sse_roundtrip_witness:
  "\<exists>p. sse_feed_all (sse_with_limits sse_limits_default) [''data:a'', LF # ''da'', ''ta:b'', [LF, LF]]
     = (Inr [sse_event_new (''a'' @ LF # ''b'')], p) \<and> sse_finish p = (Inr [], p)"
proof -
  let ?e = "sse_event_new (''a'' @ LF # ''b'')" and ?w = "''data:a'' @ LF # ''data:b'' @ [LF, LF]"
  have l: "sse_max_event_bytes sse_limits_default < usize_max" "sse_max_line_bytes sse_limits_default < usize_max"
    by (simp_all add: sse_limits_default_def sse_limits_new_def usize_max_def default_sse_max_event_bytes_def
        default_sse_max_line_bytes_def)
  have "sse_encode sse_limits_default ?e = Inr ?w"
    by (simp add: sse_encode_def sse_event_new_def push_data_line_def push_line_def space_if_def saturating_len_def
        sse_limits_default_def sse_limits_new_def usize_max_def default_sse_max_event_bytes_def
        default_sse_max_line_bytes_def)
  moreover have "wellformed_event ?e" by (simp add: wellformed_event_def sse_event_new_def)
  ultimately show ?thesis
    using sse_roundtrip [OF l, of "[?e]" "[?w]" "[''data:a'', LF # ''da'', ''ta:b'', [LF, LF]]"]
    by (simp add: carried_def sse_event_new_def)
qed



end
