(* ===== verification/Resources.thy ===== *)
theory Resources
  imports Pooler_Prelude
begin

text \<open>
  Live and peak counts of the resources of one runtime (\<open>pooler-http/src/resources.rs\<close>). The two
  counters of a \<open>ResourceCount\<close> are separate atomics: \<open>fetch_add\<close>, \<open>fetch_max\<close> and
  \<open>fetch_sub\<close> are one step each, so that other threads may come between the parts of an
  acquisition. The atomics wrap around, as \<open>AtomicU64\<close> does.
\<close>

record runtime_resource_snapshot =
  rs_tasks :: u64
  rs_permits :: u64
  rs_refresh_leases :: u64
  rs_temporary_files :: u64
  rs_secret_material :: u64
  rs_peak_tasks :: u64
  rs_peak_permits :: u64
  rs_peak_refresh_leases :: u64
  rs_peak_temporary_files :: u64
  rs_peak_secret_material :: u64

definition snapshot_is_zero :: "runtime_resource_snapshot \<Rightarrow> bool" where
  "snapshot_is_zero s \<longleftrightarrow>
     rs_tasks s = 0 \<and> rs_permits s = 0 \<and> rs_refresh_leases s = 0 \<and> rs_temporary_files s = 0
     \<and> rs_secret_material s = 0"

definition snapshot_merge ::
  "runtime_resource_snapshot \<Rightarrow> runtime_resource_snapshot \<Rightarrow> runtime_resource_snapshot" where
  "snapshot_merge s t =
     \<lparr>rs_tasks = saturating_add (rs_tasks s) (rs_tasks t),
      rs_permits = saturating_add (rs_permits s) (rs_permits t),
      rs_refresh_leases = saturating_add (rs_refresh_leases s) (rs_refresh_leases t),
      rs_temporary_files = saturating_add (rs_temporary_files s) (rs_temporary_files t),
      rs_secret_material = saturating_add (rs_secret_material s) (rs_secret_material t),
      rs_peak_tasks = saturating_add (rs_peak_tasks s) (rs_peak_tasks t),
      rs_peak_permits = saturating_add (rs_peak_permits s) (rs_peak_permits t),
      rs_peak_refresh_leases = saturating_add (rs_peak_refresh_leases s) (rs_peak_refresh_leases t),
      rs_peak_temporary_files = saturating_add (rs_peak_temporary_files s) (rs_peak_temporary_files t),
      rs_peak_secret_material = saturating_add (rs_peak_secret_material s) (rs_peak_secret_material t)\<rparr>"

record resource_count =
  rn_current :: u64
  rn_peak :: u64

definition resource_count_default :: resource_count where
  "resource_count_default = \<lparr>rn_current = 0, rn_peak = 0\<rparr>"

text \<open>The steps of \<open>ResourceCount::acquire\<close>: the count it observed goes to \<open>fetch_max\<close>.\<close>

definition count_fetch_add :: "resource_count \<Rightarrow> u64 \<times> resource_count" where
  "count_fetch_add c = (saturating_add (rn_current c) 1, c\<lparr>rn_current := rn_current c + 1\<rparr>)"

definition count_fetch_max :: "u64 \<Rightarrow> resource_count \<Rightarrow> resource_count" where
  "count_fetch_max observed c = c\<lparr>rn_peak := max (rn_peak c) observed\<rparr>"

definition count_acquire :: "resource_count \<Rightarrow> resource_count" where
  "count_acquire c = (let (observed, c) = count_fetch_add c in count_fetch_max observed c)"

definition count_drop :: "resource_count \<Rightarrow> resource_count" where
  "count_drop c = c\<lparr>rn_current := rn_current c - 1\<rparr>"

record runtime_resources =
  rr_tasks :: resource_count
  rr_permits :: resource_count
  rr_refresh_leases :: resource_count
  rr_temporary_files :: resource_count
  rr_secret_material :: resource_count

definition resources_new :: runtime_resources where
  "resources_new =
     \<lparr>rr_tasks = resource_count_default, rr_permits = resource_count_default,
      rr_refresh_leases = resource_count_default, rr_temporary_files = resource_count_default,
      rr_secret_material = resource_count_default\<rparr>"

definition resources_task :: "runtime_resources \<Rightarrow> runtime_resources" where
  "resources_task r = r\<lparr>rr_tasks := count_acquire (rr_tasks r)\<rparr>"

definition resources_permit :: "runtime_resources \<Rightarrow> runtime_resources" where
  "resources_permit r = r\<lparr>rr_permits := count_acquire (rr_permits r)\<rparr>"

definition resources_refresh_lease :: "runtime_resources \<Rightarrow> runtime_resources" where
  "resources_refresh_lease r = r\<lparr>rr_refresh_leases := count_acquire (rr_refresh_leases r)\<rparr>"

definition resources_temporary_file :: "runtime_resources \<Rightarrow> runtime_resources" where
  "resources_temporary_file r = r\<lparr>rr_temporary_files := count_acquire (rr_temporary_files r)\<rparr>"

definition resources_secret_material :: "runtime_resources \<Rightarrow> runtime_resources" where
  "resources_secret_material r = r\<lparr>rr_secret_material := count_acquire (rr_secret_material r)\<rparr>"

definition resources_snapshot :: "runtime_resources \<Rightarrow> runtime_resource_snapshot" where
  "resources_snapshot r =
     \<lparr>rs_tasks = rn_current (rr_tasks r), rs_permits = rn_current (rr_permits r),
      rs_refresh_leases = rn_current (rr_refresh_leases r),
      rs_temporary_files = rn_current (rr_temporary_files r),
      rs_secret_material = rn_current (rr_secret_material r),
      rs_peak_tasks = rn_peak (rr_tasks r), rs_peak_permits = rn_peak (rr_permits r),
      rs_peak_refresh_leases = rn_peak (rr_refresh_leases r),
      rs_peak_temporary_files = rn_peak (rr_temporary_files r),
      rs_peak_secret_material = rn_peak (rr_secret_material r)\<rparr>"

section \<open>Counting below the width\<close>

lemma unat_increment: "unat (x :: u64) < usize_max \<Longrightarrow> unat (x + 1) = unat x + 1"
  by (simp add: usize_max_def unat_word_ariths)

lemma unat_decrement: "0 < unat (x :: u64) \<Longrightarrow> unat (x - 1) = unat x - 1"
  by (metis One_nat_def Suc_leI unat_1 unat_sub word_le_nat_alt)

lemma fetch_add_observed:
  assumes "unat (rn_current c) < usize_max" "count_fetch_add c = (observed, c')"
  shows "unat observed = unat (rn_current c) + 1" "rn_current c' = observed" "rn_peak c' = rn_peak c"
proof -
  show "unat observed = unat (rn_current c) + 1"
    using assms by (auto simp: count_fetch_add_def saturation usize_max_def)
  then show "rn_current c' = observed"
    using assms by (auto simp: count_fetch_add_def word_unat_eq_iff unat_increment)
  show "rn_peak c' = rn_peak c" using assms by (auto simp: count_fetch_add_def)
qed

text \<open>Merging two parts of a runtime that are both idle gives an idle runtime, and nothing else does.\<close>

lemma saturating_add_zero: "saturating_add x y = 0 \<longleftrightarrow> x = 0 \<and> y = (0 :: u64)"
  unfolding word_unat_eq_iff by (auto simp: saturation min_def)

lemma merge_is_zero: "snapshot_is_zero (snapshot_merge s t) \<longleftrightarrow> snapshot_is_zero s \<and> snapshot_is_zero t"
  by (auto simp: snapshot_is_zero_def snapshot_merge_def saturating_add_zero)

end
