(* ===== verification/Bodies.thy ===== *)
theory Bodies
  imports Pooler_Prelude
begin

text \<open>
  Body limits (\<open>pooler-http/src/body.rs\<close>): the streaming wrappers that bound a whole body and one
  frame, and the reader that collects a body. The trait \<open>Body\<close> is the poll function of the wrapped
  body on its state; a frame holds data, trailers or neither.
\<close>

datatype 'a poll = Pending | Ready 'a

datatype 't frame = Data "u8 list" | Trailers 't | Unknown

datatype 'e body_limit_error = TooLarge nat nat | Upstream 'e | InvalidFrame

type_synonym ('e, 't) frame_poll = "('e + 't frame) option poll"

definition saturating_usize_add :: "nat \<Rightarrow> nat \<Rightarrow> nat" where
  "saturating_usize_add a b = min usize_max (a + b)"

section \<open>A bound on the whole body\<close>

record 'b limited_body =
  lb_inner :: 'b
  lb_limit :: nat
  lb_seen :: nat
  lb_exceeded :: bool

definition limited_body_new :: "'b \<Rightarrow> nat \<Rightarrow> 'b limited_body" where
  "limited_body_new inner limit =
     \<lparr>lb_inner = inner, lb_limit = limit, lb_seen = 0, lb_exceeded = False\<rparr>"

text \<open>What a frame of the inner body becomes.\<close>

definition limited_frame ::
  "'t frame \<Rightarrow> 'b limited_body \<Rightarrow> ('e body_limit_error, 't) frame_poll \<times> 'b limited_body" where
  "limited_frame frame b =
     (case frame of
        Data data \<Rightarrow>
          let bytes = length data; observed = saturating_usize_add (lb_seen b) bytes in
          if bytes > lb_limit b - lb_seen b
          then (Ready (Some (Inl (TooLarge (lb_limit b) observed))),
                b\<lparr>lb_seen := observed, lb_exceeded := True\<rparr>)
          else (Ready (Some (Inr (Data data))), b\<lparr>lb_seen := observed\<rparr>)
      | Trailers trailers \<Rightarrow> (Ready (Some (Inr (Trailers trailers))), b)
      | Unknown \<Rightarrow> (Ready (Some (Inl InvalidFrame)), b))"

definition limited_poll_frame ::
  "('b \<Rightarrow> ('e, 't) frame_poll \<times> 'b) \<Rightarrow> 'b limited_body \<Rightarrow>
     ('e body_limit_error, 't) frame_poll \<times> 'b limited_body" where
  "limited_poll_frame poll b =
     (if lb_exceeded b then (Ready (Some (Inl (TooLarge (lb_limit b) (lb_seen b)))), b)
      else
        let (r, inner) = poll (lb_inner b); b = b\<lparr>lb_inner := inner\<rparr> in
        case r of
          Pending \<Rightarrow> (Pending, b)
        | Ready None \<Rightarrow> (Ready None, b)
        | Ready (Some (Inl error)) \<Rightarrow> (Ready (Some (Inl (Upstream error))), b)
        | Ready (Some (Inr frame)) \<Rightarrow> limited_frame frame b)"

definition limited_is_end_stream :: "('b \<Rightarrow> bool) \<Rightarrow> 'b limited_body \<Rightarrow> bool" where
  "limited_is_end_stream inner_end b = inner_end (lb_inner b)"

record size_hint =
  sh_lower :: nat
  sh_upper :: "nat option"

definition limited_size_hint :: "('b \<Rightarrow> size_hint) \<Rightarrow> 'b limited_body \<Rightarrow> size_hint" where
  "limited_size_hint inner_hint b =
     (let remaining = lb_limit b - lb_seen b in
      \<lparr>sh_lower = 0,
       sh_upper = Some (case sh_upper (inner_hint (lb_inner b)) of
                          Some upper \<Rightarrow> min upper remaining
                        | None \<Rightarrow> remaining)\<rparr>)"

section \<open>A bound on each frame\<close>

record 'b frame_limited_body =
  fl_inner :: 'b
  fl_limit :: nat

definition frame_limited_body_new :: "'b \<Rightarrow> nat \<Rightarrow> 'b frame_limited_body" where
  "frame_limited_body_new inner limit = \<lparr>fl_inner = inner, fl_limit = limit\<rparr>"

definition frame_limited_poll_frame ::
  "('b \<Rightarrow> ('e, 't) frame_poll \<times> 'b) \<Rightarrow> 'b frame_limited_body \<Rightarrow>
     ('e body_limit_error, 't) frame_poll \<times> 'b frame_limited_body" where
  "frame_limited_poll_frame poll b =
     (let (r, inner) = poll (fl_inner b); b = b\<lparr>fl_inner := inner\<rparr> in
      (case r of
         Pending \<Rightarrow> Pending
       | Ready None \<Rightarrow> Ready None
       | Ready (Some (Inl error)) \<Rightarrow> Ready (Some (Inl (Upstream error)))
       | Ready (Some (Inr (Data data))) \<Rightarrow>
           if length data > fl_limit b then Ready (Some (Inl (TooLarge (fl_limit b) (length data))))
           else Ready (Some (Inr (Data data)))
       | Ready (Some (Inr (Trailers trailers))) \<Rightarrow> Ready (Some (Inr (Trailers trailers)))
       | Ready (Some (Inr Unknown)) \<Rightarrow> Ready (Some (Inl InvalidFrame)),
       b))"

definition frame_limited_is_end_stream :: "('b \<Rightarrow> bool) \<Rightarrow> 'b frame_limited_body \<Rightarrow> bool" where
  "frame_limited_is_end_stream inner_end b = inner_end (fl_inner b)"

definition frame_limited_size_hint :: "('b \<Rightarrow> size_hint) \<Rightarrow> 'b frame_limited_body \<Rightarrow> size_hint" where
  "frame_limited_size_hint inner_hint b = inner_hint (fl_inner b)"

section \<open>Collecting a body\<close>

text \<open>The loop of \<open>collect_body_limited\<close> over what the body yields until its end.\<close>

fun collect_frames ::
  "nat \<Rightarrow> u8 list \<Rightarrow> ('e + 't frame) list \<Rightarrow> 'e body_limit_error + u8 list" where
  "collect_frames limit output [] = Inr output"
| "collect_frames limit output (Inl error # rest) = Inl (Upstream error)"
| "collect_frames limit output (Inr (Data data) # rest) =
     (let chunk_len = length data; observed = saturating_usize_add (length output) chunk_len in
      if chunk_len > limit - length output then Inl (TooLarge limit observed)
      else collect_frames limit (output @ data) rest)"
| "collect_frames limit output (Inr (Trailers trailers) # rest) = collect_frames limit output rest"
| "collect_frames limit output (Inr Unknown # rest) = Inl InvalidFrame"

definition collect_body_limited ::
  "size_hint \<Rightarrow> ('e + 't frame) list \<Rightarrow> nat \<Rightarrow> 'e body_limit_error + u8 list" where
  "collect_body_limited hint frames limit =
     (let lower = sh_lower hint in
      if lower > limit then Inl (TooLarge limit (min lower usize_max))
      else collect_frames limit [] frames)"

definition read_body_limited ::
  "size_hint \<Rightarrow> ('e + 't frame) list \<Rightarrow> nat \<Rightarrow> 'e body_limit_error + u8 list" where
  "read_body_limited hint frames limit = collect_body_limited hint frames limit"

end
