(* ===== verification/Drain.thy ===== *)
theory Drain
  imports Resources Bodies
begin

text \<open>
  Graceful drain (\<open>pooler-http/src/drain.rs\<close>): the controller, the permit of a request and the
  body that keeps it, with every action split where another thread may come between: a section
  under the mutex, an atomic counter and a call of the \<open>Notify\<close> are one step each. A schedule is a
  list of actions, each of which runs the next step of one thread.
\<close>

section \<open>The state under the mutex\<close>

record drain_state =
  dr_active :: nat
  dr_draining :: bool

definition drain_state_default :: drain_state where
  "drain_state_default = \<lparr>dr_active = 0, dr_draining = False\<rparr>"

datatype drain_error = Timeout nat

text \<open>The section of \<open>try_acquire\<close>: refused, or counted.\<close>

definition try_acquire :: "drain_state \<Rightarrow> drain_state option" where
  "try_acquire st =
     (if dr_draining st then None else Some (st\<lparr>dr_active := min usize_max (dr_active st + 1)\<rparr>))"

text \<open>The section of \<open>begin_drain\<close>, with the value of \<open>started\<close>.\<close>

definition begin_drain :: "drain_state \<Rightarrow> bool \<times> drain_state" where
  "begin_drain st = (if dr_draining st then (False, st) else (True, st\<lparr>dr_draining := True\<rparr>))"

text \<open>The section of \<open>release\<close>.\<close>

definition release_permit :: "drain_state \<Rightarrow> drain_state" where
  "release_permit st = st\<lparr>dr_active := dr_active st - 1\<rparr>"

section \<open>The notifier\<close>

text \<open>
  \<open>tokio::sync::Notify\<close>, by the operations the controller uses: a waiter's fresh future is
  enabled, every enabled future is woken, and a future is ready once it was woken. Its documented
  behaviour is \<open>notify_faithful\<close>: a future that was enabled before a call of \<open>notify_waiters\<close>
  is ready after it, and what other waiters do takes neither state away.
\<close>

record 'n notify_ops =
  nt_enable :: "nat \<Rightarrow> 'n \<Rightarrow> 'n"
  nt_notify_waiters :: "'n \<Rightarrow> 'n"
  nt_enabled :: "nat \<Rightarrow> 'n \<Rightarrow> bool"
  nt_ready :: "nat \<Rightarrow> 'n \<Rightarrow> bool"

definition notify_faithful :: "'n notify_ops \<Rightarrow> bool" where
  "notify_faithful ops \<longleftrightarrow>
     (\<forall>w n. nt_enabled ops w (nt_enable ops w n)
        \<and> (nt_enabled ops w n \<longrightarrow> nt_ready ops w (nt_notify_waiters ops n))
        \<and> (nt_ready ops w n \<longrightarrow> nt_ready ops w (nt_notify_waiters ops n))
        \<and> (\<forall>v. v \<noteq> w \<longrightarrow>
              (nt_enabled ops w n \<longrightarrow> nt_enabled ops w (nt_enable ops v n))
              \<and> (nt_ready ops w n \<longrightarrow> nt_ready ops w (nt_enable ops v n))))"

section \<open>Threads\<close>

text \<open>
  A request holds a guard. \<open>Admitted\<close>: counted by the controller, its resource permit not yet taken;
  \<open>Counted\<close>: the permit's count is raised, its peak not yet; \<open>Held\<close>: the guard has been returned;
  \<open>Uncounted\<close>: \<open>release\<close> has set \<open>released\<close> and dropped the permit; \<open>Decremented\<close>: it has left
  the section and is to notify; \<open>Released\<close>: done, where a further \<open>release\<close> or the drop does nothing.
\<close>

datatype guard_phase = Admitted | Counted u64 | Held | Uncounted | Decremented | Released

text \<open>
  A caller of the controller is idle, or in one of its methods: about to notify in \<open>begin_drain\<close>
  or \<open>cancel_active\<close>; about to notify in the \<open>begin_drain\<close> of \<open>drain\<close>, at the head of its loop,
  with its future enabled, awaiting it, past its deadline, or returned.
\<close>

datatype caller_phase =
    Idle
  | BeginNotify
  | CancelNotify
  | DrainNotify
  | Looping
  | Enabled
  | Waiting
  | Expired
  | Returned "drain_error + unit"

record 'n drain_system =
  sy_state :: drain_state
  sy_notify :: 'n
  sy_cancelled :: bool
  sy_permits :: resource_count
  sy_guards :: "guard_phase list"
  sy_callers :: "nat \<Rightarrow> caller_phase"

definition controller_new :: "'n \<Rightarrow> 'n drain_system" where
  "controller_new n =
     \<lparr>sy_state = drain_state_default, sy_notify = n, sy_cancelled = False,
      sy_permits = resource_count_default, sy_guards = [], sy_callers = (\<lambda>w. Idle)\<rparr>"

definition in_flight :: "guard_phase \<Rightarrow> bool" where
  "in_flight p \<longleftrightarrow> (case p of Decremented \<Rightarrow> False | Released \<Rightarrow> False | _ \<Rightarrow> True)"

definition holds_permit :: "guard_phase \<Rightarrow> bool" where
  "holds_permit p \<longleftrightarrow> (case p of Counted c \<Rightarrow> True | Held \<Rightarrow> True | _ \<Rightarrow> False)"

definition count_guards :: "(guard_phase \<Rightarrow> bool) \<Rightarrow> guard_phase list \<Rightarrow> nat" where
  "count_guards P gs = length (filter P gs)"

text \<open>\<open>try_acquire\<close> up to the end of its section.\<close>

definition request_arrives :: "'n drain_system \<Rightarrow> 'n drain_system" where
  "request_arrives s =
     (case try_acquire (sy_state s) of
        None \<Rightarrow> s
      | Some st \<Rightarrow> s\<lparr>sy_state := st, sy_guards := sy_guards s @ [Admitted]\<rparr>)"

text \<open>The next step of the owner of a guard: the rest of \<open>try_acquire\<close>, then \<open>release\<close>.\<close>

definition guard_step :: "'n notify_ops \<Rightarrow> nat \<Rightarrow> 'n drain_system \<Rightarrow> 'n drain_system" where
  "guard_step ops g s =
     (case sy_guards s ! g of
        Admitted \<Rightarrow>
          let (observed, c) = count_fetch_add (sy_permits s) in
          s\<lparr>sy_permits := c, sy_guards := (sy_guards s)[g := Counted observed]\<rparr>
      | Counted observed \<Rightarrow>
          s\<lparr>sy_permits := count_fetch_max observed (sy_permits s), sy_guards := (sy_guards s)[g := Held]\<rparr>
      | Held \<Rightarrow> s\<lparr>sy_permits := count_drop (sy_permits s), sy_guards := (sy_guards s)[g := Uncounted]\<rparr>
      | Uncounted \<Rightarrow>
          s\<lparr>sy_state := release_permit (sy_state s), sy_guards := (sy_guards s)[g := Decremented]\<rparr>
      | Decremented \<Rightarrow>
          s\<lparr>sy_notify := nt_notify_waiters ops (sy_notify s), sy_guards := (sy_guards s)[g := Released]\<rparr>
      | Released \<Rightarrow> s)"

definition goto :: "nat \<Rightarrow> caller_phase \<Rightarrow> 'n drain_system \<Rightarrow> 'n drain_system" where
  "goto w p s = s\<lparr>sy_callers := (sy_callers s)(w := p)\<rparr>"

definition notify_all :: "'n notify_ops \<Rightarrow> 'n drain_system \<Rightarrow> 'n drain_system" where
  "notify_all ops s = s\<lparr>sy_notify := nt_notify_waiters ops (sy_notify s)\<rparr>"

definition call_begin_drain :: "caller_phase \<Rightarrow> caller_phase \<Rightarrow> nat \<Rightarrow> 'n drain_system \<Rightarrow> 'n drain_system" where
  "call_begin_drain started_phase other_phase w s =
     (let (started, st) = begin_drain (sy_state s) in
      goto w (if started then started_phase else other_phase) (s\<lparr>sy_state := st\<rparr>))"

definition call_cancel_active :: "nat \<Rightarrow> 'n drain_system \<Rightarrow> 'n drain_system" where
  "call_cancel_active w s = goto w CancelNotify (s\<lparr>sy_cancelled := True\<rparr>)"

text \<open>The next step of a caller. \<open>elapsed\<close> tells whether its deadline has passed: \<open>timeout\<close> polls the
  loop first, so it is looked at only while the loop waits.\<close>

definition caller_step :: "'n notify_ops \<Rightarrow> nat \<Rightarrow> bool \<Rightarrow> 'n drain_system \<Rightarrow> 'n drain_system" where
  "caller_step ops w elapsed s =
     (case sy_callers s w of
        Idle \<Rightarrow> s
      | BeginNotify \<Rightarrow> goto w Idle (notify_all ops s)
      | CancelNotify \<Rightarrow> goto w Idle (notify_all ops s)
      | DrainNotify \<Rightarrow> goto w Looping (notify_all ops s)
      | Looping \<Rightarrow> goto w Enabled (s\<lparr>sy_notify := nt_enable ops w (sy_notify s)\<rparr>)
      | Enabled \<Rightarrow> goto w (if dr_active (sy_state s) = 0 then Returned (Inr ()) else Waiting) s
      | Waiting \<Rightarrow>
          if nt_ready ops w (sy_notify s) then goto w Looping s
          else if elapsed then goto w Expired s else s
      | Expired \<Rightarrow> goto w (Returned (Inl (Timeout (dr_active (sy_state s))))) s
      | Returned r \<Rightarrow> s)"

definition is_idle :: "caller_phase \<Rightarrow> bool" where
  "is_idle p \<longleftrightarrow> (case p of Idle \<Rightarrow> True | Returned r \<Rightarrow> True | _ \<Rightarrow> False)"

datatype drain_action =
    Arrive
  | GuardStep nat
  | CallBegin nat
  | CallCancel nat
  | CallDrain nat
  | CallerStep nat bool

text \<open>A guard takes memory, so that there are fewer than \<open>2 ^ 64\<close> at once; a caller is in one method
  at a time.\<close>

definition drain_apply ::
  "'n notify_ops \<Rightarrow> drain_action \<Rightarrow> 'n drain_system \<Rightarrow> 'n drain_system" where
  "drain_apply ops a s =
     (case a of
        Arrive \<Rightarrow> if count_guards in_flight (sy_guards s) < usize_max then request_arrives s else s
      | GuardStep g \<Rightarrow> if g < length (sy_guards s) then guard_step ops g s else s
      | CallBegin w \<Rightarrow> if is_idle (sy_callers s w) then call_begin_drain BeginNotify Idle w s else s
      | CallCancel w \<Rightarrow> if is_idle (sy_callers s w) then call_cancel_active w s else s
      | CallDrain w \<Rightarrow> if is_idle (sy_callers s w) then call_begin_drain DrainNotify Looping w s else s
      | CallerStep w elapsed \<Rightarrow> caller_step ops w elapsed s)"

definition drain_run ::
  "'n notify_ops \<Rightarrow> drain_action list \<Rightarrow> 'n drain_system \<Rightarrow> 'n drain_system" where
  "drain_run ops as s = fold (drain_apply ops) as s"

section \<open>The body that keeps a guard\<close>

text \<open>\<open>DrainedBody\<close>: the inner body with its poll, whether the cancellation error was emitted and
  whether the guard is still held (taking it drops it, which releases it).\<close>

record 'b drained_body =
  db_inner :: 'b
  db_error_emitted :: bool
  db_guard :: bool

definition drained_body_new :: "'b \<Rightarrow> 'b drained_body" where
  "drained_body_new inner = \<lparr>db_inner = inner, db_error_emitted = False, db_guard = True\<rparr>"

definition drained_poll_frame ::
  "('b \<Rightarrow> ('e + 'f) option poll \<times> 'b) \<Rightarrow> 'e \<Rightarrow> bool \<Rightarrow> 'b drained_body \<Rightarrow>
     ('e + 'f) option poll \<times> 'b drained_body" where
  "drained_poll_frame poll aborted cancelled b =
     (if cancelled
      then
        let b = b\<lparr>db_guard := False\<rparr> in
        if db_error_emitted b then (Ready None, b)
        else (Ready (Some (Inl aborted)), b\<lparr>db_error_emitted := True\<rparr>)
      else
        let (r, inner) = poll (db_inner b); b = b\<lparr>db_inner := inner\<rparr> in
        case r of
          Pending \<Rightarrow> (Pending, b)
        | Ready None \<Rightarrow> (Ready None, b\<lparr>db_guard := False\<rparr>)
        | Ready (Some (Inr frame)) \<Rightarrow> (Ready (Some (Inr frame)), b)
        | Ready (Some (Inl error)) \<Rightarrow> (Ready (Some (Inl error)), b\<lparr>db_guard := False\<rparr>))"

definition drained_is_end_stream :: "('b \<Rightarrow> bool) \<Rightarrow> bool \<Rightarrow> 'b drained_body \<Rightarrow> bool" where
  "drained_is_end_stream inner_end cancelled b \<longleftrightarrow>
     (cancelled \<and> db_error_emitted b) \<or> inner_end (db_inner b)"

end
