(* ===== verification/Drain_Properties.thy ===== *)
theory Drain_Properties
  imports Drain
begin

text \<open>
  What the controller promises over every schedule: its count is the number of requests in flight,
  nothing is admitted once drain has begun, no wakeup is lost, and \<open>drain\<close> returns. The two
  invariants, on the counts and on the callers, are kept by every action and are joined by the
  interpretation \<open>drain_invariant\<close>.
\<close>

section \<open>Counting guards\<close>

lemma count_guards_update:
  "g < length gs \<Longrightarrow>
   count_guards P (gs[g := p]) + of_bool (P (gs ! g)) = count_guards P gs + of_bool (P p)"
proof (induction gs arbitrary: g)
  case (Cons q gs)
  then show ?case by (cases g) (auto simp: count_guards_def)
qed simp

lemma count_guards_mono: "(\<And>p. P p \<Longrightarrow> Q p) \<Longrightarrow> count_guards P gs \<le> count_guards Q gs"
  by (induction gs) (auto simp: count_guards_def)

lemma count_guards_zero: "count_guards P gs = 0 \<longleftrightarrow> (\<forall>p \<in> set gs. \<not> P p)"
  by (simp add: count_guards_def filter_empty_conv)

lemma holds_in_flight: "holds_permit p \<Longrightarrow> in_flight p"
  by (simp add: holds_permit_def in_flight_def split: guard_phase.splits)

lemma set_update_other: "x \<in> set xs \<Longrightarrow> x \<noteq> xs ! g \<Longrightarrow> x \<in> set (xs[g := y])"
  by (metis in_set_conv_nth length_list_update nth_list_update_neq)

lemmas phase_simps [simp] = in_flight_def holds_permit_def

text \<open>A count above the peak is on its way to it.\<close>

definition peak_covers :: "u64 \<Rightarrow> u64 \<Rightarrow> guard_phase list \<Rightarrow> bool" where
  "peak_covers current peak gs \<longleftrightarrow> current \<le> peak \<or> (\<exists>c. Counted c \<in> set gs \<and> current \<le> c)"

lemma peak_covers_update:
  assumes covers: "peak_covers current peak gs" and le: "current' \<le> current" "peak \<le> peak'"
    and settled: "\<And>c. gs ! g = Counted c \<Longrightarrow> c \<le> peak'"
  shows "peak_covers current' peak' (gs[g := p])"
proof -
  from covers consider "current \<le> peak" | c where "Counted c \<in> set gs" "current \<le> c"
    by (auto simp: peak_covers_def)
  then show ?thesis
  proof cases
    case 1
    then have "current' \<le> peak'" using le by (blast intro: order_trans)
    then show ?thesis by (simp add: peak_covers_def)
  next
    case (2 c)
    then have "current' \<le> c" "c \<le> peak' \<Longrightarrow> current' \<le> peak'" using le by (blast intro: order_trans)+
    then show ?thesis
      using 2 settled [of c] set_update_other [of "Counted c" gs g p]
      by (cases "gs ! g = Counted c") (auto simp: peak_covers_def)
  qed
qed

definition counts_ok :: "'n drain_system \<Rightarrow> bool" where
  "counts_ok s \<longleftrightarrow>
     dr_active (sy_state s) = count_guards in_flight (sy_guards s)
     \<and> count_guards in_flight (sy_guards s) \<le> usize_max
     \<and> unat (rn_current (sy_permits s)) = count_guards holds_permit (sy_guards s)
     \<and> peak_covers (rn_current (sy_permits s)) (rn_peak (sy_permits s)) (sy_guards s)"

lemma counts_arrive:
  assumes "counts_ok s" "count_guards in_flight (sy_guards s) < usize_max"
  shows "counts_ok (request_arrives s)"
  using assms
  by (auto simp: counts_ok_def request_arrives_def try_acquire_def count_guards_def peak_covers_def
      split: option.splits if_splits)

lemma counts_guard:
  assumes ok: "counts_ok s" and g: "g < length (sy_guards s)"
  shows "counts_ok (guard_step ops g s)"
proof -
  let ?gs = "sy_guards s" and ?c = "sy_permits s"
  note upd = count_guards_update [OF g]
  have peak: "peak_covers current (max (rn_peak ?c) c) (?gs[g := p])"
    if "current \<le> rn_current ?c" "\<And>d. ?gs ! g = Counted d \<Longrightarrow> d \<le> c" for current c p
    using peak_covers_update [of "rn_current ?c" "rn_peak ?c" ?gs current "max (rn_peak ?c) c" g p]
      that ok by (auto simp: counts_ok_def le_max_iff_disj)
  show ?thesis
  proof (cases "?gs ! g")
    case Admitted
    obtain observed c' where fa: "count_fetch_add ?c = (observed, c')" by force
    have "count_guards holds_permit ?gs + 1 \<le> count_guards in_flight ?gs"
      using upd [of holds_permit Held] upd [of in_flight Held] Admitted
        count_guards_mono [of holds_permit in_flight "?gs[g := Held]"] holds_in_flight by simp
    then have "unat (rn_current ?c) < usize_max" using ok by (simp add: counts_ok_def)
    note observed = fetch_add_observed [OF this fa]
    have "Counted observed \<in> set (?gs[g := Counted observed])" using g by (rule set_update_memI)
    then have "peak_covers observed (rn_peak ?c) (?gs[g := Counted observed])"
      by (auto simp: peak_covers_def)
    then show ?thesis
      using ok Admitted fa observed upd [of in_flight "Counted observed"] upd [of holds_permit "Counted observed"]
      by (simp add: counts_ok_def guard_step_def)
  next
    case (Counted c)
    then show ?thesis
      using ok upd [of in_flight Held] upd [of holds_permit Held] peak [of "rn_current ?c" c Held]
      by (simp add: counts_ok_def guard_step_def count_fetch_max_def)
  next
    case Held
    have pos: "0 < unat (rn_current ?c)"
      using ok upd [of holds_permit Uncounted] Held by (simp add: counts_ok_def)
    then have "rn_current ?c - 1 \<le> rn_current ?c" by (simp add: word_le_nat_alt unat_decrement)
    then show ?thesis
      using ok Held upd [of in_flight Uncounted] upd [of holds_permit Uncounted] pos
        peak [of "rn_current ?c - 1" "rn_peak ?c" Uncounted]
      by (simp add: counts_ok_def guard_step_def count_drop_def unat_decrement)
  next
    case Uncounted
    then show ?thesis
      using ok upd [of in_flight Decremented] upd [of holds_permit Decremented]
        peak [of "rn_current ?c" "rn_peak ?c" Decremented]
      by (simp add: counts_ok_def guard_step_def release_permit_def)
  next
    case Decremented
    then show ?thesis
      using ok upd [of in_flight Released] upd [of holds_permit Released]
        peak [of "rn_current ?c" "rn_peak ?c" Released]
      by (simp add: counts_ok_def guard_step_def)
  qed (use ok in \<open>simp add: guard_step_def\<close>)
qed

section \<open>Callers and wakeups\<close>

abbreviation draining :: "'n drain_system \<Rightarrow> bool" where
  "draining s \<equiv> dr_draining (sy_state s)"

definition quiet :: "'n drain_system \<Rightarrow> bool" where
  "quiet s \<longleftrightarrow> (\<forall>p \<in> set (sy_guards s). \<not> in_flight p)"

definition settled :: "'n drain_system \<Rightarrow> bool" where
  "settled s \<longleftrightarrow> (\<forall>p \<in> set (sy_guards s). p = Released)"

text \<open>What a caller in a phase may rely on: its future, once enabled, is enabled or woken, and while it
  waits unwoken some guard is still to notify.\<close>

definition phase_ok :: "'n notify_ops \<Rightarrow> 'n drain_system \<Rightarrow> nat \<Rightarrow> caller_phase \<Rightarrow> bool" where
  "phase_ok ops s w p \<longleftrightarrow>
     (case p of
        Idle \<Rightarrow> True
      | CancelNotify \<Rightarrow> True
      | Enabled \<Rightarrow> draining s \<and> (nt_enabled ops w (sy_notify s) \<or> nt_ready ops w (sy_notify s))
      | Waiting \<Rightarrow>
          draining s
          \<and> (nt_ready ops w (sy_notify s) \<or> nt_enabled ops w (sy_notify s) \<and> \<not> settled s)
      | Returned r \<Rightarrow> draining s \<and> (r = Inr () \<longrightarrow> quiet s)
      | _ \<Rightarrow> draining s)"

definition callers_ok :: "'n notify_ops \<Rightarrow> 'n drain_system \<Rightarrow> bool" where
  "callers_ok ops s \<longleftrightarrow> (\<forall>w. phase_ok ops s w (sy_callers s w))"

lemma phase_ok_mono:
  assumes "phase_ok ops s w p" "draining s \<Longrightarrow> draining s'" "draining s \<Longrightarrow> quiet s \<Longrightarrow> quiet s'"
    and "nt_ready ops w (sy_notify s) \<Longrightarrow> nt_ready ops w (sy_notify s')"
    and "nt_enabled ops w (sy_notify s) \<Longrightarrow>
      nt_ready ops w (sy_notify s') \<or> nt_enabled ops w (sy_notify s') \<and> (settled s' \<longrightarrow> settled s)"
  shows "phase_ok ops s' w p"
  using assms by (cases p) (auto simp: phase_ok_def)

lemma phase_ok_frame [simp]:
  "phase_ok ops (s\<lparr>sy_callers := cs\<rparr>) w p = phase_ok ops s w p"
  "phase_ok ops (s\<lparr>sy_cancelled := c\<rparr>) w p = phase_ok ops s w p"
  by (cases p; simp add: phase_ok_def quiet_def settled_def)+

lemma callers_ok_goto:
  assumes "callers_ok ops s" "phase_ok ops s w p"
  shows "callers_ok ops (goto w p s)"
  using assms by (auto simp: callers_ok_def goto_def)

lemma callers_ok_notify:
  assumes "notify_faithful ops" "callers_ok ops s"
  shows "callers_ok ops (notify_all ops s)"
proof -
  have "phase_ok ops (notify_all ops s) w p" if "phase_ok ops s w p" for w p
    by (rule phase_ok_mono [OF that])
      (use assms(1) in \<open>auto simp: notify_faithful_def notify_all_def quiet_def settled_def\<close>)
  then show ?thesis using assms(2) by (simp add: callers_ok_def notify_all_def)
qed

lemma callers_ok_begin:
  assumes ok: "callers_ok ops s" and p: "p \<in> {BeginNotify, DrainNotify}" and q: "q \<in> {Idle, Looping}"
  shows "callers_ok ops (call_begin_drain p q w s)"
proof -
  obtain started st where b: "begin_drain (sy_state s) = (started, st)" by force
  let ?s = "s\<lparr>sy_state := st\<rparr>"
  have d: "dr_draining st" using b by (auto simp: begin_drain_def split: if_splits)
  have "phase_ok ops ?s v r" if "phase_ok ops s v r" for v r
    by (rule phase_ok_mono [OF that]) (use d in \<open>auto simp: quiet_def settled_def\<close>)
  then have "callers_ok ops ?s" using ok by (simp add: callers_ok_def)
  moreover have "phase_ok ops ?s w (if started then p else q)" using d p q by (auto simp: phase_ok_def)
  ultimately show ?thesis by (simp add: call_begin_drain_def b callers_ok_goto)
qed

lemma callers_ok_cancel: "callers_ok ops s \<Longrightarrow> callers_ok ops (call_cancel_active w s)"
  by (simp add: call_cancel_active_def goto_def callers_ok_def) (simp add: phase_ok_def)

lemma callers_ok_arrive: "callers_ok ops s \<Longrightarrow> callers_ok ops (request_arrives s)"
proof -
  assume ok: "callers_ok ops s"
  have "phase_ok ops (request_arrives s) w p" if "phase_ok ops s w p" for w p
    by (rule phase_ok_mono [OF that])
      (auto simp: request_arrives_def try_acquire_def quiet_def settled_def split: option.splits if_splits)
  moreover have "sy_callers (request_arrives s) = sy_callers s"
    by (simp add: request_arrives_def split: option.splits)
  ultimately show ?thesis using ok by (simp add: callers_ok_def)
qed

lemma guard_step_notifies:
  assumes "g < length (sy_guards s)"
  shows "guard_step ops g s = s \<or> sy_notify (guard_step ops g s) = nt_notify_waiters ops (sy_notify s)
    \<or> sy_notify (guard_step ops g s) = sy_notify s \<and> \<not> settled (guard_step ops g s)"
  by (cases "sy_guards s ! g")
    (auto simp: guard_step_def settled_def split: prod.splits
      intro!: bexI [OF _ set_update_memI [OF assms]])

lemma quiet_guard:
  assumes q: "quiet s" and g: "g < length (sy_guards s)"
  shows "quiet (guard_step ops g s)"
proof -
  have "\<not> in_flight (sy_guards s ! g)" using q g by (simp add: quiet_def del: phase_simps)
  then have "sy_guards (guard_step ops g s) \<in> {sy_guards s, (sy_guards s)[g := Released]}"
    by (cases "sy_guards s ! g") (simp_all add: guard_step_def)
  then have "set (sy_guards (guard_step ops g s)) \<subseteq> insert Released (set (sy_guards s))"
    using set_update_subset_insert [of "sy_guards s" g Released] by auto
  moreover have "\<not> in_flight Released" by simp
  ultimately show ?thesis using q unfolding quiet_def by blast
qed

lemma guard_step_frame [simp]:
  "draining (guard_step ops g s) = draining s" "sy_callers (guard_step ops g s) = sy_callers s"
  "sy_cancelled (guard_step ops g s) = sy_cancelled s"
  "length (sy_guards (guard_step ops g s)) = length (sy_guards s)"
  by (simp_all add: guard_step_def release_permit_def split: guard_phase.splits prod.splits)

lemma callers_ok_guard:
  assumes f: "notify_faithful ops" and ok: "callers_ok ops s" and g: "g < length (sy_guards s)"
  shows "callers_ok ops (guard_step ops g s)"
proof -
  have "phase_ok ops (guard_step ops g s) w p" if "phase_ok ops s w p" for w p
  proof (rule phase_ok_mono [OF that])
    show "quiet (guard_step ops g s)" if "quiet s" using that g by (rule quiet_guard)
    show "nt_ready ops w (sy_notify (guard_step ops g s))" if "nt_ready ops w (sy_notify s)"
      using guard_step_notifies [OF g, of ops] f that by (auto simp: notify_faithful_def)
    show "nt_ready ops w (sy_notify (guard_step ops g s))
        \<or> nt_enabled ops w (sy_notify (guard_step ops g s)) \<and> (settled (guard_step ops g s) \<longrightarrow> settled s)"
      if "nt_enabled ops w (sy_notify s)"
      using guard_step_notifies [OF g, of ops] f that by (auto simp: notify_faithful_def)
  qed simp
  then show ?thesis using ok by (simp add: callers_ok_def)
qed

lemma callers_ok_enable:
  assumes f: "notify_faithful ops" and ok: "callers_ok ops s" and w: "draining s"
  shows "callers_ok ops (goto w Enabled (s\<lparr>sy_notify := nt_enable ops w (sy_notify s)\<rparr>))"
proof -
  let ?s = "s\<lparr>sy_notify := nt_enable ops w (sy_notify s)\<rparr>"
  have "phase_ok ops ?s v p" if "phase_ok ops s v p" "v \<noteq> w" for v p
    by (rule phase_ok_mono [OF that(1)])
      (use f that(2) in \<open>auto simp: notify_faithful_def quiet_def settled_def\<close>)
  moreover have "phase_ok ops ?s w Enabled" using f w by (simp add: phase_ok_def notify_faithful_def)
  ultimately show ?thesis using ok by (auto simp: callers_ok_def goto_def)
qed

lemma quiet_count: "quiet s \<longleftrightarrow> count_guards in_flight (sy_guards s) = 0"
  by (simp add: quiet_def count_guards_zero del: phase_simps)

lemma settled_quiet: "settled s \<Longrightarrow> quiet s"
  by (auto simp: settled_def quiet_def)

lemma callers_ok_caller:
  assumes f: "notify_faithful ops" and ok: "callers_ok ops s" and counts: "counts_ok s"
  shows "callers_ok ops (caller_step ops w elapsed s)"
proof -
  have here: "phase_ok ops s w (sy_callers s w)" using ok by (simp add: callers_ok_def)
  have notified: "callers_ok ops (notify_all ops s)" "draining (notify_all ops s) = draining s"
    using callers_ok_notify [OF f ok] by (simp_all add: notify_all_def)
  show ?thesis
  proof (cases "sy_callers s w")
    case Looping
    then show ?thesis using here callers_ok_enable [OF f ok] by (simp add: caller_step_def phase_ok_def)
  next
    case Enabled
    have "dr_active (sy_state s) = 0 \<longleftrightarrow> quiet s" using counts by (simp add: counts_ok_def quiet_count)
    then show ?thesis
      using here ok Enabled settled_quiet [of s]
      by (auto simp: caller_step_def phase_ok_def intro!: callers_ok_goto)
  next
    case Waiting
    then show ?thesis using here ok by (auto simp: caller_step_def phase_ok_def intro!: callers_ok_goto)
  qed (use here ok notified in \<open>auto simp: caller_step_def phase_ok_def intro!: callers_ok_goto\<close>)
qed

section \<open>The invariant over every schedule\<close>

definition drain_inv :: "'n notify_ops \<Rightarrow> 'n drain_system \<Rightarrow> bool" where
  "drain_inv ops s \<longleftrightarrow> counts_ok s \<and> callers_ok ops s"

lemma counts_frame:
  assumes "counts_ok s" "sy_guards s' = sy_guards s" "sy_permits s' = sy_permits s"
    and "dr_active (sy_state s') = dr_active (sy_state s)"
  shows "counts_ok s'"
  using assms by (simp add: counts_ok_def)

lemma caller_step_frame [simp]:
  "sy_guards (caller_step ops w e s) = sy_guards s" "sy_permits (caller_step ops w e s) = sy_permits s"
  "sy_state (caller_step ops w e s) = sy_state s" "sy_cancelled (caller_step ops w e s) = sy_cancelled s"
  by (simp_all add: caller_step_def goto_def notify_all_def split: caller_phase.splits)

lemma call_begin_frame [simp]:
  "sy_guards (call_begin_drain p q w s) = sy_guards s" "sy_permits (call_begin_drain p q w s) = sy_permits s"
  "dr_active (sy_state (call_begin_drain p q w s)) = dr_active (sy_state s)"
  "draining (call_begin_drain p q w s)" "sy_cancelled (call_begin_drain p q w s) = sy_cancelled s"
  by (auto simp: call_begin_drain_def begin_drain_def goto_def)

lemma call_cancel_frame [simp]:
  "sy_guards (call_cancel_active w s) = sy_guards s" "sy_permits (call_cancel_active w s) = sy_permits s"
  "sy_state (call_cancel_active w s) = sy_state s" "sy_cancelled (call_cancel_active w s)"
  by (simp_all add: call_cancel_active_def goto_def)

lemma drain_apply_inv:
  assumes f: "notify_faithful ops" and inv: "drain_inv ops s"
  shows "drain_inv ops (drain_apply ops a s)"
  using inv f
  by (cases a) (auto simp: drain_inv_def drain_apply_def counts_arrive callers_ok_arrive counts_guard
    callers_ok_guard callers_ok_begin callers_ok_cancel callers_ok_caller intro: counts_frame)

interpretation drain_invariant: preserved_by "drain_apply ops" "\<lambda>s. notify_faithful ops \<longrightarrow> drain_inv ops s"
  for ops :: "'n notify_ops"
  by unfold_locales (simp add: drain_apply_inv)

lemma drain_inv_new: "drain_inv ops (controller_new n)"
  by (simp add: drain_inv_def controller_new_def counts_ok_def callers_ok_def phase_ok_def
      drain_state_default_def resource_count_default_def count_guards_def peak_covers_def)

lemma drain_run_inv: "notify_faithful ops \<Longrightarrow> drain_inv ops s \<Longrightarrow> drain_inv ops (drain_run ops as s)"
  using drain_invariant.run_inv [of ops s as] by (simp add: drain_run_def)

section \<open>Once drain has begun\<close>

lemma drain_run_simps [simp]:
  "drain_run ops [] s = s" "drain_run ops (a # as) s = drain_run ops as (drain_apply ops a s)"
  "drain_run ops (as @ bs) s = drain_run ops bs (drain_run ops as s)"
  by (simp_all add: drain_run_def)

lemma arrive_draining: "draining s \<Longrightarrow> request_arrives s = s"
  by (simp add: request_arrives_def try_acquire_def)

lemma quiet_frame [simp]:
  "quiet (call_begin_drain p q w s) = quiet s" "quiet (call_cancel_active w s) = quiet s"
  "quiet (caller_step ops w e s) = quiet s"
  by (simp_all only: quiet_def call_begin_frame call_cancel_frame caller_step_frame)

lemma apply_draining:
  assumes "draining s"
  shows "draining (drain_apply ops a s)"
    "length (sy_guards (drain_apply ops a s)) = length (sy_guards s)"
    "quiet s \<Longrightarrow> quiet (drain_apply ops a s)"
  using assms by (simp_all add: drain_apply_def arrive_draining quiet_guard split: drain_action.split)

lemma run_draining:
  assumes "draining s"
  shows "draining (drain_run ops as s)"
    "length (sy_guards (drain_run ops as s)) = length (sy_guards s)"
    "quiet s \<Longrightarrow> quiet (drain_run ops as s)"
  using assms by (induction as arbitrary: s) (auto simp: apply_draining)

lemma cancelled_by: "sy_cancelled (drain_run ops as s) \<Longrightarrow> sy_cancelled s \<or> (\<exists>w. CallCancel w \<in> set as)"
proof (induction as arbitrary: s)
  case (Cons a as)
  have "sy_cancelled (drain_apply ops a s) = sy_cancelled s" if "\<nexists>w. a = CallCancel w"
    using that by (cases a) (auto simp: drain_apply_def request_arrives_def split: option.splits)
  then show ?case using Cons.IH [of "drain_apply ops a s"] Cons.prems by auto
qed simp

text \<open>A notifier that keeps the lists of its enabled and its woken futures.\<close>

definition listed_notify :: "(nat list \<times> nat list) notify_ops" where
  "listed_notify =
     \<lparr>nt_enable = (\<lambda>w (enabled, ready). (w # enabled, removeAll w ready)),
      nt_notify_waiters = (\<lambda>(enabled, ready). ([], enabled @ ready)),
      nt_enabled = (\<lambda>w (enabled, ready). w \<in> set enabled),
      nt_ready = (\<lambda>w (enabled, ready). w \<in> set ready)\<rparr>"

lemma listed_notify_faithful: "notify_faithful listed_notify"
  by (auto simp: notify_faithful_def listed_notify_def)

lemmas drain_eval = drain_run_def drain_apply_def controller_new_def drain_state_default_def
  resource_count_default_def request_arrives_def try_acquire_def begin_drain_def release_permit_def
  guard_step_def caller_step_def call_begin_drain_def goto_def notify_all_def is_idle_def
  count_fetch_add_def count_fetch_max_def count_drop_def count_guards_def usize_max_def
  listed_notify_def

text \<open>A request is admitted, a drain begins and waits, the request ends and the drain returns.\<close>

definition example_schedule :: "drain_action list" where
  "example_schedule =
     [Arrive, GuardStep 0, GuardStep 0, CallDrain 7, CallerStep 7 False, CallerStep 7 False,
      CallerStep 7 False]"

text \<open>C21. Drain accounting over every schedule of arrivals, releases, drains and cancellations: the
  controller's count is the number of requests in flight and the resource count the number of
  permits held, whose peak covers it between acquisitions; once drain has begun nothing is admitted
  any more; when a \<open>drain\<close> has returned successfully no request is in flight then or ever after;
  and requests are cancelled only by \<open>cancel_active\<close>, never by the beginning of the drain.\<close>

theorem drain_accounting:
  assumes "notify_faithful ops" "s = drain_run ops as (controller_new n)" "later = drain_run ops bs s"
  shows "dr_active (sy_state s) = count_guards in_flight (sy_guards s)
    \<and> unat (rn_current (sy_permits s)) = count_guards holds_permit (sy_guards s)
    \<and> ((\<forall>c. Counted c \<notin> set (sy_guards s)) \<longrightarrow> rn_current (sy_permits s) \<le> rn_peak (sy_permits s))
    \<and> (dr_draining (sy_state s) \<longrightarrow>
          dr_draining (sy_state later) \<and> length (sy_guards later) = length (sy_guards s))
    \<and> (sy_callers s w = Returned (Inr ()) \<longrightarrow> count_guards in_flight (sy_guards later) = 0)
    \<and> (sy_cancelled s \<longrightarrow> (\<exists>v. CallCancel v \<in> set as))"
proof -
  have inv: "drain_inv ops s" using assms drain_run_inv [OF assms(1) drain_inv_new] by simp
  then have "phase_ok ops s w (sy_callers s w)" by (simp add: drain_inv_def callers_ok_def)
  then have "sy_callers s w = Returned (Inr ()) \<longrightarrow> draining s \<and> quiet s" by (auto simp: phase_ok_def)
  then have "sy_callers s w = Returned (Inr ()) \<longrightarrow> quiet later" using assms(3) by (simp add: run_draining)
  moreover have "sy_cancelled s \<longrightarrow> (\<exists>v. CallCancel v \<in> set as)"
    using cancelled_by [of ops as "controller_new n"] assms(2) by (auto simp: controller_new_def)
  ultimately show ?thesis
    using inv run_draining [of s ops bs] assms(3)
    by (auto simp: drain_inv_def counts_ok_def peak_covers_def quiet_count simp del: phase_simps)
qed

theorem drain_accounting_witness:
  "dr_active (sy_state (drain_run listed_notify example_schedule (controller_new ([], [])))) = 1
   \<and> unat (rn_current (sy_permits (drain_run listed_notify example_schedule (controller_new ([], []))))) = 1"
proof -
  have gs: "sy_guards (drain_run listed_notify example_schedule (controller_new ([], []))) = [Held]"
    by (simp add: drain_eval example_schedule_def)
  show ?thesis
    using drain_accounting [OF listed_notify_faithful refl refl, of example_schedule "([], [])" "[]"]
    by (simp add: gs count_guards_def del: drain_run_simps)
qed

section \<open>Completion\<close>

fun guard_rank :: "guard_phase \<Rightarrow> nat" where
  "guard_rank Admitted = 5"
| "guard_rank (Counted c) = 4"
| "guard_rank Held = 3"
| "guard_rank Uncounted = 2"
| "guard_rank Decremented = 1"
| "guard_rank Released = 0"

fun caller_rank :: "caller_phase \<Rightarrow> nat" where
  "caller_rank DrainNotify = 3"
| "caller_rank Waiting = 3"
| "caller_rank Looping = 2"
| "caller_rank Enabled = 1"
| "caller_rank p = 0"

definition in_drain :: "caller_phase \<Rightarrow> bool" where
  "in_drain p \<longleftrightarrow> p \<in> {DrainNotify, Looping, Enabled, Waiting, Returned (Inr ())}"

text \<open>A caller does nothing but go on with its \<open>drain\<close>, before its deadline.\<close>

definition keeps_draining :: "nat \<Rightarrow> drain_action \<Rightarrow> bool" where
  "keeps_draining w a \<longleftrightarrow>
     (case a of
        CallBegin v \<Rightarrow> v \<noteq> w
      | CallCancel v \<Rightarrow> v \<noteq> w
      | CallDrain v \<Rightarrow> v \<noteq> w
      | CallerStep v elapsed \<Rightarrow> v = w \<longrightarrow> \<not> elapsed
      | _ \<Rightarrow> True)"

lemma guard_rank_apply:
  assumes "draining s" "g < length (sy_guards s)"
  shows "guard_rank (sy_guards (drain_apply ops a s) ! g) =
    guard_rank (sy_guards s ! g) - of_bool (a = GuardStep g)"
proof (cases a)
  case (GuardStep h)
  then show ?thesis
    using assms
    by (cases "sy_guards s ! h")
      (auto simp: drain_apply_def guard_step_def nth_list_update split: prod.splits)
qed (use assms in \<open>auto simp: drain_apply_def arrive_draining\<close>)

lemma guard_rank_run:
  assumes "draining s" "g < length (sy_guards s)"
  shows "guard_rank (sy_guards (drain_run ops as s) ! g) =
    guard_rank (sy_guards s ! g) - count_list as (GuardStep g)"
  using assms
proof (induction as arbitrary: s)
  case (Cons a as)
  then show ?case by (simp add: apply_draining guard_rank_apply)
qed simp

lemma settled_rank: "settled s \<longleftrightarrow> (\<forall>g < length (sy_guards s). guard_rank (sy_guards s ! g) = 0)"
proof -
  have "guard_rank p = 0 \<longleftrightarrow> p = Released" for p by (cases p) simp_all
  then show ?thesis by (simp add: settled_def all_set_conv_all_nth)
qed

lemma settled_run: "draining s \<Longrightarrow> settled s \<Longrightarrow> settled (drain_run ops as s)"
  by (simp add: settled_rank guard_rank_run run_draining)

lemma caller_apply_other:
  assumes "keeps_draining w a" "\<And>e. a \<noteq> CallerStep w e"
  shows "sy_callers (drain_apply ops a s) w = sy_callers s w"
  using assms
  by (cases a) (auto simp: drain_apply_def keeps_draining_def request_arrives_def call_begin_drain_def
      call_cancel_active_def goto_def caller_step_def notify_all_def
      split: option.splits prod.splits caller_phase.splits)

lemma in_drain_apply:
  assumes "keeps_draining w a" "in_drain (sy_callers s w)"
  shows "in_drain (sy_callers (drain_apply ops a s) w)"
proof (cases "\<exists>e. a = CallerStep w e")
  case True
  then show ?thesis
    using assms
    by (auto simp: drain_apply_def keeps_draining_def in_drain_def caller_step_def goto_def notify_all_def
        split: if_split_asm)
next
  case False
  then show ?thesis using assms caller_apply_other [of w a ops s] by auto
qed

lemma in_drain_run:
  "\<forall>a \<in> set as. keeps_draining w a \<Longrightarrow> in_drain (sy_callers s w) \<Longrightarrow> in_drain (sy_callers (drain_run ops as s) w)"
  by (induction as arbitrary: s) (auto simp: in_drain_apply)

lemma caller_rank_apply:
  assumes inv: "drain_inv ops s" and "settled s" "keeps_draining w a" "in_drain (sy_callers s w)"
  shows "caller_rank (sy_callers (drain_apply ops a s) w) \<le>
    caller_rank (sy_callers s w) - of_bool (a = CallerStep w False)"
proof (cases "\<exists>e. a = CallerStep w e")
  case True
  have "phase_ok ops s w (sy_callers s w)" "dr_active (sy_state s) = 0"
    using inv settled_quiet [OF assms(2)] by (simp_all add: drain_inv_def callers_ok_def counts_ok_def quiet_count)
  then show ?thesis
    using True assms
    by (auto simp: drain_apply_def keeps_draining_def in_drain_def caller_step_def goto_def notify_all_def phase_ok_def)
next
  case False
  then show ?thesis using assms caller_apply_other [of w a ops s] by auto
qed

lemma caller_rank_run:
  assumes "notify_faithful ops" "drain_inv ops s" "draining s" "settled s" "in_drain (sy_callers s w)"
    and "\<forall>a \<in> set as. keeps_draining w a"
  shows "caller_rank (sy_callers (drain_run ops as s) w) \<le>
    caller_rank (sy_callers s w) - count_list as (CallerStep w False)"
  using assms(2-6)
proof (induction as arbitrary: s)
  case (Cons a as)
  let ?s = "drain_apply ops a s"
  have "settled ?s" using settled_run [of s ops "[a]"] Cons.prems by simp
  then have "caller_rank (sy_callers (drain_run ops as ?s) w) \<le>
      caller_rank (sy_callers ?s w) - count_list as (CallerStep w False)"
    using Cons.prems assms(1)
    by (intro Cons.IH) (simp_all add: drain_apply_inv apply_draining in_drain_apply)
  then show ?case
    using caller_rank_apply [of ops s w a] Cons.prems by (auto simp: of_bool_def split: if_splits)
qed simp

text \<open>C22. Draining completes: in every reachable state, whatever the interleaving with other threads,
  a \<open>drain\<close> whose deadline does not pass returns successfully once every request has had the steps
  to finish and the caller three more of its own. No wakeup is lost, although counting, releasing
  and notifying are separate steps.\<close>

theorem drain_completes:
  assumes "notify_faithful ops" "s = drain_run ops as (controller_new n)"
    and "sy_callers s w \<in> {DrainNotify, Looping, Enabled, Waiting}"
    and "\<forall>a \<in> set (bs @ cs). keeps_draining w a"
    and "\<forall>g < length (sy_guards s). 5 \<le> count_list bs (GuardStep g)"
    and "3 \<le> count_list cs (CallerStep w False)"
  shows "sy_callers (drain_run ops (bs @ cs) s) w = Returned (Inr ())"
proof -
  let ?t = "drain_run ops bs s" and ?u = "drain_run ops (bs @ cs) s"
  have inv: "drain_inv ops s" using assms(2) drain_run_inv [OF assms(1) drain_inv_new] by simp
  then have "phase_ok ops s w (sy_callers s w)" by (simp add: drain_inv_def callers_ok_def)
  then have d: "draining s" using assms(3) by (auto simp: phase_ok_def)
  have "guard_rank p \<le> 5" for p by (cases p) simp_all
  then have "settled ?t"
    using assms(5) by (auto simp: settled_rank run_draining [OF d] guard_rank_run [OF d] intro: order_trans)
  moreover have "in_drain (sy_callers s w)" using assms(3) by (auto simp: in_drain_def)
  then have "in_drain (sy_callers ?t w)" "in_drain (sy_callers ?u w)"
    using assms(4) by (auto intro!: in_drain_run)
  moreover have "caller_rank (sy_callers ?t w) \<le> 3" by (cases "sy_callers ?t w") simp_all
  ultimately have "caller_rank (sy_callers ?u w) = 0" and u: "in_drain (sy_callers ?u w)"
    using caller_rank_run [OF assms(1) drain_run_inv [OF assms(1) inv] run_draining(1) [OF d], of bs w cs] assms(4,6)
    by auto
  then show ?thesis by (auto simp: in_drain_def)
qed

theorem drain_completes_witness:
  "sy_callers
     (drain_run listed_notify (replicate 5 (GuardStep 0) @ replicate 3 (CallerStep 7 False))
       (drain_run listed_notify example_schedule (controller_new ([], [])))) 7
   = Returned (Inr ())"
proof -
  let ?s = "drain_run listed_notify example_schedule (controller_new ([], []))"
  have "sy_callers ?s 7 = Waiting" "sy_guards ?s = [Held]"
    by (simp_all add: drain_eval example_schedule_def)
  then show ?thesis
    using drain_completes [OF listed_notify_faithful refl, of example_schedule "([], [])" 7
        "replicate 5 (GuardStep 0)" "replicate 3 (CallerStep 7 False)"]
    by (simp add: keeps_draining_def numeral_eq_Suc del: drain_run_simps)
qed

end
