(* ===== verification/Body_Properties.thy ===== *)
theory Body_Properties
  imports Drain
begin

text \<open>
  What the body wrappers promise their readers: the size limit is exact and the streaming wrapper
  agrees with the collecting reader; a drained body passes the inner body through, keeps its guard
  to the first terminal result, and ends with one error when it is cancelled.
\<close>

section \<open>Reading a body\<close>

text \<open>A body as the list of the polls it answers, ended by \<open>None\<close>; the results of polling a body, and
  a reader that stops at the first error.\<close>

fun script_poll :: "'x option poll list \<Rightarrow> 'x option poll \<times> 'x option poll list" where
  "script_poll [] = (Ready None, [])"
| "script_poll (r # rs) = (r, rs)"

fun yielded :: "'x option poll list \<Rightarrow> 'x list" where
  "yielded [] = []"
| "yielded (Pending # rs) = yielded rs"
| "yielded (Ready None # rs) = []"
| "yielded (Ready (Some x) # rs) = x # yielded rs"

fun drive :: "('b \<Rightarrow> 'x option poll \<times> 'b) \<Rightarrow> nat \<Rightarrow> 'b \<Rightarrow> 'x list" where
  "drive poll 0 b = []"
| "drive poll (Suc n) b =
     (case poll b of
        (Pending, b) \<Rightarrow> drive poll n b
      | (Ready None, b) \<Rightarrow> []
      | (Ready (Some x), b) \<Rightarrow> x # drive poll n b)"

fun gather :: "u8 list \<Rightarrow> ('e + 't frame) list \<Rightarrow> 'e + u8 list" where
  "gather out [] = Inr out"
| "gather out (Inl e # rest) = Inl e"
| "gather out (Inr (Data data) # rest) = gather (out @ data) rest"
| "gather out (Inr f # rest) = gather out rest"

fun frame_data :: "'e + 't frame \<Rightarrow> u8 list" where
  "frame_data (Inr (Data data)) = data"
| "frame_data f = []"

fun sound_frame :: "'e + 't frame \<Rightarrow> bool" where
  "sound_frame (Inr (Data data)) = True"
| "sound_frame (Inr (Trailers t)) = True"
| "sound_frame f = False"

section \<open>The limit\<close>

text \<open>The wrapper in the state of a reader that has \<open>out\<close>.\<close>

definition limited_at :: "nat \<Rightarrow> u8 list \<Rightarrow> 'b \<Rightarrow> 'b limited_body" where
  "limited_at limit out inner =
     \<lparr>lb_inner = inner, lb_limit = limit, lb_seen = length out, lb_exceeded = False\<rparr>"

lemma limited_at_new: "limited_body_new inner limit = limited_at limit [] inner"
  by (simp add: limited_body_new_def limited_at_def)

lemma limited_data:
  assumes "limit \<le> usize_max" "length out \<le> limit"
  shows "limited_frame (Data data) (limited_at limit out inner) =
    (if length data > limit - length out
     then (Ready (Some (Inl (TooLarge limit (saturating_usize_add (length out) (length data))))),
           (limited_at limit out inner)
             \<lparr>lb_seen := saturating_usize_add (length out) (length data), lb_exceeded := True\<rparr>)
     else (Ready (Some (Inr (Data data))), limited_at limit (out @ data) inner))"
  using assms by (simp add: limited_frame_def limited_at_def saturating_usize_add_def Let_def)

lemma limited_other:
  "limited_frame (Trailers t) b = (Ready (Some (Inr (Trailers t))), b)"
  "limited_frame Unknown b = (Ready (Some (Inl InvalidFrame)), b)"
  by (simp_all add: limited_frame_def)

lemma limited_poll_at:
  "limited_poll_frame poll (limited_at limit out inner) =
     (case poll inner of
        (Pending, inner) \<Rightarrow> (Pending, limited_at limit out inner)
      | (Ready None, inner) \<Rightarrow> (Ready None, limited_at limit out inner)
      | (Ready (Some (Inl e)), inner) \<Rightarrow> (Ready (Some (Inl (Upstream e))), limited_at limit out inner)
      | (Ready (Some (Inr frame)), inner) \<Rightarrow> limited_frame frame (limited_at limit out inner))"
  by (simp add: limited_poll_frame_def limited_at_def split: prod.split poll.split option.split sum.split)

lemma gather_limited:
  assumes "limit \<le> usize_max" "length out \<le> limit" "length script \<le> n"
  shows "gather out (drive (limited_poll_frame script_poll) n (limited_at limit out script)) =
    collect_frames limit out (yielded script)"
  using assms(2,3)
proof (induction script arbitrary: n out rule: yielded.induct)
  case 1
  then show ?case by (cases n) (simp_all add: limited_poll_at)
next
  case (2 rs)
  then show ?case by (cases n) (simp_all add: limited_poll_at)
next
  case (3 rs)
  then show ?case by (cases n) (simp_all add: limited_poll_at)
next
  case (4 x rs)
  then obtain m where n: "n = Suc m" "length rs \<le> m" by (cases n) auto
  show ?case
  proof (cases x)
    case (Inl e)
    then show ?thesis using n by (simp add: limited_poll_at)
  next
    case (Inr f)
    then show ?thesis
      using n 4 assms(1) by (cases f) (simp_all add: limited_poll_at limited_data limited_other Let_def)
  qed
qed

lemma exceeded_drive:
  assumes "lb_exceeded b"
  shows "concat (map frame_data (drive (limited_poll_frame poll) n b)) = []"
  using assms by (induction n) (simp_all add: limited_poll_frame_def)

lemma limited_prefix:
  assumes "limit \<le> usize_max" "length out \<le> limit"
  shows "length out + length (concat (map frame_data
    (drive (limited_poll_frame poll) n (limited_at limit out inner)))) \<le> limit"
  using assms(2)
proof (induction n arbitrary: out inner)
  case (Suc n)
  obtain r inner' where r: "poll inner = (r, inner')" by force
  consider d where "r = Ready (Some (Inr (Data d)))" | f where "r = Ready (Some (Inr f))" "\<nexists>d. f = Data d"
    | "\<nexists>f. r = Ready (Some (Inr f))" by blast
  then show ?case
  proof cases
    case d: (1 d)
    show ?thesis
    proof (cases "length d > limit - length out")
      case True
      then show ?thesis
        using Suc.prems r d assms(1) by (simp add: limited_poll_at limited_data exceeded_drive)
    next
      case False
      then have "length (out @ d) \<le> limit" using Suc.prems by simp
      from Suc.IH [OF this, of inner'] False show ?thesis
        using Suc.prems r d assms(1) by (simp add: limited_poll_at limited_data)
    qed
  next
    case (2 f)
    then show ?thesis
      using Suc.IH [of out inner'] Suc.prems r by (cases f) (simp_all add: limited_poll_at limited_other)
  next
    case 3
    then show ?thesis
      using Suc.IH [of out inner'] Suc.prems r
      by (simp add: limited_poll_at split: poll.split option.split sum.split)
  qed
qed simp

lemma collect_frames_Inr:
  assumes "length out \<le> limit"
  shows "collect_frames limit out frames = Inr bytes \<longleftrightarrow>
    list_all sound_frame frames \<and> bytes = out @ concat (map frame_data frames) \<and> length bytes \<le> limit"
  using assms
proof (induction limit out frames rule: collect_frames.induct)
  case (3 limit out data rest)
  then show ?case by (cases "length data > limit - length out") (auto simp: Let_def)
qed auto

lemma frame_limited_bound:
  "Inr (Data d) \<in> set (drive (frame_limited_poll_frame poll) n b) \<Longrightarrow> length d \<le> fl_limit b"
proof (induction n arbitrary: b)
  case (Suc n)
  obtain r b' where r: "frame_limited_poll_frame poll b = (r, b')" by force
  have "fl_limit b' = fl_limit b" "\<And>d. r = Ready (Some (Inr (Data d))) \<Longrightarrow> length d \<le> fl_limit b"
    using r by (auto simp: frame_limited_poll_frame_def Let_def split: prod.splits poll.splits option.splits
        sum.splits frame.splits if_splits)
  then show ?case using Suc.IH [of b'] Suc.prems r by (auto split: poll.splits option.splits)
qed simp



section \<open>Drained bodies\<close>

text \<open>The results of a series of polls, of a body and of its drained wrapper, where each poll is told
  whether the token is cancelled.\<close>

fun poll_run :: "('b \<Rightarrow> 'r \<times> 'b) \<Rightarrow> nat \<Rightarrow> 'b \<Rightarrow> 'r list \<times> 'b" where
  "poll_run poll 0 b = ([], b)"
| "poll_run poll (Suc n) b =
     (let (r, b) = poll b; (rs, b) = poll_run poll n b in (r # rs, b))"

fun drained_run ::
  "('b \<Rightarrow> ('e + 'f) option poll \<times> 'b) \<Rightarrow> 'e \<Rightarrow> bool list \<Rightarrow> 'b drained_body \<Rightarrow>
     ('e + 'f) option poll list \<times> 'b drained_body" where
  "drained_run poll aborted [] b = ([], b)"
| "drained_run poll aborted (c # cs) b =
     (let (r, b) = drained_poll_frame poll aborted c b; (rs, b) = drained_run poll aborted cs b
      in (r # rs, b))"

definition terminal :: "('e + 'f) option poll \<Rightarrow> bool" where
  "terminal r \<longleftrightarrow> r = Ready None \<or> (\<exists>e. r = Ready (Some (Inl e)))"

lemma drained_run_append:
  "drained_run poll aborted (cs @ ds) b =
     (let (rs, b) = drained_run poll aborted cs b; (rs', b) = drained_run poll aborted ds b
      in (rs @ rs', b))"
  by (induction cs arbitrary: b) (auto simp: Let_def split: prod.split)

lemma drained_open:
  "drained_run poll aborted (replicate n False) b =
     (let (rs, inner) = poll_run poll n (db_inner b) in
      (rs, b\<lparr>db_inner := inner, db_guard := db_guard b \<and> \<not> list_ex terminal rs\<rparr>))"
proof (induction n arbitrary: b)
  case (Suc n)
  obtain r inner where r: "poll (db_inner b) = (r, inner)" by force
  then have "drained_poll_frame poll aborted False b =
      (r, b\<lparr>db_inner := inner, db_guard := db_guard b \<and> \<not> terminal r\<rparr>)"
    by (cases b) (auto simp: drained_poll_frame_def terminal_def Let_def split: poll.split option.split sum.split)
  then show ?case using r by (simp add: Suc.IH Let_def split: prod.split)
qed (simp add: Let_def)

lemma drained_cancelled:
  "db_error_emitted b \<Longrightarrow> drained_run poll aborted (replicate n True) b =
     (replicate n (Ready None), if n = 0 then b else b\<lparr>db_guard := False\<rparr>)"
  by (induction n arbitrary: b) (auto simp: drained_poll_frame_def Let_def)

text \<open>C33. A drained body, polled any number of times before and after the cancellation: before it, every
  poll is the inner body's, and the guard is held exactly until a result ends the body; the first
  poll after it gives the cancellation error and every later one the end, without another poll of
  the inner body and with the guard released.\<close>

theorem drained_body_exact:
  "drained_run poll aborted (replicate n False @ replicate m True) (drained_body_new inner) =
     (let (rs, inner') = poll_run poll n inner in
      (rs @ (if m = 0 then [] else Ready (Some (Inl aborted)) # replicate (m - 1) (Ready None)),
       \<lparr>db_inner = inner', db_error_emitted = (m \<noteq> 0), db_guard = (m = 0 \<and> \<not> list_ex terminal rs)\<rparr>))"
proof (cases m)
  case (Suc k)
  then show ?thesis
    by (simp add: drained_run_append drained_open drained_poll_frame_def drained_cancelled
        drained_body_new_def Let_def split: prod.split)
qed (simp add: drained_run_append drained_open drained_body_new_def Let_def split: prod.split)

end
