(* ===== verification/Http_Headers.thy ===== *)
theory Http_Headers
  imports Identifiers
begin

text \<open>
  What the cache and the route matcher read of HTTP headers: a header map is the list of the pairs its
  iterator yields, names in lower case, and a value is a list of bytes.
\<close>

type_synonym header_map = "(string \<times> string) list"

definition header_get_all :: "string \<Rightarrow> header_map \<Rightarrow> string list" where
  "header_get_all name headers = map snd (filter (\<lambda>h. fst h = name) headers)"

definition contains_key :: "header_map \<Rightarrow> string \<Rightarrow> bool" where
  "contains_key headers name \<longleftrightarrow> name \<in> set (map fst headers)"

definition header_get :: "string \<Rightarrow> header_map \<Rightarrow> string option" where
  "header_get name headers =
     (case header_get_all name headers of [] \<Rightarrow> None | v # vs \<Rightarrow> Some v)"

text \<open>\<open>HeaderValue::to_str\<close> accepts visible characters, spaces and tabs.\<close>

definition header_to_str :: "string \<Rightarrow> string option" where
  "header_to_str v =
     (if list_all (\<lambda>c. let n = of_char c :: nat in n = 9 \<or> 32 \<le> n \<and> n < 127) v then Some v else None)"

definition ends_with :: "string \<Rightarrow> string \<Rightarrow> bool" where
  "ends_with v s \<longleftrightarrow> starts_with (rev v) (rev s)"

text \<open>\<open>split_once\<close> on a character.\<close>

definition split_once :: "char \<Rightarrow> string \<Rightarrow> (string \<times> string) option" where
  "split_once s v =
     (if s \<in> set v then Some (takeWhile (\<lambda>c. c \<noteq> s) v, tl (dropWhile (\<lambda>c. c \<noteq> s) v)) else None)"

definition ascii_upper :: "char \<Rightarrow> char" where
  "ascii_upper c =
     (let n = of_char c :: nat in if 97 \<le> n \<and> n \<le> 122 then char_of (n - 32) else c)"

definition to_ascii_uppercase :: "string \<Rightarrow> string" where
  "to_ascii_uppercase v = map ascii_upper v"

end
