(* ===== verification/Response_Cache.thy ===== *)
theory Response_Cache
  imports Http_Headers
begin

text \<open>
  The response cache (\<open>pooler-http/src/cache.rs\<close>): request keys, the bounded store of completed
  responses in order of use, and the flights through which one caller fetches for many. Strings and
  bodies are lists of bytes. SHA-256 is a parameter. Flights are shared by reference: they live in an arena, the
  cache and the callers hold indices into it. Every operation runs under the mutex of the cache.
\<close>

section \<open>Policy\<close>

definition cache_key_version :: char where "cache_key_version = char_of (1 :: nat)"

definition default_cache_ttl :: duration where "default_cache_ttl = from_secs 1"

definition default_cache_max_entries :: nat where "default_cache_max_entries = 64"

definition default_cache_max_bytes :: nat where "default_cache_max_bytes = 8 * 1024 * 1024"

record cache_policy =
  cp_enabled :: bool
  cp_ttl :: duration
  cp_max_entries :: nat
  cp_max_bytes :: nat
  cp_coalesce :: bool
  cp_key_headers :: "string list"

definition cache_policy_default :: cache_policy where
  "cache_policy_default =
     \<lparr>cp_enabled = False, cp_ttl = default_cache_ttl, cp_max_entries = default_cache_max_entries,
      cp_max_bytes = default_cache_max_bytes, cp_coalesce = True, cp_key_headers = []\<rparr>"

definition cache_usable :: "cache_policy \<Rightarrow> bool" where
  "cache_usable p \<longleftrightarrow> cp_enabled p \<and> cp_ttl p \<noteq> 0 \<and> cp_max_entries p > 0 \<and> cp_max_bytes p > 0"

section \<open>Keys\<close>

record cache_key_input =
  ck_generation :: u64
  ck_route :: string
  ck_target :: string
  ck_method :: string
  ck_uri :: string
  ck_headers :: header_map
  ck_key_headers :: "string list"
  ck_body :: string

definition u64_be_bytes :: "nat \<Rightarrow> string" where
  "u64_be_bytes n = map (\<lambda>i. char_of (n div 256 ^ i)) [7, 6, 5, 4, 3, 2, 1, 0]"

definition push_key_field :: "string \<Rightarrow> string \<Rightarrow> string" where
  "push_key_field v out = out @ u64_be_bytes (min (2 ^ 64 - 1) (length v)) @ v"

definition push_key_header :: "header_map \<Rightarrow> string \<Rightarrow> string \<Rightarrow> string" where
  "push_key_header headers name out =
     push_key_field [] (fold push_key_field (header_get_all name headers) (push_key_field name out))"

definition canonical_request :: "cache_key_input \<Rightarrow> string" where
  "canonical_request i =
     push_key_field (ck_body i)
       (fold (push_key_header (ck_headers i)) (ck_key_headers i)
         (push_key_field (ck_uri i)
           (push_key_field (ck_method i)
             (push_key_field (ck_target i)
               (push_key_field (ck_route i)
                 (push_key_field (u64_be_bytes (unat (ck_generation i))) [cache_key_version]))))))"

definition cache_key_from_request :: "(string \<Rightarrow> 'k) \<Rightarrow> cache_key_input \<Rightarrow> 'k" where
  "cache_key_from_request sha256 i = sha256 (canonical_request i)"

section \<open>Responses and flights\<close>

record cached_response =
  cr_status :: nat
  cr_version :: nat
  cr_headers :: header_map
  cr_body :: string

definition response_body_len :: "cached_response \<Rightarrow> nat" where
  "response_body_len r = length (cr_body r)"

record cache_entry =
  ce_response :: cached_response
  ce_expires_at :: instant

datatype flight_result = Complete | Retry

record flight =
  fl_result :: "flight_result option"
  fl_subscribers :: nat
  fl_cancelled :: bool
  fl_reserved_bytes :: nat

definition flight_new :: "nat \<Rightarrow> flight" where
  "flight_new reserved =
     \<lparr>fl_result = None, fl_subscribers = 1, fl_cancelled = False, fl_reserved_bytes = reserved\<rparr>"

definition flight_add_subscriber :: "flight \<Rightarrow> flight" where
  "flight_add_subscriber f =
     (if fl_result f = None then f\<lparr>fl_subscribers := min usize_max (fl_subscribers f + 1)\<rparr> else f)"

text \<open>\<open>complete\<close>; the notification that follows is in the theory of the followers.\<close>

definition flight_complete :: "flight_result \<Rightarrow> flight \<Rightarrow> flight" where
  "flight_complete r f =
     (if fl_result f \<noteq> None then f else f\<lparr>fl_result := Some r, fl_cancelled := True\<rparr>)"

definition flight_release_follower :: "flight \<Rightarrow> bool \<times> flight" where
  "flight_release_follower f =
     (let f = f\<lparr>fl_subscribers := fl_subscribers f - 1\<rparr>;
          cancel = (fl_subscribers f = 0 \<and> fl_result f = None)
      in (cancel, if cancel then flight_complete Retry (f\<lparr>fl_cancelled := True\<rparr>) else f))"

definition flight_add_reserved_bytes :: "nat \<Rightarrow> flight \<Rightarrow> flight" where
  "flight_add_reserved_bytes bytes f = f\<lparr>fl_reserved_bytes := min usize_max (fl_reserved_bytes f + bytes)\<rparr>"

section \<open>The cache\<close>

record 'k cache_state =
  cs_entries :: "('k \<times> cache_entry) list"
  cs_order :: "'k list"
  cs_bytes :: nat
  cs_flights :: "('k \<times> nat) list"
  cs_flight_bytes :: nat

record 'k response_cache =
  rc_policy :: cache_policy
  rc_state :: "'k cache_state"
  rc_arena :: "flight list"

definition cache_state_default :: "'k cache_state" where
  "cache_state_default =
     \<lparr>cs_entries = [], cs_order = [], cs_bytes = 0, cs_flights = [], cs_flight_bytes = 0\<rparr>"

definition cache_new :: "cache_policy \<Rightarrow> 'k response_cache" where
  "cache_new policy = \<lparr>rc_policy = policy, rc_state = cache_state_default, rc_arena = []\<rparr>"

definition remove_entry :: "'k \<Rightarrow> 'k cache_state \<Rightarrow> 'k cache_state" where
  "remove_entry key s =
     (let s = (case map_of (cs_entries s) key of
                 Some e \<Rightarrow> s\<lparr>cs_entries := map_remove key (cs_entries s),
                             cs_bytes := cs_bytes s - response_body_len (ce_response e)\<rparr>
               | None \<Rightarrow> s)
      in s\<lparr>cs_order := filter (\<lambda>k. k \<noteq> key) (cs_order s)\<rparr>)"

definition touch :: "'k \<Rightarrow> 'k list \<Rightarrow> 'k list" where
  "touch key order = filter (\<lambda>k. k \<noteq> key) order @ [key]"

definition cache_get :: "'k \<Rightarrow> instant \<Rightarrow> 'k response_cache \<Rightarrow> cached_response option \<times> 'k response_cache" where
  "cache_get key now c =
     (if \<not> cache_usable (rc_policy c) then (None, c)
      else
        case map_of (cs_entries (rc_state c)) key of
          None \<Rightarrow> (None, c)
        | Some e \<Rightarrow>
            if ce_expires_at e \<le> now then (None, c\<lparr>rc_state := remove_entry key (rc_state c)\<rparr>)
            else (Some (ce_response e),
                  c\<lparr>rc_state := (rc_state c)\<lparr>cs_order := touch key (cs_order (rc_state c))\<rparr>\<rparr>))"

datatype cache_lookup = Disabled | Leader nat | Follower nat

definition begin_with_size :: "'k \<Rightarrow> nat \<Rightarrow> 'k response_cache \<Rightarrow> cache_lookup \<times> 'k response_cache" where
  "begin_with_size key request_bytes c =
     (let p = rc_policy c; s = rc_state c in
      if \<not> cache_usable p then (Disabled, c)
      else
        case map_of (cs_flights s) key of
          Some f \<Rightarrow>
            if cp_coalesce p
            then (Follower f, c\<lparr>rc_arena := (rc_arena c)[f := flight_add_subscriber (rc_arena c ! f)]\<rparr>)
            else (Disabled, c)
        | None \<Rightarrow>
            if length (cs_flights s) \<ge> cp_max_entries p \<or> request_bytes > cp_max_bytes p
               \<or> min usize_max (cs_flight_bytes s + request_bytes) > cp_max_bytes p
            then (Disabled, c)
            else
              let f = length (rc_arena c) in
              (Leader f,
               c\<lparr>rc_arena := rc_arena c @ [flight_new request_bytes],
                 rc_state := s\<lparr>cs_flight_bytes := min usize_max (cs_flight_bytes s + request_bytes),
                               cs_flights := hash_insert key f (cs_flights s)\<rparr>\<rparr>))"

definition cache_begin :: "'k \<Rightarrow> 'k response_cache \<Rightarrow> cache_lookup \<times> 'k response_cache" where
  "cache_begin key c = begin_with_size key 0 c"

definition occupancy :: "'k response_cache \<Rightarrow> nat \<times> nat \<times> nat" where
  "occupancy c =
     (length (cs_entries (rc_state c)), cs_bytes (rc_state c), length (cs_flights (rc_state c)))"

text \<open>The eviction loop of \<open>publish\<close>: it ends at the latest when the order is empty.\<close>

function evict :: "cache_policy \<Rightarrow> 'k cache_state \<Rightarrow> 'k cache_state" where
  "evict p s =
     (if length (cs_entries s) > cp_max_entries p \<or> cs_bytes s > cp_max_bytes p
      then
        case cs_order s of
          [] \<Rightarrow> s
        | oldest # order \<Rightarrow> evict p (remove_entry oldest (s\<lparr>cs_order := order\<rparr>))
      else s)"
  by pat_completeness auto
termination
  by (relation "measure (\<lambda>(p, s). length (cs_order s))")
    (auto simp: remove_entry_def Let_def less_Suc_eq_le split: option.split)

declare evict.simps [simp del]

text \<open>The storing part of \<open>publish\<close>; \<open>now + ttl\<close> panics beyond the range of an instant.\<close>

definition store_response :: "'k \<Rightarrow> cached_response \<Rightarrow> instant \<Rightarrow> cache_policy \<Rightarrow> 'k cache_state \<Rightarrow> 'k cache_state" where
  "store_response key response expires_at p s =
     (let s = (case map_of (cs_entries s) key of
                 Some previous \<Rightarrow>
                   s\<lparr>cs_entries := map_remove key (cs_entries s),
                     cs_bytes := cs_bytes s - response_body_len (ce_response previous)\<rparr>
               | None \<Rightarrow> s);
          s = s\<lparr>cs_bytes := min usize_max (cs_bytes s + response_body_len response),
                cs_entries := hash_insert key \<lparr>ce_response = response, ce_expires_at = expires_at\<rparr> (cs_entries s),
                cs_order := touch key (cs_order s)\<rparr>
      in evict p s)"

text \<open>The end of a flight, in \<open>publish\<close> and in \<open>fail\<close>.\<close>

definition end_flight :: "'k \<Rightarrow> flight_result \<Rightarrow> 'k response_cache \<Rightarrow> 'k response_cache" where
  "end_flight key r c =
     (let s = rc_state c in
      case map_of (cs_flights s) key of
        None \<Rightarrow> c
      | Some f \<Rightarrow>
          c\<lparr>rc_state := s\<lparr>cs_flights := map_remove key (cs_flights s),
                          cs_flight_bytes := cs_flight_bytes s - fl_reserved_bytes (rc_arena c ! f)\<rparr>,
            rc_arena := (rc_arena c)[f := flight_complete r (rc_arena c ! f)]\<rparr>)"

definition cache_publish :: "'k \<Rightarrow> cached_response \<Rightarrow> instant \<Rightarrow> 'k response_cache \<Rightarrow> 'k response_cache option" where
  "cache_publish key response now c =
     (if response_body_len response \<le> cp_max_bytes (rc_policy c)
      then
        case instant_checked_add now (cp_ttl (rc_policy c)) of
          None \<Rightarrow> None
        | Some expires_at \<Rightarrow>
            Some (end_flight key Complete
              (c\<lparr>rc_state := store_response key response expires_at (rc_policy c) (rc_state c)\<rparr>))
      else Some (end_flight key Complete c))"

definition reserve_response :: "'k \<Rightarrow> nat \<Rightarrow> 'k response_cache \<Rightarrow> bool \<times> 'k response_cache" where
  "reserve_response key response_bytes c =
     (let s = rc_state c in
      if min usize_max (min usize_max (cs_bytes s + cs_flight_bytes s) + response_bytes)
           > cp_max_bytes (rc_policy c)
      then (False, c)
      else
        case map_of (cs_flights s) key of
          None \<Rightarrow> (False, c)
        | Some f \<Rightarrow>
            (True,
             c\<lparr>rc_arena := (rc_arena c)[f := flight_add_reserved_bytes response_bytes (rc_arena c ! f)],
               rc_state := s\<lparr>cs_flight_bytes := min usize_max (cs_flight_bytes s + response_bytes)\<rparr>\<rparr>))"

definition cache_fail :: "'k \<Rightarrow> 'k response_cache \<Rightarrow> 'k response_cache" where
  "cache_fail key c = end_flight key Retry c"

section \<open>Leaders and followers\<close>

text \<open>The callers' handles: a leader publishes, reserves, fails, or is dropped, which fails it; each but the
  reservation consumes it.\<close>

record 'k cache_leader =
  ld_key :: 'k
  ld_flight :: nat

definition leader_publish ::
  "'k cache_leader \<Rightarrow> cached_response \<Rightarrow> instant \<Rightarrow> 'k response_cache \<Rightarrow> 'k response_cache option" where
  "leader_publish l response now c = cache_publish (ld_key l) response now c"

definition leader_reserve_response_bytes ::
  "'k cache_leader \<Rightarrow> nat \<Rightarrow> 'k response_cache \<Rightarrow> bool \<times> 'k response_cache" where
  "leader_reserve_response_bytes l bytes c = reserve_response (ld_key l) bytes c"

definition leader_fail :: "'k cache_leader \<Rightarrow> 'k response_cache \<Rightarrow> 'k response_cache" where
  "leader_fail l c = cache_fail (ld_key l) c"

definition release_follower :: "nat \<Rightarrow> 'k response_cache \<Rightarrow> 'k response_cache" where
  "release_follower f c = c\<lparr>rc_arena := (rc_arena c)[f := snd (flight_release_follower (rc_arena c ! f))]\<rparr>"

section \<open>What may be cached\<close>

definition is_non_replayable_header :: "string \<Rightarrow> bool" where
  "is_non_replayable_header name \<longleftrightarrow>
     name \<in> set [''authorization'', ''proxy-authenticate'', ''proxy-authorization'', ''set-cookie'',
       ''www-authenticate'', ''connection'', ''keep-alive'', ''proxy-connection'', ''te'', ''trailer'',
       ''transfer-encoding'', ''upgrade'']"

definition replayable_response_headers :: "header_map \<Rightarrow> header_map" where
  "replayable_response_headers headers = filter (\<lambda>h. \<not> is_non_replayable_header (fst h)) headers"

definition directive_token :: "string \<Rightarrow> string" where
  "directive_token directive =
     (let d = trim directive in
      to_ascii_lowercase
        (if CHR ''='' \<in> set d then trim (takeWhile (\<lambda>c. c \<noteq> CHR ''='') d) else d))"

definition cache_control_forbids_replay :: "string \<Rightarrow> bool" where
  "cache_control_forbids_replay directive \<longleftrightarrow>
     directive_token directive \<in> set [''no-store'', ''no-cache'', ''private'']"

definition pragma_forbids_replay :: "string \<Rightarrow> bool" where
  "pragma_forbids_replay directive \<longleftrightarrow> directive_token directive = ''no-cache''"

definition all_header_values_allow_replay :: "header_map \<Rightarrow> string \<Rightarrow> (string \<Rightarrow> bool) \<Rightarrow> bool" where
  "all_header_values_allow_replay headers name forbids \<longleftrightarrow>
     list_all
       (\<lambda>v. case header_to_str v of
              Some v \<Rightarrow> \<not> list_ex forbids (split_on CHR '','' v)
            | None \<Rightarrow> False)
       (header_get_all name headers)"

definition safe_response_for_cache :: "header_map \<Rightarrow> bool" where
  "safe_response_for_cache headers \<longleftrightarrow>
     \<not> (contains_key headers ''vary'' \<or> contains_key headers ''set-cookie''
        \<or> contains_key headers ''www-authenticate'')
     \<and> all_header_values_allow_replay headers ''cache-control'' cache_control_forbids_replay
     \<and> all_header_values_allow_replay headers ''pragma'' pragma_forbids_replay"

definition safe_key_header :: "string \<Rightarrow> bool" where
  "safe_key_header name \<longleftrightarrow>
     name \<notin> set [''authorization'', ''proxy-authorization'', ''cookie'', ''set-cookie'', ''x-api-key'',
       ''x-auth-token'', ''x-access-token'', ''x-refresh-token'']
     \<and> \<not> ends_with name ''-token'' \<and> \<not> ends_with name ''-secret'' \<and> \<not> ends_with name ''-credential''"

definition is_ignored_transport_header :: "string \<Rightarrow> bool" where
  "is_ignored_transport_header name \<longleftrightarrow>
     name \<in> set [''host'', ''content-length'', ''connection'', ''keep-alive'', ''proxy-connection'', ''te'',
       ''trailer'', ''transfer-encoding'', ''upgrade'']"

definition is_default_key_header :: "string \<Rightarrow> bool" where
  "is_default_key_header name \<longleftrightarrow>
     name \<in> set [''accept'', ''accept-encoding'', ''content-type'', ''idempotency-key'', ''user-agent'']"

definition safe_request_for_cache :: "header_map \<Rightarrow> cache_policy \<Rightarrow> bool" where
  "safe_request_for_cache headers policy \<longleftrightarrow>
     list_all
       (\<lambda>h. is_ignored_transport_header (fst h)
            \<or> safe_key_header (fst h)
              \<and> (fst h \<in> set (cp_key_headers policy) \<or> is_default_key_header (fst h)))
       headers"

definition safe_method_for_cache :: "string \<Rightarrow> bool \<Rightarrow> bool" where
  "safe_method_for_cache method idempotency_key_present \<longleftrightarrow>
     method \<in> set [''GET'', ''HEAD''] \<or> method = ''POST'' \<and> idempotency_key_present"

end
