(* ===== verification/Cache_Store.thy ===== *)
theory Cache_Store
  imports Response_Cache
begin

text \<open>
  The store of completed responses: its bookkeeping is exact, and publishing a response keeps the
  longest recently used suffix of the order that fits the policy.
\<close>

definition entry_len :: "cache_entry \<Rightarrow> nat" where
  "entry_len e = response_body_len (ce_response e)"

definition stored_bytes :: "('k \<times> cache_entry) list \<Rightarrow> nat" where
  "stored_bytes m = sum_list (map (\<lambda>e. entry_len (snd e)) m)"

definition store_ok :: "'k cache_state \<Rightarrow> bool" where
  "store_ok s \<longleftrightarrow>
     hash_ok (cs_entries s) \<and> distinct (cs_order s) \<and> set (cs_order s) = set (keys (cs_entries s))
     \<and> cs_bytes s = stored_bytes (cs_entries s)"

definition fits :: "cache_policy \<Rightarrow> 'k cache_state \<Rightarrow> bool" where
  "fits p s \<longleftrightarrow> length (cs_entries s) \<le> cp_max_entries p \<and> cs_bytes s \<le> cp_max_bytes p"

text \<open>The state with only the entries under some keys.\<close>

definition keep :: "'k list \<Rightarrow> 'k cache_state \<Rightarrow> 'k cache_state" where
  "keep ks s =
     s\<lparr>cs_entries := filter (\<lambda>e. fst e \<in> set ks) (cs_entries s), cs_order := ks,
       cs_bytes := stored_bytes (filter (\<lambda>e. fst e \<in> set ks) (cs_entries s))\<rparr>"

lemma map_remove_absent: "k \<notin> set (keys m) \<Longrightarrow> map_remove k m = m"
  by (induction m) (auto simp: map_remove_def)

lemma stored_bytes_remove:
  assumes "hash_ok m" "map_of m k = Some e"
  shows "stored_bytes (map_remove k m) + entry_len e = stored_bytes m"
  using assms
proof (induction m)
  case (Cons x m)
  show ?case
  proof (cases "fst x = k")
    case True
    then have "map_remove k m = m"
      using Cons.prems(1) by (intro map_remove_absent) (auto simp: hash_ok_def)
    then show ?thesis using True Cons.prems by (simp add: stored_bytes_def map_remove_def)
  next
    case False
    then show ?thesis using Cons by (simp add: stored_bytes_def map_remove_def hash_ok_def)
  qed
qed simp

lemma stored_bytes_insert:
  "k \<notin> set (keys m) \<Longrightarrow> stored_bytes (hash_insert k e m) = stored_bytes m + entry_len e"
  by (induction m) (auto simp: stored_bytes_def)

lemma keep_all: "store_ok s \<Longrightarrow> keep (cs_order s) s = s"
proof -
  assume "store_ok s"
  moreover from this have "filter (\<lambda>e. fst e \<in> set (cs_order s)) (cs_entries s) = cs_entries s"
    by (simp add: filter_id_conv store_ok_def)
  ultimately show ?thesis by (simp add: keep_def store_ok_def)
qed

lemma keep_keep: "set js \<subseteq> set ks \<Longrightarrow> keep js (keep ks s) = keep js s"
proof -
  assume "set js \<subseteq> set ks"
  then have "filter (\<lambda>e. fst e \<in> set ks \<and> fst e \<in> set js) (cs_entries s) =
      filter (\<lambda>e. fst e \<in> set js) (cs_entries s)"
    by (auto intro!: filter_cong)
  then show ?thesis by (simp add: keep_def)
qed

lemma store_ok_keep:
  assumes "store_ok s" "distinct ks" "set ks \<subseteq> set (cs_order s)"
  shows "store_ok (keep ks s)"
proof -
  have "hash_ok (filter (\<lambda>e. fst e \<in> set ks) (cs_entries s))"
    using assms(1) by (simp add: store_ok_def hash_ok_def distinct_map_filter)
  moreover have "set (keys (filter (\<lambda>e. fst e \<in> set ks) (cs_entries s))) = set ks"
    using assms by (auto simp: store_ok_def)
  ultimately show ?thesis using assms(2) by (simp add: store_ok_def keep_def)
qed

text \<open>The bookkeeping of one removal.\<close>

lemma remove_entry_keep:
  assumes ok: "store_ok s"
  shows "remove_entry k s = keep (filter (\<lambda>j. j \<noteq> k) (cs_order s)) s"
proof -
  have keep: "filter (\<lambda>e. fst e \<in> set (filter (\<lambda>j. j \<noteq> k) (cs_order s))) (cs_entries s) =
      map_remove k (cs_entries s)"
    using ok by (auto simp: map_remove_def store_ok_def intro!: filter_cong)
  show ?thesis
  proof (cases "map_of (cs_entries s) k")
    case None
    then have "map_remove k (cs_entries s) = cs_entries s"
      by (intro map_remove_absent) (simp add: map_of_eq_None_iff)
    moreover have "cs_bytes s = stored_bytes (cs_entries s)" using ok by (simp add: store_ok_def)
    ultimately show ?thesis unfolding remove_entry_def keep_def keep using None by simp
  next
    case (Some e)
    then have "stored_bytes (map_remove k (cs_entries s)) = cs_bytes s - entry_len e"
      using stored_bytes_remove [of "cs_entries s" k e] ok by (simp add: store_ok_def)
    then show ?thesis
      unfolding remove_entry_def keep_def keep using Some by (simp add: entry_len_def)
  qed
qed

lemma store_ok_remove: "store_ok s \<Longrightarrow> store_ok (remove_entry k s)"
  by (simp add: remove_entry_keep) (rule store_ok_keep; auto simp: store_ok_def)

lemma remove_front: "cs_order s = oldest # order \<Longrightarrow> store_ok s \<Longrightarrow>
  remove_entry oldest (s\<lparr>cs_order := order\<rparr>) = keep order s"
proof -
  assume o: "cs_order s = oldest # order" "store_ok s"
  then have "filter (\<lambda>j. j \<noteq> oldest) order = order" by (auto simp: store_ok_def filter_id_conv)
  then have "remove_entry oldest (s\<lparr>cs_order := order\<rparr>) = remove_entry oldest s"
    using o by (simp add: remove_entry_def Let_def split: option.split)
  then show ?thesis using o \<open>filter _ order = order\<close> by (simp add: remove_entry_keep)
qed

text \<open>The eviction loop keeps the longest suffix of the order that fits.\<close>

lemma evict_keep:
  assumes "store_ok s"
  shows "\<exists>n. n \<le> length (cs_order s) \<and> evict p s = keep (drop n (cs_order s)) s
    \<and> fits p (keep (drop n (cs_order s)) s)
    \<and> (\<forall>m < n. \<not> fits p (keep (drop m (cs_order s)) s))"
  using assms
proof (induction "length (cs_order s)" arbitrary: s)
  case 0
  then have "cs_entries s = []" "cs_bytes s = 0" by (auto simp: store_ok_def stored_bytes_def)
  then have "fits p s" by (simp add: fits_def)
  then show ?case
    using 0 keep_all [of s] by (auto simp: evict.simps [of p s] fits_def intro!: exI [of _ 0])
next
  case (Suc l)
  show ?case
  proof (cases "fits p s")
    case True
    then show ?thesis
      using Suc keep_all [of s] by (auto simp: evict.simps [of p s] fits_def intro!: exI [of _ 0])
  next
    case False
    from Suc(2) obtain oldest order where o: "cs_order s = oldest # order" by (cases "cs_order s") auto
    let ?s = "keep order s"
    have ok: "store_ok ?s" using Suc.prems o by (intro store_ok_keep) (auto simp: store_ok_def)
    have order: "cs_order ?s = order" by (simp add: keep_def)
    have drop: "keep (drop n order) ?s = keep (drop n order) s" for n
      by (rule keep_keep) (rule set_drop_subset)
    obtain n where n: "n \<le> length order" "evict p ?s = keep (drop n order) s"
      "fits p (keep (drop n order) s)" "\<forall>m < n. \<not> fits p (keep (drop m order) s)"
      using Suc(1) [of ?s] ok Suc(2) o by (auto simp: order drop)
    have "evict p s = evict p ?s"
      using False o Suc.prems remove_front [of s oldest order]
      by (simp add: evict.simps [of p s] fits_def not_le)
    moreover have "\<not> fits p (keep (drop m (cs_order s)) s)" if "m < Suc n" for m
      using that n(4) False keep_all [OF Suc.prems] o by (cases m) simp_all
    ultimately show ?thesis using n o by (intro exI [of _ "Suc n"]) auto
  qed
qed

lemma map_of_keep: "store_ok s \<Longrightarrow> map_of (cs_entries (keep ks s)) k = (if k \<in> set ks then map_of (cs_entries s) k else None)"
  by (simp add: keep_def store_ok_def hash_ok_def map_of_filter_distinct split: option.split)

lemma length_keep: "store_ok s \<Longrightarrow> distinct ks \<Longrightarrow> set ks \<subseteq> set (cs_order s) \<Longrightarrow>
  length (cs_entries (keep ks s)) = length ks"
proof -
  assume "store_ok s" "distinct ks" "set ks \<subseteq> set (cs_order s)"
  then have "store_ok (keep ks s)" by (rule store_ok_keep)
  then have "card (set (cs_order (keep ks s))) = card (set (keys (cs_entries (keep ks s))))"
    "distinct (cs_order (keep ks s))" "distinct (keys (cs_entries (keep ks s)))"
    by (simp_all add: store_ok_def hash_ok_def)
  then have "length (cs_order (keep ks s)) = length (keys (cs_entries (keep ks s)))"
    using distinct_card by metis
  then show ?thesis by (simp add: keep_def)
qed

lemma stored_bytes_keys:
  assumes "hash_ok m" "distinct ks" "set ks = set (keys m)"
  shows "stored_bytes m = sum_list (map (\<lambda>k. entry_len (the (map_of m k))) ks)"
proof -
  have "stored_bytes m = sum_list (map (\<lambda>k. entry_len (the (map_of m k))) (keys m))"
    using assms(1) by (auto simp: stored_bytes_def hash_ok_def intro!: arg_cong [of _ _ sum_list])
  also have "\<dots> = (\<Sum>k \<in> set (keys m). entry_len (the (map_of m k)))"
    using assms(1) by (intro sum_list_distinct_conv_sum_set) (simp add: hash_ok_def)
  also have "\<dots> = sum_list (map (\<lambda>k. entry_len (the (map_of m k))) ks)"
    using assms by (simp add: sum_list_distinct_conv_sum_set)
  finally show ?thesis .
qed

lemma bytes_keep:
  assumes "store_ok s" "distinct ks" "set ks \<subseteq> set (cs_order s)"
  shows "cs_bytes (keep ks s) = sum_list (map (\<lambda>k. entry_len (the (map_of (cs_entries s) k))) ks)"
proof -
  have ok: "store_ok (keep ks s)" by (rule store_ok_keep [OF assms])
  then have "cs_bytes (keep ks s) = sum_list (map (\<lambda>k. entry_len (the (map_of (cs_entries (keep ks s)) k))) ks)"
    using assms(2) stored_bytes_keys [of "cs_entries (keep ks s)" ks]
    by (simp add: store_ok_def) (simp add: keep_def)
  also have "\<dots> = sum_list (map (\<lambda>k. entry_len (the (map_of (cs_entries s) k))) ks)"
    by (intro arg_cong [of _ _ sum_list] map_cong) (simp_all add: map_of_keep [OF assms(1)])
  finally show ?thesis .
qed

end
