(* ===== verification/Cache_World.thy ===== *)
theory Cache_World
  imports Cache_Store
begin

text \<open>
  The cache over every sequence of operations of its callers: occupancy stays within the policy,
  publishing evicts by least recent use, and one caller at a time leads the fetch for a key.
\<close>

section \<open>Publishing\<close>

definition put_entry :: "'k \<Rightarrow> cache_entry \<Rightarrow> 'k cache_state \<Rightarrow> 'k cache_state" where
  "put_entry key e s =
     s\<lparr>cs_bytes := min usize_max (cs_bytes s + entry_len e),
       cs_entries := hash_insert key e (cs_entries s), cs_order := cs_order s @ [key]\<rparr>"

lemma store_response_put:
  "store_response key r t p s =
     evict p (put_entry key \<lparr>ce_response = r, ce_expires_at = t\<rparr> (remove_entry key s))"
  by (simp add: store_response_def put_entry_def remove_entry_def touch_def entry_len_def Let_def
      split: option.split)

lemma removed_key: "store_ok s \<Longrightarrow> key \<notin> set (cs_order (remove_entry key s))"
  by (simp add: remove_entry_keep keep_def)

lemma order_remove: "store_ok s \<Longrightarrow> cs_order (remove_entry key s) @ [key] = touch key (cs_order s)"
  by (simp add: remove_entry_keep keep_def touch_def)

lemma removed_bytes: "store_ok s \<Longrightarrow> cs_bytes (remove_entry key s) \<le> cs_bytes s"
  by (simp add: remove_entry_def split: option.split)

lemma store_ok_put:
  assumes ok: "store_ok s" and new: "key \<notin> set (cs_order s)" and room: "cs_bytes s + entry_len e \<le> usize_max"
  shows "store_ok (put_entry key e s)"
proof -
  have "key \<notin> set (keys (cs_entries s))" using ok new by (simp add: store_ok_def)
  then show ?thesis
    using ok new room
    by (simp add: store_ok_def put_entry_def hash_ok_insert keys_hash_insert [simplified] stored_bytes_insert)
qed

definition policy_ok :: "cache_policy \<Rightarrow> bool" where
  "policy_ok p \<longleftrightarrow> 2 * cp_max_bytes p \<le> usize_max"

lemma store_response_kept:
  assumes ok: "store_ok s" and p: "policy_ok p" "0 < cp_max_entries p" and bytes: "cs_bytes s \<le> cp_max_bytes p"
    and len: "response_body_len r \<le> cp_max_bytes p"
    and s1_def: "s1 = put_entry key \<lparr>ce_response = r, ce_expires_at = t\<rparr> (remove_entry key s)"
  obtains n where "store_ok s1" "n < length (cs_order s1)" "store_response key r t p s = keep (drop n (cs_order s1)) s1"
    "fits p (keep (drop n (cs_order s1)) s1)" "\<forall>m < n. \<not> fits p (keep (drop m (cs_order s1)) s1)"
proof -
  have "cs_bytes (remove_entry key s) + response_body_len r \<le> usize_max"
    using removed_bytes [OF ok, of key] bytes len p(1) by (simp add: policy_ok_def)
  then have ok1: "store_ok s1"
    unfolding s1_def using ok removed_key [OF ok]
    by (intro store_ok_put store_ok_remove) (simp_all add: entry_len_def)
  obtain n where n: "n \<le> length (cs_order s1)" "evict p s1 = keep (drop n (cs_order s1)) s1"
    "fits p (keep (drop n (cs_order s1)) s1)" "\<forall>m < n. \<not> fits p (keep (drop m (cs_order s1)) s1)"
    using evict_keep [OF ok1, of p] by blast
  let ?last = "drop (length (cs_order s1) - 1) (cs_order s1)"
  have order: "cs_order s1 = cs_order (remove_entry key s) @ [key]" by (simp add: s1_def put_entry_def)
  have "fits p (keep ?last s1)"
    using p(2) len length_keep [OF ok1, of ?last] bytes_keep [OF ok1, of ?last]
    by (simp add: order fits_def) (simp add: s1_def put_entry_def map_of_hash_insert entry_len_def)
  then have "n \<noteq> length (cs_order s1)" using n(4) order by (metis diff_less length_append_singleton zero_less_one zero_less_Suc)
  then have "n < length (cs_order s1)" using n(1) by simp
  then show thesis using that ok1 n by (simp add: store_response_put s1_def)
qed

section \<open>Flights\<close>

definition reserved_total :: "('k \<times> nat) list \<Rightarrow> flight list \<Rightarrow> nat" where
  "reserved_total m a = sum_list (map (\<lambda>x. fl_reserved_bytes (a ! snd x)) m)"

definition flights_ok :: "'k response_cache \<Rightarrow> bool" where
  "flights_ok c \<longleftrightarrow>
     (let m = cs_flights (rc_state c); a = rc_arena c in
      hash_ok m \<and> distinct (map snd m) \<and> length m \<le> cp_max_entries (rc_policy c)
      \<and> cs_flight_bytes (rc_state c) = reserved_total m a
      \<and> cs_flight_bytes (rc_state c) \<le> cp_max_bytes (rc_policy c)
      \<and> (\<forall>f. f \<in> set (map snd m) \<longleftrightarrow> f < length a \<and> fl_result (a ! f) = None)
      \<and> (\<forall>f < length a. fl_result (a ! f) = None \<longrightarrow> \<not> fl_cancelled (a ! f)))"

lemma reserved_other: "f \<notin> set (map snd m) \<Longrightarrow> reserved_total m (a[f := x]) = reserved_total m a"
  by (induction m) (auto simp: reserved_total_def)

lemma reserved_same:
  "fl_reserved_bytes x = fl_reserved_bytes (a ! f) \<Longrightarrow> reserved_total m (a[f := x]) = reserved_total m a"
  by (cases "f < length a")
    (auto simp: reserved_total_def nth_list_update list_update_beyond intro!: arg_cong [of _ _ sum_list])

lemma reserved_append: "\<forall>f \<in> set (map snd m). f < length a \<Longrightarrow> reserved_total m (a @ b) = reserved_total m a"
  by (induction m) (auto simp: reserved_total_def nth_append)

lemma reserved_insert:
  "k \<notin> set (keys m) \<Longrightarrow> reserved_total (hash_insert k f m) a = reserved_total m a + fl_reserved_bytes (a ! f)"
  by (induction m) (auto simp: reserved_total_def)

lemma reserved_remove:
  assumes "hash_ok m" "map_of m k = Some f"
  shows "reserved_total (map_remove k m) a + fl_reserved_bytes (a ! f) = reserved_total m a"
  using assms
proof (induction m)
  case (Cons x m)
  show ?case
  proof (cases "fst x = k")
    case True
    then have "map_remove k m = m"
      using Cons.prems(1) by (intro map_remove_absent) (auto simp: hash_ok_def)
    then show ?thesis using True Cons.prems by (simp add: reserved_total_def map_remove_def)
  next
    case False
    then show ?thesis using Cons by (simp add: reserved_total_def map_remove_def hash_ok_def)
  qed
qed simp

lemma flights_remove:
  assumes "hash_ok m" "distinct (map snd m)" "map_of m k = Some f"
  shows "set (map snd (map_remove k m)) = set (map snd m) - {f}" "distinct (map snd (map_remove k m))"
    "hash_ok (map_remove k m)" "length (map_remove k m) \<le> length m"
proof -
  show "set (map snd (map_remove k m)) = set (map snd m) - {f}"
  proof -
    have "fst x = k" if "x \<in> set m" "snd x = f" for x
      using that assms(2) map_of_SomeD [OF assms(3)] inj_onD [of snd "set m" x "(k, f)"]
      by (simp add: distinct_map)
    moreover have "snd x = f" if "x \<in> set m" "fst x = k" for x
      using that assms(1,3) map_of_is_SomeI [of m k "snd x"] by (cases x) (auto simp: hash_ok_def)
    ultimately have "map_remove k m = filter (\<lambda>x. snd x \<noteq> f) m"
      unfolding map_remove_def by (intro filter_cong) auto
    then show ?thesis by auto
  qed
  show "distinct (map snd (map_remove k m))" "hash_ok (map_remove k m)" "length (map_remove k m) \<le> length m"
    using assms by (simp_all add: map_remove_def distinct_map_filter hash_ok_def)
qed

lemma flights_end:
  assumes ok: "flights_ok c" and f: "map_of (cs_flights (rc_state c)) key = Some f"
  shows "flights_ok (end_flight key r c)"
proof -
  let ?m = "cs_flights (rc_state c)" and ?a = "rc_arena c"
  let ?x = "flight_complete r (?a ! f)"
  have m: "hash_ok ?m" "distinct (map snd ?m)" using ok by (simp_all add: flights_ok_def Let_def)
  have mem: "f \<in> set (map snd ?m)" using f by (force dest: map_of_SomeD)
  then have lf: "f < length ?a" "fl_result (?a ! f) = None" using ok by (simp_all add: flights_ok_def Let_def)
  have ended: "fl_result ?x \<noteq> None" "fl_reserved_bytes ?x = fl_reserved_bytes (?a ! f)"
    by (simp_all add: flight_complete_def)
  note rm = flights_remove [OF m f]
  have "g \<in> set (map snd (map_remove key ?m)) \<longleftrightarrow>
      g < length (?a[f := ?x]) \<and> fl_result (?a[f := ?x] ! g) = None" for g
    using ok ended(1) lf unfolding rm(1) by (auto simp: flights_ok_def Let_def nth_list_update)
  moreover have "cs_flight_bytes (rc_state c) - fl_reserved_bytes (?a ! f) =
      reserved_total (map_remove key ?m) (?a[f := ?x])"
    using ok reserved_remove [OF m(1) f, of ?a] ended(2) by (simp add: flights_ok_def Let_def reserved_same)
  moreover have "reserved_total (map_remove key ?m) ?a \<le> cp_max_bytes (rc_policy c)"
    using ok reserved_remove [OF m(1) f, of ?a] by (simp add: flights_ok_def Let_def)
  moreover have "\<forall>g < length ?a. fl_result (?a[f := ?x] ! g) = None \<longrightarrow> \<not> fl_cancelled (?a[f := ?x] ! g)"
    using ok ended(1) lf by (auto simp: flights_ok_def Let_def nth_list_update)
  ultimately show ?thesis
    using ok rm(2-4) f
    by (simp add: flights_ok_def end_flight_def Let_def reserved_same [OF ended(2)] del: set_map)
qed

lemma flights_update:
  assumes ok: "flights_ok c" and f: "f < length (rc_arena c)" "fl_result x = fl_result (rc_arena c ! f)"
    "fl_cancelled x = fl_cancelled (rc_arena c ! f)" "fl_reserved_bytes x = fl_reserved_bytes (rc_arena c ! f)"
  shows "flights_ok (c\<lparr>rc_arena := (rc_arena c)[f := x]\<rparr>)"
  using ok f by (auto simp: flights_ok_def Let_def reserved_same nth_list_update)

lemma flights_reserve:
  assumes ok: "flights_ok c" and f: "map_of (cs_flights (rc_state c)) key = Some f"
    and room: "cs_flight_bytes (rc_state c) + n \<le> cp_max_bytes (rc_policy c)" and p: "policy_ok (rc_policy c)"
  shows "flights_ok (c\<lparr>rc_arena := (rc_arena c)[f := flight_add_reserved_bytes n (rc_arena c ! f)],
    rc_state := (rc_state c)\<lparr>cs_flight_bytes := min usize_max (cs_flight_bytes (rc_state c) + n)\<rparr>\<rparr>)"
proof -
  let ?m = "cs_flights (rc_state c)" and ?a = "rc_arena c"
  let ?x = "flight_add_reserved_bytes n (?a ! f)"
  have m: "hash_ok ?m" "distinct (map snd ?m)" using ok by (simp_all add: flights_ok_def Let_def)
  have "f \<in> set (map snd ?m)" using f by (force dest: map_of_SomeD)
  then have lf: "f < length ?a" using ok by (simp add: flights_ok_def Let_def)
  have x: "fl_result ?x = fl_result (?a ! f)" "fl_cancelled ?x = fl_cancelled (?a ! f)"
    by (simp_all add: flight_add_reserved_bytes_def)
  have small: "cs_flight_bytes (rc_state c) + n \<le> usize_max"
    using room p by (simp add: policy_ok_def)
  have rest: "reserved_total (map_remove key ?m) (?a[f := ?x]) = reserved_total (map_remove key ?m) ?a"
    by (rule reserved_other) (simp add: flights_remove(1) [OF m f] del: set_map)
  have total: "cs_flight_bytes (rc_state c) = reserved_total ?m ?a" using ok by (simp add: flights_ok_def Let_def)
  have "fl_reserved_bytes (?a ! f) + n \<le> usize_max"
    using small total reserved_remove [OF m(1) f, of ?a] by simp
  then have "reserved_total ?m (?a[f := ?x]) = cs_flight_bytes (rc_state c) + n"
    using reserved_remove [OF m(1) f, of ?a] reserved_remove [OF m(1) f, of "?a[f := ?x]"] lf total
    unfolding rest by (simp add: flight_add_reserved_bytes_def)
  then show ?thesis
    using ok lf x small room by (auto simp: flights_ok_def Let_def nth_list_update)
qed

lemma hash_insert_new: "k \<notin> set (keys m) \<Longrightarrow> hash_insert k v m = m @ [(k, v)]"
  by (induction m) auto

lemma flights_lead:
  assumes ok: "flights_ok c" and none: "map_of (cs_flights (rc_state c)) key = None"
    and room: "cs_flight_bytes (rc_state c) + n \<le> cp_max_bytes (rc_policy c)"
      "length (cs_flights (rc_state c)) < cp_max_entries (rc_policy c)" and p: "policy_ok (rc_policy c)"
  shows "flights_ok (c\<lparr>rc_arena := rc_arena c @ [flight_new n],
    rc_state := (rc_state c)\<lparr>cs_flight_bytes := min usize_max (cs_flight_bytes (rc_state c) + n),
      cs_flights := hash_insert key (length (rc_arena c)) (cs_flights (rc_state c))\<rparr>\<rparr>)"
proof -
  let ?m = "cs_flights (rc_state c)" and ?a = "rc_arena c"
  have new: "key \<notin> set (keys ?m)" using none by (simp add: map_of_eq_None_iff)
  note append = hash_insert_new [OF new]
  have live: "\<forall>f \<in> set (map snd ?m). f < length ?a" using ok by (simp add: flights_ok_def Let_def)
  have "reserved_total (hash_insert key (length ?a) ?m) (?a @ [flight_new n]) = cs_flight_bytes (rc_state c) + n"
    using ok new live by (simp add: reserved_insert reserved_append flights_ok_def Let_def flight_new_def)
  moreover have "cs_flight_bytes (rc_state c) + n \<le> usize_max" using room p by (simp add: policy_ok_def)
  moreover have "length ?a \<notin> set (map snd ?m)" using live by auto
  ultimately show ?thesis
    using ok room new live
    by (auto simp: flights_ok_def Let_def append hash_ok_def nth_append less_Suc_eq flight_new_def)
qed

section \<open>Callers\<close>

text \<open>The callers hold the handles they were given; each operation below is one call, and a handle that is
  used up leaves the list. A handle takes memory, so that there are fewer than \<open>2 ^ 64\<close>; a publication
  whose deadline is out of range panics and changes nothing here.\<close>

record 'k cache_world =
  cw_cache :: "'k response_cache"
  cw_leaders :: "'k cache_leader list"
  cw_followers :: "nat list"

datatype 'k cache_op =
    Lookup 'k instant
  | Begin 'k nat
  | Publish nat cached_response instant
  | Reserve nat nat
  | Abandon nat
  | Unfollow nat

definition remove_nth :: "nat \<Rightarrow> 'a list \<Rightarrow> 'a list" where
  "remove_nth i xs = take i xs @ drop (Suc i) xs"

definition begin_op :: "'k \<Rightarrow> nat \<Rightarrow> 'k cache_world \<Rightarrow> 'k cache_world" where
  "begin_op key n w =
     (case begin_with_size key n (cw_cache w) of
        (Disabled, c) \<Rightarrow> w\<lparr>cw_cache := c\<rparr>
      | (Leader f, c) \<Rightarrow>
          w\<lparr>cw_cache := c, cw_leaders := cw_leaders w @ [\<lparr>ld_key = key, ld_flight = f\<rparr>]\<rparr>
      | (Follower f, c) \<Rightarrow> w\<lparr>cw_cache := c, cw_followers := cw_followers w @ [f]\<rparr>)"

definition cache_step :: "'k cache_op \<Rightarrow> 'k cache_world \<Rightarrow> 'k cache_world" where
  "cache_step op w =
     (let c = cw_cache w; ls = cw_leaders w in
      case op of
        Lookup key now \<Rightarrow> w\<lparr>cw_cache := snd (cache_get key now c)\<rparr>
      | Begin key n \<Rightarrow> if Suc (length (cw_followers w)) < usize_max then begin_op key n w else w
      | Publish i r now \<Rightarrow>
          (if i < length ls
           then case leader_publish (ls ! i) r now c of
                  None \<Rightarrow> w
                | Some c \<Rightarrow> w\<lparr>cw_cache := c, cw_leaders := remove_nth i ls\<rparr>
           else w)
      | Reserve i n \<Rightarrow>
          if i < length ls then w\<lparr>cw_cache := snd (leader_reserve_response_bytes (ls ! i) n c)\<rparr> else w
      | Abandon i \<Rightarrow>
          if i < length ls then w\<lparr>cw_cache := leader_fail (ls ! i) c, cw_leaders := remove_nth i ls\<rparr> else w
      | Unfollow i \<Rightarrow>
          if i < length (cw_followers w)
          then w\<lparr>cw_cache := release_follower (cw_followers w ! i) c, cw_followers := remove_nth i (cw_followers w)\<rparr>
          else w)"

definition world_new :: "cache_policy \<Rightarrow> 'k cache_world" where
  "world_new p = \<lparr>cw_cache = cache_new p, cw_leaders = [], cw_followers = []\<rparr>"

definition leaders_ok :: "'k cache_world \<Rightarrow> bool" where
  "leaders_ok w \<longleftrightarrow>
     distinct (map ld_key (cw_leaders w))
     \<and> set (map (\<lambda>l. (ld_key l, ld_flight l)) (cw_leaders w)) = set (cs_flights (rc_state (cw_cache w)))"

text \<open>An unfinished flight counts its leader and its followers.\<close>

definition followers_ok :: "'k cache_world \<Rightarrow> bool" where
  "followers_ok w \<longleftrightarrow>
     length (cw_followers w) < usize_max
     \<and> (\<forall>f \<in> set (cw_followers w). f < length (rc_arena (cw_cache w)))
     \<and> (\<forall>f < length (rc_arena (cw_cache w)). fl_result (rc_arena (cw_cache w) ! f) = None \<longrightarrow>
           fl_subscribers (rc_arena (cw_cache w) ! f) = 1 + count_list (cw_followers w) f)"

definition world_ok :: "'k cache_world \<Rightarrow> bool" where
  "world_ok w \<longleftrightarrow>
     policy_ok (rc_policy (cw_cache w)) \<and> store_ok (rc_state (cw_cache w))
     \<and> fits (rc_policy (cw_cache w)) (rc_state (cw_cache w)) \<and> flights_ok (cw_cache w)
     \<and> leaders_ok w \<and> followers_ok w
     \<and> (cw_leaders w \<noteq> [] \<longrightarrow> cache_usable (rc_policy (cw_cache w)))"

lemma leader_flight:
  assumes "world_ok w" "l \<in> set (cw_leaders w)"
  shows "map_of (cs_flights (rc_state (cw_cache w))) (ld_key l) = Some (ld_flight l)"
proof -
  have "(ld_key l, ld_flight l) \<in> set (cs_flights (rc_state (cw_cache w)))"
    using assms by (auto simp: world_ok_def leaders_ok_def)
  then show ?thesis
    using assms(1) by (intro map_of_is_SomeI) (simp_all add: world_ok_def flights_ok_def Let_def hash_ok_def)
qed

lemma store_ok_flights [simp]:
  "store_ok (s\<lparr>cs_flights := m\<rparr>) = store_ok s" "store_ok (s\<lparr>cs_flight_bytes := n\<rparr>) = store_ok s"
  "fits p (s\<lparr>cs_flights := m\<rparr>) = fits p s" "fits p (s\<lparr>cs_flight_bytes := n\<rparr>) = fits p s"
  by (simp_all add: store_ok_def fits_def)

lemma keep_frame [simp]: "cs_flights (keep ks s) = cs_flights s" "cs_flight_bytes (keep ks s) = cs_flight_bytes s"
  by (simp_all add: keep_def)

lemma set_remove_nth:
  assumes "distinct (map g xs)" "i < length xs"
  shows "set (remove_nth i xs) = {x \<in> set xs. g x \<noteq> g (xs ! i)}" "distinct (map g (remove_nth i xs))"
proof -
  have "xs = take i xs @ xs ! i # drop (Suc i) xs" using assms(2) by (simp add: id_take_nth_drop)
  then have "distinct (map g (take i xs @ xs ! i # drop (Suc i) xs))"
    "set xs = set (take i xs @ xs ! i # drop (Suc i) xs)" using assms(1) by metis+
  then show "set (remove_nth i xs) = {x \<in> set xs. g x \<noteq> g (xs ! i)}" "distinct (map g (remove_nth i xs))"
    by (auto simp: remove_nth_def) (metis imageI)+
qed

lemma count_remove_nth:
  assumes "i < length xs"
  shows "count_list (remove_nth i xs) x + of_bool (xs ! i = x) = count_list xs x"
proof -
  have "count_list xs x = count_list (take i xs @ xs ! i # drop (Suc i) xs) x"
    using assms by (simp add: id_take_nth_drop [symmetric])
  then show ?thesis by (simp add: remove_nth_def)
qed

lemma length_remove_nth: "i < length xs \<Longrightarrow> length (remove_nth i xs) = length xs - 1"
  by (simp add: remove_nth_def)

section \<open>The invariant\<close>

lemma world_store:
  assumes "world_ok w" "store_ok s" "fits (rc_policy (cw_cache w)) s"
    and "cs_flights s = cs_flights (rc_state (cw_cache w))" "cs_flight_bytes s = cs_flight_bytes (rc_state (cw_cache w))"
  shows "world_ok (w\<lparr>cw_cache := (cw_cache w)\<lparr>rc_state := s\<rparr>\<rparr>)"
  using assms by (simp add: world_ok_def flights_ok_def leaders_ok_def followers_ok_def Let_def)

lemma fits_keep: "store_ok s \<Longrightarrow> fits p s \<Longrightarrow> fits p (keep ks s)"
proof -
  assume ok: "store_ok s" "fits p s"
  have "stored_bytes (filter P m) \<le> stored_bytes m" for P m by (induction m) (auto simp: stored_bytes_def)
  from this [of "\<lambda>e. fst e \<in> set ks" "cs_entries s"] show ?thesis
    using ok by (auto simp: fits_def keep_def store_ok_def intro: order_trans [OF length_filter_le])
qed

lemma world_lookup:
  assumes w: "world_ok w"
  shows "world_ok (w\<lparr>cw_cache := snd (cache_get key now (cw_cache w))\<rparr>)"
proof -
  let ?s = "rc_state (cw_cache w)"
  have ok: "store_ok ?s" "fits (rc_policy (cw_cache w)) ?s" using w by (simp_all add: world_ok_def)
  have "world_ok (w\<lparr>cw_cache := (cw_cache w)\<lparr>rc_state := remove_entry key ?s\<rparr>\<rparr>)"
    using ok store_ok_remove [OF ok(1), of key] fits_keep [OF ok]
    by (intro world_store [OF w]) (simp_all add: remove_entry_keep [OF ok(1)])
  moreover have "world_ok (w\<lparr>cw_cache := (cw_cache w)\<lparr>rc_state := ?s\<lparr>cs_order := touch key (cs_order ?s)\<rparr>\<rparr>\<rparr>)"
    if "map_of (cs_entries ?s) key = Some e" for e
  proof -
    have "key \<in> set (cs_order ?s)" using ok(1) that by (force simp: store_ok_def dest: map_of_SomeD)
    then have "set (touch key (cs_order ?s)) = set (cs_order ?s)" "distinct (touch key (cs_order ?s))"
      using ok(1) by (auto simp: touch_def store_ok_def)
    then show ?thesis using ok by (intro world_store [OF w]) (simp_all add: store_ok_def fits_def)
  qed
  ultimately show ?thesis using w by (auto simp: cache_get_def split: option.split)
qed

lemma nth_update: "xs[i := x] ! j = (if i = j \<and> i < length xs then x else xs ! j)"
  by (cases "i < length xs") (auto simp: nth_list_update list_update_beyond)

lemma complete_result [simp]: "(fl_result (flight_complete r x) = None) = False"
  by (simp add: flight_complete_def)

lemma image_filter: "h ` {x \<in> S. P (h x)} = {y \<in> h ` S. P y}"
  by blast

lemma world_finish:
  assumes w: "world_ok w" and i: "i < length (cw_leaders w)"
  shows "world_ok (w\<lparr>cw_cache := end_flight (ld_key (cw_leaders w ! i)) r (cw_cache w),
    cw_leaders := remove_nth i (cw_leaders w)\<rparr>)"
proof -
  let ?l = "cw_leaders w ! i" and ?c = "cw_cache w"
  let ?m = "cs_flights (rc_state ?c)"
  have f: "map_of ?m (ld_key ?l) = Some (ld_flight ?l)" using leader_flight [OF w] i by simp
  have parts: "flights_ok ?c" "leaders_ok w" "followers_ok w" using w by (simp_all add: world_ok_def)
  have m: "hash_ok ?m" using parts(1) by (simp add: flights_ok_def Let_def)
  have "flights_ok (end_flight (ld_key ?l) r ?c)" by (rule flights_end [OF parts(1) f])
  moreover have "set (map (\<lambda>l. (ld_key l, ld_flight l)) (remove_nth i (cw_leaders w))) = set (map_remove (ld_key ?l) ?m)"
    "distinct (map ld_key (remove_nth i (cw_leaders w)))"
    using parts(2) set_remove_nth [OF _ i, of ld_key]
      image_filter [of "\<lambda>l. (ld_key l, ld_flight l)" "set (cw_leaders w)" "\<lambda>x. fst x \<noteq> ld_key ?l"]
    by (simp_all add: leaders_ok_def map_remove_def)
  ultimately show ?thesis
    using w parts f
    by (auto simp: world_ok_def leaders_ok_def followers_ok_def end_flight_def Let_def nth_update)
qed

lemma world_publish:
  assumes w: "world_ok w" and i: "i < length (cw_leaders w)"
    and c: "leader_publish (cw_leaders w ! i) r now (cw_cache w) = Some c"
  shows "world_ok (w\<lparr>cw_cache := c, cw_leaders := remove_nth i (cw_leaders w)\<rparr>)"
proof (cases "response_body_len r \<le> cp_max_bytes (rc_policy (cw_cache w))")
  case True
  let ?key = "ld_key (cw_leaders w ! i)" and ?p = "rc_policy (cw_cache w)" and ?s = "rc_state (cw_cache w)"
  from c True obtain t where t: "c = end_flight ?key Complete ((cw_cache w)\<lparr>rc_state := store_response ?key r t ?p ?s\<rparr>)"
    by (auto simp: leader_publish_def cache_publish_def split: option.splits)
  have "cw_leaders w \<noteq> []" using i by auto
  then have p: "store_ok ?s" "policy_ok ?p" "0 < cp_max_entries ?p" "cs_bytes ?s \<le> cp_max_bytes ?p"
    using w by (simp_all add: world_ok_def fits_def cache_usable_def)
  obtain n where n: "store_ok (put_entry ?key \<lparr>ce_response = r, ce_expires_at = t\<rparr> (remove_entry ?key ?s))"
    "store_response ?key r t ?p ?s = keep (drop n (cs_order (put_entry ?key \<lparr>ce_response = r, ce_expires_at = t\<rparr> (remove_entry ?key ?s))))
      (put_entry ?key \<lparr>ce_response = r, ce_expires_at = t\<rparr> (remove_entry ?key ?s))"
    "fits ?p (store_response ?key r t ?p ?s)"
    by (rule store_response_kept [OF p True refl, of ?key t]) metis
  have "store_ok (store_response ?key r t ?p ?s)"
    unfolding n(2) using n(1) by (intro store_ok_keep set_drop_subset) (simp_all add: store_ok_def)
  moreover have "cs_flights (store_response ?key r t ?p ?s) = cs_flights ?s"
    "cs_flight_bytes (store_response ?key r t ?p ?s) = cs_flight_bytes ?s"
    unfolding n(2) by (simp_all add: put_entry_def remove_entry_keep [OF p(1)])
  ultimately have "world_ok (w\<lparr>cw_cache := (cw_cache w)\<lparr>rc_state := store_response ?key r t ?p ?s\<rparr>\<rparr>)"
    using n(3) by (intro world_store [OF w])
  from world_finish [OF this, of i Complete] i show ?thesis by (simp add: t)
next
  case False
  then show ?thesis
    using c world_finish [OF w i] by (auto simp: leader_publish_def cache_publish_def)
qed

lemma world_begin:
  assumes w: "world_ok w" and room: "Suc (length (cw_followers w)) < usize_max"
  shows "world_ok (begin_op key n w)"
proof -
  let ?c = "cw_cache w"
  let ?m = "cs_flights (rc_state ?c)" and ?a = "rc_arena ?c"
  have parts: "flights_ok ?c" "leaders_ok w" "followers_ok w" "policy_ok (rc_policy ?c)"
    using w by (simp_all add: world_ok_def)
  obtain r c where b: "begin_with_size key n ?c = (r, c)" by force
  show ?thesis
  proof (cases r)
    case Disabled
    then have "c = ?c" using b by (auto simp: begin_with_size_def Let_def split: if_splits option.splits)
    then show ?thesis using w b Disabled by (simp add: begin_op_def)
  next
    case (Leader f)
    then have l: "cache_usable (rc_policy ?c)" "map_of ?m key = None" "length ?m < cp_max_entries (rc_policy ?c)"
      "min usize_max (cs_flight_bytes (rc_state ?c) + n) \<le> cp_max_bytes (rc_policy ?c)" "f = length ?a"
      and c: "c = ?c\<lparr>rc_arena := ?a @ [flight_new n],
        rc_state := (rc_state ?c)\<lparr>cs_flight_bytes := min usize_max (cs_flight_bytes (rc_state ?c) + n),
          cs_flights := hash_insert key (length ?a) ?m\<rparr>\<rparr>"
      using b by (auto simp: begin_with_size_def Let_def split: if_splits option.splits)
    have new: "key \<notin> set (keys ?m)" using l(2) by (simp add: map_of_eq_None_iff)
    have "0 < usize_max" by (simp add: usize_max_def)
    then have "cs_flight_bytes (rc_state ?c) + n \<le> cp_max_bytes (rc_policy ?c)"
      using l(4) parts(4) by (auto simp: policy_ok_def min_def split: if_splits)
    then have "flights_ok c" unfolding c using parts(1,4) l(2,3) by (intro flights_lead)
    moreover have "ld_key ` set (cw_leaders w) = set (keys ?m)"
      using parts(2) by (force simp: leaders_ok_def image_iff)
    ultimately show ?thesis
      using w l b Leader new
      by (auto simp: begin_op_def world_ok_def leaders_ok_def followers_ok_def c hash_insert_new nth_append
          flight_new_def less_Suc_eq count_list_0_iff)
  next
    case (Follower f)
    then have l: "map_of ?m key = Some f"
      and c: "c = ?c\<lparr>rc_arena := ?a[f := flight_add_subscriber (?a ! f)]\<rparr>"
      using b by (auto simp: begin_with_size_def Let_def split: if_splits option.splits)
    have "f \<in> set (map snd ?m)" using l by (force dest: map_of_SomeD)
    then have f: "f < length ?a" "fl_result (?a ! f) = None" using parts(1) by (simp_all add: flights_ok_def Let_def)
    then have subs: "fl_subscribers (?a ! f) = 1 + count_list (cw_followers w) f"
      using parts(3) by (simp add: followers_ok_def)
    have "fl_subscribers (?a ! f) < usize_max" using room subs count_le_length [of "cw_followers w" f] by simp
    then have x: "flight_add_subscriber (?a ! f) = (?a ! f)\<lparr>fl_subscribers := fl_subscribers (?a ! f) + 1\<rparr>"
      using f by (simp add: flight_add_subscriber_def)
    have "flights_ok c" unfolding c using parts(1) f x by (intro flights_update) simp_all
    then show ?thesis
      using w b Follower f x room subs
      by (auto simp: begin_op_def world_ok_def leaders_ok_def followers_ok_def c nth_update)
  qed
qed

lemma world_reserve:
  assumes w: "world_ok w"
  shows "world_ok (w\<lparr>cw_cache := snd (reserve_response key n (cw_cache w))\<rparr>)"
proof -
  let ?c = "cw_cache w"
  obtain ok c where r: "reserve_response key n ?c = (ok, c)" by force
  show ?thesis
  proof (cases ok)
    case False
    then have "c = ?c" using r by (auto simp: reserve_response_def Let_def split: if_splits option.splits)
    then show ?thesis using w r by simp
  next
    case True
    then obtain f where f: "map_of (cs_flights (rc_state ?c)) key = Some f"
      and room: "min usize_max (min usize_max (cs_bytes (rc_state ?c) + cs_flight_bytes (rc_state ?c)) + n)
        \<le> cp_max_bytes (rc_policy ?c)"
      and c: "c = ?c\<lparr>rc_arena := (rc_arena ?c)[f := flight_add_reserved_bytes n (rc_arena ?c ! f)],
        rc_state := (rc_state ?c)\<lparr>cs_flight_bytes := min usize_max (cs_flight_bytes (rc_state ?c) + n)\<rparr>\<rparr>"
      using r by (auto simp: reserve_response_def Let_def split: if_splits option.splits)
    have "0 < usize_max" by (simp add: usize_max_def)
    then have "cs_flight_bytes (rc_state ?c) + n \<le> cp_max_bytes (rc_policy ?c)"
      using room w by (auto simp: world_ok_def policy_ok_def min_def split: if_splits)
    then have "flights_ok c" unfolding c using w f by (intro flights_reserve) (simp_all add: world_ok_def)
    then show ?thesis
      using w r by (auto simp: world_ok_def leaders_ok_def followers_ok_def c nth_update flight_add_reserved_bytes_def)
  qed
qed

lemma world_unfollow:
  assumes w: "world_ok w" and i: "i < length (cw_followers w)"
  shows "world_ok (w\<lparr>cw_cache := release_follower (cw_followers w ! i) (cw_cache w),
    cw_followers := remove_nth i (cw_followers w)\<rparr>)"
proof -
  let ?f = "cw_followers w ! i" and ?c = "cw_cache w"
  let ?x = "rc_arena ?c ! ?f"
  have f: "?f < length (rc_arena ?c)" using w i by (simp add: world_ok_def followers_ok_def)
  have counts: "count_list (remove_nth i (cw_followers w)) g + of_bool (?f = g) = count_list (cw_followers w) g" for g
    by (rule count_remove_nth [OF i])
  have "fl_result ?x = None \<Longrightarrow> fl_subscribers ?x = 1 + count_list (cw_followers w) ?f"
    using w f by (simp add: world_ok_def followers_ok_def)
  then have x: "snd (flight_release_follower ?x) = ?x\<lparr>fl_subscribers := fl_subscribers ?x - 1\<rparr>"
    using counts [of ?f] by (auto simp: flight_release_follower_def Let_def)
  have "flights_ok (release_follower ?f ?c)"
    unfolding release_follower_def x using w f by (intro flights_update) (simp_all add: world_ok_def)
  moreover have "set (remove_nth i (cw_followers w)) \<subseteq> set (cw_followers w)"
    unfolding remove_nth_def using set_take_subset set_drop_subset by force
  moreover have "fl_subscribers ?x - 1 = 1 + count_list (remove_nth i (cw_followers w)) ?f" if "fl_result ?x = None"
    using that w f counts [of ?f] by (simp add: world_ok_def followers_ok_def)
  moreover have "count_list (remove_nth i (cw_followers w)) g = count_list (cw_followers w) g" if "g \<noteq> ?f" for g
    using counts [of g] that by auto
  ultimately have "flights_ok (release_follower ?f ?c)"
    "followers_ok (w\<lparr>cw_cache := release_follower ?f ?c, cw_followers := remove_nth i (cw_followers w)\<rparr>)"
    using w f length_remove_nth [OF i]
    by (auto simp: world_ok_def followers_ok_def release_follower_def x nth_update)
  then show ?thesis using w by (simp add: world_ok_def leaders_ok_def release_follower_def)
qed

lemma cache_step_ok: "world_ok w \<Longrightarrow> world_ok (cache_step op w)"
  by (cases op) (auto simp: cache_step_def Let_def world_lookup world_begin world_publish leader_fail_def
      cache_fail_def world_finish leader_reserve_response_bytes_def world_reserve world_unfollow split: option.split)

interpretation cache_invariant: preserved_by cache_step world_ok
  by unfold_locales (rule cache_step_ok)

end
