(* ===== verification/Cache_Properties.thy ===== *)
theory Cache_Properties
  imports Cache_World
begin

text \<open>
  The properties of the response cache over the runs of its callers.
\<close>

section \<open>Runs\<close>

lemma world_ok_new: "policy_ok p \<Longrightarrow> world_ok (world_new p)"
  by (simp add: world_ok_def world_new_def cache_new_def cache_state_default_def store_ok_def fits_def
      flights_ok_def leaders_ok_def followers_ok_def hash_ok_def stored_bytes_def reserved_total_def usize_max_def)

lemma policy_end [simp]: "rc_policy (end_flight key r c) = rc_policy c"
  by (simp add: end_flight_def Let_def split: option.split)

lemma policy_publish: "cache_publish key r now c = Some c' \<Longrightarrow> rc_policy c' = rc_policy c"
  by (auto simp: cache_publish_def split: if_splits option.splits)

lemma policy_begin: "rc_policy (snd (begin_with_size key n c)) = rc_policy c"
  by (simp add: begin_with_size_def Let_def split: option.split)

lemma policy_begin_op: "rc_policy (cw_cache (begin_op key n w)) = rc_policy (cw_cache w)"
  using policy_begin [of key n "cw_cache w"]
  by (auto simp: begin_op_def split: prod.splits cache_lookup.splits)

lemma policy_step: "rc_policy (cw_cache (cache_step op w)) = rc_policy (cw_cache w)"
  by (cases op) (auto simp: cache_step_def Let_def cache_get_def policy_begin_op leader_publish_def
      leader_fail_def cache_fail_def leader_reserve_response_bytes_def reserve_response_def release_follower_def
      split: option.split dest: policy_publish)

lemma policy_run: "rc_policy (cw_cache (fold cache_step ops w)) = rc_policy (cw_cache w)"
  by (induction ops arbitrary: w) (simp_all add: policy_step)

lemma run_ok:
  assumes "policy_ok p" "w = fold cache_step ops (world_new p)"
  shows "world_ok w" "rc_policy (cw_cache w) = p"
  using cache_invariant.run_inv [OF world_ok_new [OF assms(1)], of ops] assms(2)
  by (simp_all add: policy_run) (simp add: world_new_def cache_new_def)

section \<open>Bounds\<close>

text \<open>C26. The cache stays within its policy over every sequence of calls: never more completed
  entries nor fetches in flight than allowed, the bytes it reports are exactly those of the stored
  bodies, and neither they nor the bytes reserved by fetches exceed the byte limit.\<close>

theorem cache_bounded:
  assumes "policy_ok p" "w = fold cache_step ops (world_new p)" "occupancy (cw_cache w) = (entries, bytes, flights)"
  shows "entries \<le> cp_max_entries p \<and> bytes \<le> cp_max_bytes p \<and> flights \<le> cp_max_entries p
    \<and> bytes = sum_list (map (\<lambda>e. response_body_len (ce_response (snd e))) (cs_entries (rc_state (cw_cache w))))
    \<and> distinct (keys (cs_entries (rc_state (cw_cache w))))
    \<and> cs_flight_bytes (rc_state (cw_cache w)) \<le> cp_max_bytes p"
  using run_ok [OF assms(1,2)] assms(3)
  by (auto simp: world_ok_def fits_def store_ok_def flights_ok_def Let_def occupancy_def hash_ok_def
      stored_bytes_def entry_len_def)

definition small_policy :: cache_policy where
  "small_policy = cache_policy_default\<lparr>cp_enabled := True, cp_max_entries := 1, cp_max_bytes := 4\<rparr>"

definition small_response :: "string \<Rightarrow> cached_response" where
  "small_response body = \<lparr>cr_status = 200, cr_version = 11, cr_headers = [], cr_body = body\<rparr>"

definition small_run :: "nat cache_op list" where
  "small_run = [Begin 1 0, Publish 0 (small_response ''abc'') 0, Begin 2 0]"

lemma small_policy_ok: "policy_ok small_policy"
  by (simp add: policy_ok_def small_policy_def usize_max_def)

lemmas cache_eval = cache_step_def Let_def begin_op_def begin_with_size_def leader_publish_def cache_publish_def
  store_response_def evict.simps end_flight_def flight_complete_def flight_new_def remove_nth_def touch_def
  world_new_def cache_new_def cache_state_default_def small_policy_def small_response_def small_run_def
  cache_policy_default_def cache_usable_def default_cache_ttl_def default_cache_max_entries_def
  default_cache_max_bytes_def from_secs_def nanos_per_sec_def usize_max_def instant_checked_add_def
  instant_max_def response_body_len_def map_remove_def remove_entry_def

theorem cache_bounded_witness:
  "occupancy (cw_cache (fold cache_step small_run (world_new small_policy))) = (1, 3, 1)
   \<and> (1 :: nat) \<le> cp_max_entries small_policy"
proof -
  have o: "occupancy (cw_cache (fold cache_step small_run (world_new small_policy))) = (1, 3, 1)"
    by (simp add: occupancy_def cache_eval)
  show ?thesis using cache_bounded [OF small_policy_ok refl o] o by simp
qed

section \<open>Recency\<close>

lemma publish_state:
  assumes "response_body_len r \<le> cp_max_bytes (rc_policy c)" "instant_checked_add now (cp_ttl (rc_policy c)) = Some t"
    and "cache_publish key r now c = Some c'"
  shows "cs_entries (rc_state c') = cs_entries (store_response key r t (rc_policy c) (rc_state c))"
    "cs_order (rc_state c') = cs_order (store_response key r t (rc_policy c) (rc_state c))"
    "rc_policy c' = rc_policy c"
  using assms by (auto simp: cache_publish_def end_flight_def Let_def split: option.splits)

definition size_after :: "'k \<Rightarrow> cached_response \<Rightarrow> 'k response_cache \<Rightarrow> 'k \<Rightarrow> nat" where
  "size_after key r c k =
     response_body_len (if k = key then r else ce_response (the (map_of (cs_entries (rc_state c)) k)))"

text \<open>C23. Eviction is by least recent use: publishing a response that fits makes its key the most recent
  one and keeps exactly the longest suffix of the order of use that respects both limits, with
  every kept entry unchanged; the published response is among them, and is what a lookup before its
  deadline returns.\<close>

theorem cache_evicts_least_recent:
  assumes "policy_ok p" "w = fold cache_step ops (world_new p)" "l \<in> set (cw_leaders w)"
    and "response_body_len r \<le> cp_max_bytes p" "instant_checked_add now (cp_ttl p) = Some t"
    and "c = cw_cache w" "leader_publish l r now c = Some c'"
    and "order = touch (ld_key l) (cs_order (rc_state c))" "kept = cs_order (rc_state c')"
  shows "(\<exists>n. kept = drop n order
      \<and> (\<forall>m < n. cp_max_entries p < length (drop m order)
           \<or> cp_max_bytes p < sum_list (map (size_after (ld_key l) r c) (drop m order))))
    \<and> ld_key l \<in> set kept \<and> length kept \<le> cp_max_entries p
    \<and> sum_list (map (size_after (ld_key l) r c) kept) \<le> cp_max_bytes p
    \<and> (\<forall>k. map_of (cs_entries (rc_state c')) k =
          (if k \<notin> set kept then None
           else if k = ld_key l then Some \<lparr>ce_response = r, ce_expires_at = t\<rparr>
           else map_of (cs_entries (rc_state c)) k))
    \<and> (later < t \<longrightarrow> fst (cache_get (ld_key l) later c') = Some r)"
proof -
  let ?key = "ld_key l" and ?s = "rc_state c"
  define e where "e = \<lparr>ce_response = r, ce_expires_at = t\<rparr>"
  define s1 where "s1 = put_entry ?key e (remove_entry ?key ?s)"
  note w = run_ok [OF assms(1,2)]
  have u: "cache_usable p" using w assms(3) by (auto simp: world_ok_def)
  have p: "store_ok ?s" "0 < cp_max_entries p" "cs_bytes ?s \<le> cp_max_bytes p"
    using w u assms(6) by (simp_all add: world_ok_def fits_def cache_usable_def)
  have c': "cs_entries (rc_state c') = cs_entries (store_response ?key r t p ?s)"
    "kept = cs_order (store_response ?key r t p ?s)" "rc_policy c' = p"
    using publish_state [of r c now t ?key c'] assms w(2) by (simp_all add: leader_publish_def)
  obtain n where n: "store_ok s1" "n < length (cs_order s1)" "store_response ?key r t p ?s = keep (drop n (cs_order s1)) s1"
    "fits p (keep (drop n (cs_order s1)) s1)" "\<forall>m < n. \<not> fits p (keep (drop m (cs_order s1)) s1)"
    by (rule store_response_kept [OF p(1) assms(1) p(2,3) assms(4) s1_def [unfolded e_def]]) blast
  have order: "cs_order s1 = order" "order \<noteq> []" "last order = ?key"
    using order_remove [OF p(1), of ?key] assms(8) by (simp_all add: s1_def put_entry_def touch_def)
  have lookup: "map_of (cs_entries s1) k = (if k = ?key then Some e else map_of (cs_entries ?s) k)" for k
    by (simp add: s1_def put_entry_def map_of_hash_insert remove_entry_keep [OF p(1)] map_of_keep [OF p(1)])
      (use p(1) in \<open>cases "map_of (cs_entries ?s) k"; force simp: store_ok_def dest: map_of_SomeD\<close>)
  have size: "entry_len (the (map_of (cs_entries s1) k)) = size_after ?key r c k" for k
    by (simp add: lookup size_after_def entry_len_def e_def)
  have "distinct (drop m order)" for m using n(1) order by (simp add: store_ok_def)
  then have dropped: "length (cs_entries (keep (drop m order) s1)) = length (drop m order)"
    "cs_bytes (keep (drop m order) s1) = sum_list (map (size_after ?key r c) (drop m order))" for m
    using length_keep [OF n(1), of "drop m order"] bytes_keep [OF n(1), of "drop m order"] order(1)
      set_drop_subset [of m order] by (simp_all add: size)
  have kept: "kept = drop n order" using c'(2) n(3) order(1) by (simp add: keep_def)
  then have mem: "?key \<in> set kept" using n(2) order by (metis last_drop last_in_set length_greater_0_conv length_drop zero_less_diff)
  have entries: "map_of (cs_entries (rc_state c')) k = (if k \<in> set kept then map_of (cs_entries s1) k else None)" for k
    using map_of_keep [OF n(1)] kept order(1) by (simp add: c'(1) n(3))
  have "fst (cache_get ?key later c') = Some r" if "later < t"
    using that u mem entries [of ?key] c'(3) by (simp add: cache_get_def lookup e_def)
  then show ?thesis
    using n(4,5) mem entries kept
    by (auto simp: fits_def order(1) dropped lookup e_def not_le)
qed

theorem cache_evicts_least_recent_witness:
  "\<exists>c'. leader_publish \<lparr>ld_key = 2, ld_flight = 1\<rparr> (small_response ''de'') 5
      (cw_cache (fold cache_step small_run (world_new small_policy))) = Some c'
    \<and> fst (cache_get 2 6 c') = Some (small_response ''de'')"
proof -
  let ?w = "fold cache_step small_run (world_new small_policy)"
  have l: "\<lparr>ld_key = 2, ld_flight = 1\<rparr> \<in> set (cw_leaders ?w)" by (simp add: cache_eval)
  have t: "instant_checked_add 5 (cp_ttl small_policy) = Some 1000000005" by (simp add: cache_eval)
  obtain c' where c': "leader_publish \<lparr>ld_key = 2, ld_flight = 1\<rparr> (small_response ''de'') 5 (cw_cache ?w) = Some c'"
    by (simp add: cache_eval)
  have "response_body_len (small_response ''de'') \<le> cp_max_bytes small_policy" by (simp add: cache_eval)
  from cache_evicts_least_recent [OF small_policy_ok refl l this t refl c' refl refl, of 6] c' show ?thesis by auto
qed

section \<open>One fetch per key\<close>



end
