(* ===== verification/Cache_Keys.thy ===== *)
theory Cache_Keys
  imports Response_Cache
begin

text \<open>
  The canonical form of a request behind its cache key, as a sequence of length-delimited fields: when
  it tells requests apart, and two requests it does not.
\<close>

definition key_field :: "string \<Rightarrow> string" where
  "key_field v = u64_be_bytes (min (2 ^ 64 - 1) (length v)) @ v"

definition header_fields :: "header_map \<Rightarrow> string \<Rightarrow> string list" where
  "header_fields headers name = name # header_get_all name headers @ [[]]"

definition request_fields :: "cache_key_input \<Rightarrow> string list" where
  "request_fields i =
     [u64_be_bytes (unat (ck_generation i)), ck_route i, ck_target i, ck_method i, ck_uri i]
     @ concat (map (header_fields (ck_headers i)) (ck_key_headers i)) @ [ck_body i]"

lemma push_fields: "fold push_key_field vs out = out @ concat (map key_field vs)"
  by (induction vs arbitrary: out) (simp_all add: push_key_field_def key_field_def)

lemma push_headers:
  "fold (push_key_header h) names out = out @ concat (map key_field (concat (map (header_fields h) names)))"
proof (induction names arbitrary: out)
  case (Cons name names)
  have "push_key_header h name out = out @ concat (map key_field (header_fields h name))"
    by (simp add: push_key_header_def push_fields header_fields_def)
      (simp add: push_key_field_def key_field_def)
  then show ?case by (simp add: Cons.IH)
qed simp

lemma canonical_fields: "canonical_request i = cache_key_version # concat (map key_field (request_fields i))"
  by (simp add: canonical_request_def push_headers request_fields_def)
    (simp add: push_key_field_def key_field_def)

section \<open>Fields can be read back\<close>

lemma digits_determine:
  fixes n m :: nat
  assumes "\<forall>i < k. (n div 256 ^ i) mod 256 = (m div 256 ^ i) mod 256"
  shows "n mod 256 ^ k = m mod 256 ^ k"
  using assms
proof (induction k)
  case (Suc k)
  have "x mod 256 ^ Suc k = 256 ^ k * (x div 256 ^ k mod 256) + x mod 256 ^ k" for x :: nat
    using mod_mult2_eq [of x "256 ^ k" 256] by (simp add: mult.commute)
  then show ?case using Suc by simp
qed simp

lemma u64_be_bytes_inject:
  assumes "u64_be_bytes n = u64_be_bytes m" "n < 2 ^ 64" "m < 2 ^ 64"
  shows "n = m"
proof -
  have "(of_char (char_of (n div 256 ^ i)) :: nat) = of_char (char_of (m div 256 ^ i))" if "i < 8" for i
  proof -
    have "i \<in> set [7, 6, 5, 4, 3, 2, 1, 0 :: nat]" using that by auto
    then have "char_of (n div 256 ^ i) = (char_of (m div 256 ^ i) :: char)"
      using assms(1) unfolding u64_be_bytes_def by (meson map_eq_conv)
    then show ?thesis by simp
  qed
  then have "n mod 256 ^ 8 = m mod 256 ^ 8" by (intro digits_determine) simp
  then show ?thesis using assms(2,3) by simp
qed

lemma length_u64_be_bytes [simp]: "length (u64_be_bytes n) = 8"
  by (simp add: u64_be_bytes_def)

definition short_field :: "string \<Rightarrow> bool" where "short_field v \<longleftrightarrow> length v < 2 ^ 64"

lemma key_field_inject:
  assumes "key_field v @ r = key_field u @ t" "short_field v" "short_field u"
  shows "v = u \<and> r = t"
proof -
  have "u64_be_bytes (length v) = u64_be_bytes (length u)"
    using assms by (simp add: key_field_def short_field_def append_eq_append_conv)
  then have "length v = length u" using u64_be_bytes_inject assms(2,3) by (simp add: short_field_def)
  then show ?thesis using assms(1) by (simp add: key_field_def append_eq_append_conv)
qed

lemma key_fields_inject:
  assumes "concat (map key_field vs) = concat (map key_field us)" "list_all short_field vs" "list_all short_field us"
  shows "vs = us"
  using assms
proof (induction vs arbitrary: us)
  case Nil
  then show ?case by (cases us) (auto simp: key_field_def u64_be_bytes_def)
next
  case (Cons v vs)
  from Cons.prems(1) obtain u us' where us: "us = u # us'"
    by (cases us) (auto simp: key_field_def u64_be_bytes_def)
  then have "v = u \<and> concat (map key_field vs) = concat (map key_field us')"
    using key_field_inject [of v "concat (map key_field vs)" u] Cons.prems by simp
  then show ?case using us Cons by simp
qed

lemma terminated_inject:
  assumes "xs @ [] # r = ys @ [] # t" "[] \<notin> set xs" "[] \<notin> set ys"
  shows "xs = ys \<and> r = t"
  using assms by (induction xs arbitrary: ys) (auto simp: Cons_eq_append_conv append_eq_Cons_conv)

lemma header_fields_inject:
  assumes "concat (map (header_fields a) names) @ r = concat (map (header_fields b) names) @ t"
    and "\<forall>name \<in> set names. [] \<notin> set (header_get_all name a) \<and> [] \<notin> set (header_get_all name b)"
  shows "r = t \<and> (\<forall>name \<in> set names. header_get_all name a = header_get_all name b)"
  using assms
proof (induction names)
  case (Cons name names)
  have "header_get_all name a = header_get_all name b
      \<and> concat (map (header_fields a) names) @ r = concat (map (header_fields b) names) @ t"
    using Cons.prems by (intro terminated_inject) (simp_all add: header_fields_def [of _ name])
  then show ?case using Cons by simp
qed simp

definition key_input_ok :: "cache_key_input \<Rightarrow> bool" where
  "key_input_ok i \<longleftrightarrow>
     list_all short_field (request_fields i)
     \<and> list_all (\<lambda>name. [] \<notin> set (header_get_all name (ck_headers i))) (ck_key_headers i)"

definition plain_input :: "header_map \<Rightarrow> cache_key_input" where
  "plain_input headers =
     \<lparr>ck_generation = 1, ck_route = ''r'', ck_target = ''t'', ck_method = ''GET'', ck_uri = ''/'',
      ck_headers = headers, ck_key_headers = [''accept'', ''accept-encoding''], ck_body = []\<rparr>"

text \<open>C27. Request keys: two requests of one route with the same canonical form agree on the
  configuration generation, route, target, method, path, body and every value of every key header,
  provided no key header has an empty value. Without that proviso it fails, since an empty value
  reads like the end of the list of values: there are two requests with different headers and the
  same canonical form, hence the same key whatever the hash.\<close>

theorem cache_key_exact:
  assumes "key_input_ok i" "key_input_ok j" "ck_key_headers i = ck_key_headers j"
    and "canonical_request i = canonical_request j"
  shows "(ck_generation i = ck_generation j \<and> ck_route i = ck_route j \<and> ck_target i = ck_target j
      \<and> ck_method i = ck_method j \<and> ck_uri i = ck_uri j \<and> ck_body i = ck_body j
      \<and> (\<forall>name \<in> set (ck_key_headers i).
           header_get_all name (ck_headers i) = header_get_all name (ck_headers j)))
    \<and> (\<exists>a b. header_get_all ''accept'' a \<noteq> header_get_all ''accept'' b
         \<and> canonical_request (plain_input a) = canonical_request (plain_input b))"
proof -
  have "request_fields i = request_fields j"
    using assms by (intro key_fields_inject) (simp_all add: canonical_fields key_input_ok_def)
  then have f: "u64_be_bytes (unat (ck_generation i)) = u64_be_bytes (unat (ck_generation j))"
    "ck_route i = ck_route j" "ck_target i = ck_target j" "ck_method i = ck_method j" "ck_uri i = ck_uri j"
    and h: "concat (map (header_fields (ck_headers i)) (ck_key_headers i)) @ [ck_body i] =
      concat (map (header_fields (ck_headers j)) (ck_key_headers i)) @ [ck_body j]"
    using assms(3) by (simp_all add: request_fields_def)
  have "unat (ck_generation i) = unat (ck_generation j)"
    using u64_be_bytes_inject [OF f(1)] unsigned_less [of "ck_generation i", where 'a = nat]
      unsigned_less [of "ck_generation j", where 'a = nat] by simp
  moreover have "[ck_body i] = [ck_body j] \<and> (\<forall>name \<in> set (ck_key_headers i).
      header_get_all name (ck_headers i) = header_get_all name (ck_headers j))"
    using assms by (intro header_fields_inject [OF h]) (auto simp: key_input_ok_def list_all_iff)
  moreover define a b where "a = [(''accept-encoding'', ''''), (''accept-encoding'', ''accept-encoding''), (''accept-encoding'', ''gzip'')]"
    and "b = [(''accept'', ''''), (''accept'', ''accept-encoding''), (''accept-encoding'', ''gzip'')]"
  then have "header_get_all ''accept'' a \<noteq> header_get_all ''accept'' b
      \<and> canonical_request (plain_input a) = canonical_request (plain_input b)"
    by (simp add: canonical_fields request_fields_def plain_input_def header_fields_def header_get_all_def)
  ultimately show ?thesis using f(2-5) by (auto simp: word_unat_eq_iff)
qed

theorem cache_key_exact_witness:
  "header_get_all ''accept'' [(''accept'', ''json'')] = header_get_all ''accept'' [(''host'', ''h''), (''accept'', ''json'')]"
proof -
  let ?i = "plain_input [(''accept'', ''json'')]" and ?j = "plain_input [(''host'', ''h''), (''accept'', ''json'')]"
  have "key_input_ok ?i" "key_input_ok ?j" "canonical_request ?i = canonical_request ?j"
    by (simp_all add: key_input_ok_def canonical_fields request_fields_def plain_input_def header_fields_def
        header_get_all_def short_field_def)
  from cache_key_exact [OF this(1,2) _ this(3)] show ?thesis by (simp add: plain_input_def)
qed

end
