(* ===== verification/Cache_Followers.thy ===== *)
theory Cache_Followers
  imports Drain_Properties Response_Cache
begin

text \<open>
  Followers of a flight and the caller that completes it, as interleaved threads:
  \<open>CacheFollower::wait\<close> looks at the result, then registers for the notification, then awaits it;
  \<open>Flight::complete\<close> sets the result under the lock of the flight, then notifies. Notifier and its
  documented behaviour are those of the drain.
\<close>

datatype follower_phase = Checking | Unregistered | Awaiting | Answered | GaveUp

datatype completer_phase = Fetching flight_result | Notifying | Finished

record 'n flight_system =
  fs_flight :: flight
  fs_notify :: 'n
  fs_completer :: completer_phase
  fs_followers :: "nat \<Rightarrow> follower_phase"

definition flight_system_new :: "'n \<Rightarrow> flight_result \<Rightarrow> 'n flight_system" where
  "flight_system_new n r =
     \<lparr>fs_flight = flight_new 0, fs_notify = n, fs_completer = Fetching r, fs_followers = (\<lambda>w. Checking)\<rparr>"

text \<open>\<open>complete\<close>: the section, then the notification of a completion that changed the result.\<close>

definition completer_step :: "'n notify_ops \<Rightarrow> 'n flight_system \<Rightarrow> 'n flight_system" where
  "completer_step ops s =
     (case fs_completer s of
        Fetching r \<Rightarrow>
          s\<lparr>fs_flight := flight_complete r (fs_flight s),
            fs_completer := if fl_result (fs_flight s) = None then Notifying else Finished\<rparr>
      | Notifying \<Rightarrow> s\<lparr>fs_notify := nt_notify_waiters ops (fs_notify s), fs_completer := Finished\<rparr>
      | Finished \<Rightarrow> s)"

text \<open>\<open>release_follower\<close>, with the notification of the completion it may bring about.\<close>

definition leave_flight :: "'n notify_ops \<Rightarrow> 'n flight_system \<Rightarrow> 'n flight_system" where
  "leave_flight ops s =
     (let (cancel, f) = flight_release_follower (fs_flight s) in
      s\<lparr>fs_flight := f, fs_notify := if cancel then nt_notify_waiters ops (fs_notify s) else fs_notify s\<rparr>)"

text \<open>One step of the loop of \<open>wait\<close>; \<open>cancelled\<close> tells whether the branch of the follower's own
  cancellation is taken.\<close>

definition follower_step :: "'n notify_ops \<Rightarrow> nat \<Rightarrow> bool \<Rightarrow> 'n flight_system \<Rightarrow> 'n flight_system" where
  "follower_step ops w cancelled s =
     (case fs_followers s w of
        Checking \<Rightarrow>
          if fl_result (fs_flight s) \<noteq> None
          then (leave_flight ops s)\<lparr>fs_followers := (fs_followers s)(w := Answered)\<rparr>
          else s\<lparr>fs_followers := (fs_followers s)(w := Unregistered)\<rparr>
      | Unregistered \<Rightarrow>
          s\<lparr>fs_notify := nt_enable ops w (fs_notify s), fs_followers := (fs_followers s)(w := Awaiting)\<rparr>
      | Awaiting \<Rightarrow>
          if cancelled
          then (leave_flight ops s)\<lparr>fs_followers := (fs_followers s)(w := GaveUp)\<rparr>
          else if nt_ready ops w (fs_notify s) then s\<lparr>fs_followers := (fs_followers s)(w := Checking)\<rparr>
          else s
      | Answered \<Rightarrow> s
      | GaveUp \<Rightarrow> s)"

datatype flight_action = CompleterStep | FollowerStep nat bool

definition flight_apply :: "'n notify_ops \<Rightarrow> flight_action \<Rightarrow> 'n flight_system \<Rightarrow> 'n flight_system" where
  "flight_apply ops a s =
     (case a of CompleterStep \<Rightarrow> completer_step ops s | FollowerStep w c \<Rightarrow> follower_step ops w c s)"

section \<open>Awaiting followers\<close>

text \<open>A follower that awaits its future is woken or still to be woken.\<close>

definition served :: "'n notify_ops \<Rightarrow> nat \<Rightarrow> 'n flight_system \<Rightarrow> bool" where
  "served ops w s \<longleftrightarrow>
     fs_followers s w = Awaiting
     \<and> (nt_ready ops w (fs_notify s)
        \<or> nt_enabled ops w (fs_notify s)
          \<and> (case fs_completer s of
               Fetching r \<Rightarrow> fl_result (fs_flight s) = None | Notifying \<Rightarrow> True | Finished \<Rightarrow> False))
     \<and> (case fs_completer s of Fetching r \<Rightarrow> True | _ \<Rightarrow> fl_result (fs_flight s) \<noteq> None)"

lemma release_result:
  "fl_result f \<noteq> None \<Longrightarrow> flight_release_follower f = (False, f\<lparr>fl_subscribers := fl_subscribers f - 1\<rparr>)"
  by (auto simp: flight_release_follower_def Let_def)

lemma release_cases:
  "flight_release_follower f = (False, f\<lparr>fl_subscribers := fl_subscribers f - 1\<rparr>)
   \<or> fst (flight_release_follower f) \<and> fl_result (snd (flight_release_follower f)) \<noteq> None"
  by (auto simp: flight_release_follower_def flight_complete_def Let_def)

lemma served_leave:
  assumes "notify_faithful ops" "served ops w s"
  shows "served ops w (leave_flight ops s)"
  using assms release_cases [of "fs_flight s"]
  by (auto simp: served_def leave_flight_def notify_faithful_def split: prod.splits completer_phase.splits)

lemma served_completer:
  assumes "notify_faithful ops" "served ops w s"
  shows "served ops w (completer_step ops s)"
  using assms
  by (auto simp: served_def completer_step_def notify_faithful_def flight_complete_def split: completer_phase.splits)

lemma served_follower:
  assumes f: "notify_faithful ops" and s: "served ops w s" and v: "v \<noteq> w"
  shows "served ops w (follower_step ops v c s)"
proof -
  have frame: "served ops w (t\<lparr>fs_followers := (fs_followers t)(v := p)\<rparr>) = served ops w t" for t p
    using v by (simp add: served_def split: completer_phase.split)
  have "served ops w (s\<lparr>fs_notify := nt_enable ops v (fs_notify s)\<rparr>)"
    using f s v by (auto simp: served_def notify_faithful_def split: completer_phase.splits)
  moreover have "fs_followers (leave_flight ops s) = fs_followers s"
    by (simp add: leave_flight_def split: prod.split)
  ultimately show ?thesis
    using frame [of s] frame [of "s\<lparr>fs_notify := nt_enable ops v (fs_notify s)\<rparr>"] frame [of "leave_flight ops s"]
      served_leave [OF f s] s
    by (simp add: follower_step_def split: follower_phase.split)
qed

lemma served_run:
  assumes "notify_faithful ops" "served ops w s" "\<forall>a \<in> set as. \<forall>c. a \<noteq> FollowerStep w c"
  shows "served ops w (fold (flight_apply ops) as s)"
  using assms(2,3)
proof (induction as arbitrary: s)
  case (Cons a as)
  have "served ops w (flight_apply ops a s)"
    using Cons.prems assms(1)
    by (cases a) (auto simp: flight_apply_def served_completer served_follower)
  then show ?case using Cons by simp
qed simp

section \<open>After the completion\<close>

fun follower_rank :: "follower_phase \<Rightarrow> nat" where
  "follower_rank Awaiting = 2"
| "follower_rank Checking = 1"
| "follower_rank p = 0"

definition finishing :: "'n notify_ops \<Rightarrow> nat \<Rightarrow> 'n flight_system \<Rightarrow> bool" where
  "finishing ops w s \<longleftrightarrow>
     fs_completer s = Finished \<and> fl_result (fs_flight s) \<noteq> None
     \<and> (fs_followers s w = Awaiting \<and> nt_ready ops w (fs_notify s) \<or> fs_followers s w \<in> {Checking, Answered})"

lemma finishing_step:
  assumes f: "notify_faithful ops" and s: "finishing ops w s" and a: "a \<noteq> FollowerStep w True"
  shows "finishing ops w (flight_apply ops a s)"
    "follower_rank (fs_followers (flight_apply ops a s) w) =
      follower_rank (fs_followers s w) - of_bool (a = FollowerStep w False)"
proof -
  have leave: "leave_flight ops s = s\<lparr>fs_flight := (fs_flight s)\<lparr>fl_subscribers := fl_subscribers (fs_flight s) - 1\<rparr>\<rparr>"
    using s by (simp add: leave_flight_def finishing_def release_result)
  show "finishing ops w (flight_apply ops a s)"
    "follower_rank (fs_followers (flight_apply ops a s) w) =
      follower_rank (fs_followers s w) - of_bool (a = FollowerStep w False)"
    using f s a
    by (cases a; auto simp: flight_apply_def completer_step_def follower_step_def leave finishing_def
        notify_faithful_def split: follower_phase.splits)+
qed

lemma finishing_run:
  assumes "notify_faithful ops" "finishing ops w s" "FollowerStep w True \<notin> set as"
  shows "finishing ops w (fold (flight_apply ops) as s)
    \<and> follower_rank (fs_followers (fold (flight_apply ops) as s) w) =
      follower_rank (fs_followers s w) - count_list as (FollowerStep w False)"
  using assms(2,3)
proof (induction as arbitrary: s)
  case (Cons a as)
  have "a \<noteq> FollowerStep w True" using Cons.prems by auto
  then show ?case
    using Cons.IH [of "flight_apply ops a s"] finishing_step [OF assms(1) Cons.prems(1), of a] Cons.prems by simp
qed simp

lemma listed_simps:
  "nt_ready listed_notify w n \<longleftrightarrow> w \<in> set (snd n)" "nt_enable listed_notify w n = (w # fst n, removeAll w (snd n))"
  by (simp_all add: listed_notify_def case_prod_unfold)

lemma lost_stays:
  assumes "fs_completer s = Finished" "fs_followers s w = Awaiting" "w \<notin> set (snd (fs_notify s))"
    and "fl_result (fs_flight s) \<noteq> None" "FollowerStep w True \<notin> set as"
  shows "fs_followers (fold (flight_apply listed_notify) as s) w = Awaiting"
  using assms
proof (induction as arbitrary: s)
  case (Cons a as)
  have leave: "leave_flight listed_notify s =
      s\<lparr>fs_flight := (fs_flight s)\<lparr>fl_subscribers := fl_subscribers (fs_flight s) - 1\<rparr>\<rparr>"
    using Cons.prems by (simp add: leave_flight_def release_result)
  show ?case
    unfolding fold_Cons comp_def
    by (rule Cons.IH; use Cons.prems in \<open>cases a; auto simp: flight_apply_def completer_step_def follower_step_def
          leave listed_simps split: follower_phase.splits\<close>)
qed simp

text \<open>C25. Followers of a shared fetch: one that awaits its registered future when the fetch completes is
  answered, whatever the interleaving, after two steps of its own. But \<open>wait\<close> looks at the result
  before it registers: there is a schedule in which the completion falls in between, its
  notification is lost, and the follower waits on, although the response is there, until its own
  request is cancelled.\<close>

theorem follower_wakeup:
  assumes "notify_faithful ops" "fs_completer s = Fetching r" "fl_result (fs_flight s) = None"
    and "fs_followers s w = Awaiting" "nt_enabled ops w (fs_notify s)"
    and "\<forall>a \<in> set as. \<forall>c. a \<noteq> FollowerStep w c" "fs_completer (fold (flight_apply ops) as s) = Finished"
    and "FollowerStep w True \<notin> set bs" "2 \<le> count_list bs (FollowerStep w False)"
  shows "fs_followers (fold (flight_apply ops) (as @ bs) s) w = Answered
    \<and> (\<exists>cs s'. s' = fold (flight_apply listed_notify) cs (flight_system_new ([], []) Complete)
         \<and> fs_completer s' = Finished \<and> fl_result (fs_flight s') = Some Complete
         \<and> (\<forall>ds. FollowerStep 0 True \<notin> set ds \<longrightarrow>
               fs_followers (fold (flight_apply listed_notify) ds s') 0 = Awaiting))"
proof -
  let ?t = "fold (flight_apply ops) as s"
  have "served ops w s" using assms(2-5) by (simp add: served_def)
  then have "served ops w ?t" using assms(1,6) by (intro served_run)
  then have "finishing ops w ?t" using assms(7) by (simp add: served_def finishing_def)
  from finishing_run [OF assms(1) this assms(8)] assms(9)
  have fin: "finishing ops w (fold (flight_apply ops) bs ?t)"
    and rank: "follower_rank (fs_followers (fold (flight_apply ops) bs ?t) w) =
      follower_rank (fs_followers ?t w) - count_list bs (FollowerStep w False)" by simp_all
  have "follower_rank (fs_followers ?t w) \<le> 2" by (cases "fs_followers ?t w") simp_all
  then have "follower_rank (fs_followers (fold (flight_apply ops) bs ?t) w) = 0" using rank assms(9) by simp
  then have "fs_followers (fold (flight_apply ops) (as @ bs) s) w = Answered" using fin by (auto simp: finishing_def)
  moreover define s' where "s' = fold (flight_apply listed_notify)
    [FollowerStep 0 False, CompleterStep, CompleterStep, FollowerStep 0 False] (flight_system_new ([], []) Complete)"
  then have s': "fs_completer s' = Finished" "fl_result (fs_flight s') = Some Complete" "fs_followers s' 0 = Awaiting"
    "0 \<notin> set (snd (fs_notify s'))"
    by (simp_all add: flight_apply_def follower_step_def completer_step_def flight_system_new_def flight_new_def
        flight_complete_def listed_notify_def)
  moreover have "fs_followers (fold (flight_apply listed_notify) ds s') 0 = Awaiting" if "FollowerStep 0 True \<notin> set ds" for ds
    using s' that by (intro lost_stays) simp_all
  ultimately show ?thesis using s'_def by blast
qed

theorem follower_wakeup_witness:
  "fs_followers (fold (flight_apply listed_notify)
     ([CompleterStep, CompleterStep] @ [FollowerStep 3 False, FollowerStep 3 False])
     ((flight_system_new ([3], []) Complete)\<lparr>fs_followers := (\<lambda>w. Awaiting)\<rparr>)) 3 = Answered"
  by (rule conjunct1 [OF follower_wakeup [OF listed_notify_faithful, of _ Complete]])
    (simp_all add: flight_system_new_def flight_new_def listed_notify_def flight_apply_def completer_step_def)

end
