(* ===== verification/Route_Match.thy ===== *)
theory Route_Match
  imports Http_Headers Candidates
begin

text \<open>
  Routes: how declarations become match plans and are checked for conflicts and sorted
  (\<open>pooler-config/src/lib.rs\<close>), and how a request is matched against them
  (\<open>pooler-config/src/route_match.rs\<close>). The parsers of the \<open>http\<close> crate for methods, header
  names and authorities are parameters. Of a route plan only what matching reads is kept.
\<close>

record http_parsers =
  hp_method :: "string \<Rightarrow> bool"
  hp_header_name :: "string \<Rightarrow> string option"
  hp_authority :: "string \<Rightarrow> (string \<times> u16 option) option"

section \<open>Plans\<close>

datatype path_pattern = ExactPath string | TemplatePath string | PrefixPath string | AnyPath

definition path_pattern_value :: "path_pattern \<Rightarrow> string" where
  "path_pattern_value p = (case p of ExactPath v \<Rightarrow> v | TemplatePath v \<Rightarrow> v | PrefixPath v \<Rightarrow> v | AnyPath \<Rightarrow> ''/'')"

definition specificity :: "path_pattern \<Rightarrow> nat" where
  "specificity p = (case p of ExactPath _ \<Rightarrow> 3 | TemplatePath _ \<Rightarrow> 2 | PrefixPath _ \<Rightarrow> 1 | AnyPath \<Rightarrow> 0)"

record match_plan =
  mp_methods :: "string list"
  mp_host :: "string option"
  mp_path :: path_pattern
  mp_headers :: "(string \<times> string) list"
  mp_content_types :: "string list"
  mp_websocket :: "bool option"

record source_label =
  sl_source :: string
  sl_line :: "nat option"
  sl_column :: "nat option"
  sl_path :: string

record route_plan =
  rp_id :: string
  rp_listener :: string
  rp_matcher :: match_plan
  rp_priority :: int
  rp_order :: nat
  rp_source :: source_label

record match_config =
  mc_methods :: "string list"
  mc_method :: "string option"
  mc_host :: "string option"
  mc_path :: "string option"
  mc_path_template :: "string option"
  mc_path_prefix :: "string option"
  mc_headers :: "(string \<times> string) list"
  mc_content_types :: "string list"
  mc_websocket :: "bool option"

text \<open>The errors that compiling a matcher and checking for conflicts return.\<close>

datatype config_error =
    Invalid source_label string
  | RouteConflict string source_label string source_label

section \<open>Compiling a matcher\<close>

definition config_template_segment :: "string \<Rightarrow> bool" where
  "config_template_segment s \<longleftrightarrow>
     length s > 2 \<and> starts_with s ''{'' \<and> ends_with s ''}''
     \<and> list_all (\<lambda>c. is_ascii_alphanumeric c \<or> c = CHR ''_'' \<or> c = CHR ''-'') (butlast (tl s))"

definition valid_path :: "string \<Rightarrow> source_label \<Rightarrow> config_error + string" where
  "valid_path v label =
     (let v = trim v in
      if v = [] \<or> \<not> starts_with v ''/'' \<or> CHR ''?'' \<in> set v
      then Inl (Invalid label ''route path must be absolute and query-free'') else Inr v)"

definition valid_template_path :: "string \<Rightarrow> source_label \<Rightarrow> config_error + string" where
  "valid_template_path v label =
     (case valid_path v label of
        Inl e \<Rightarrow> Inl e
      | Inr path \<Rightarrow>
          if list_ex (\<lambda>s. (CHR ''{'' \<in> set s \<or> CHR ''}'' \<in> set s) \<and> \<not> config_template_segment s)
               (tl (split_on CHR ''/'' path))
          then Inl (Invalid label ''route path template contains an invalid parameter'') else Inr path)"

definition token_char :: "char \<Rightarrow> bool" where
  "token_char c \<longleftrightarrow> is_ascii_alphanumeric c \<or> c \<in> set ''!#$%&'' \<or> of_char c = (39 :: nat) \<or> c \<in> set ''*+-.^_`|~''"

definition first_part :: "string \<Rightarrow> string" where
  "first_part v = hd (split_on CHR '';'' v)"

definition compile_content_type :: "string \<Rightarrow> source_label \<Rightarrow> config_error + string" where
  "compile_content_type v label =
     (let v = to_ascii_lowercase (trim (first_part v)) in
      case split_once CHR ''/'' v of
        None \<Rightarrow> Inl (Invalid label ''content type must be a valid media type'')
      | Some (media_type, subtype) \<Rightarrow>
          if v = [] \<or> list_ex is_control (utf8_chars v) \<or> list_ex is_whitespace (utf8_chars v) \<or> count_list v CHR ''/'' \<noteq> 1
             \<or> media_type = [] \<or> subtype = []
             \<or> media_type \<noteq> ''*'' \<and> \<not> list_all token_char media_type
             \<or> subtype \<noteq> ''*'' \<and> \<not> list_all token_char subtype
          then Inl (Invalid label ''content type must be a valid media type'')
          else if media_type = ''*'' \<and> subtype \<noteq> ''*''
          then Inl (Invalid label ''content type wildcard must be */* or type/*'')
          else Inr v)"

fun compile_headers ::
  "http_parsers \<Rightarrow> source_label \<Rightarrow> (string \<times> string) list \<Rightarrow> (string \<times> string) list \<Rightarrow> config_error + (string \<times> string) list" where
  "compile_headers hp label [] headers = Inr headers"
| "compile_headers hp label ((name, v) # rest) headers =
     (case hp_header_name hp name of
        None \<Rightarrow> Inl (Invalid label ''invalid route header name'')
      | Some n \<Rightarrow>
          if CHR 0x0D \<in> set v \<or> CHR 0x0A \<in> set v
          then Inl (Invalid label ''route header contains a newline'')
          else compile_headers hp label rest (btree_insert n (trim v) headers))"

text \<open>The loops that canonicalise a list and drop repetitions.\<close>

fun collect_distinct ::
  "(string \<Rightarrow> config_error + string) \<Rightarrow> string list \<Rightarrow> string list \<Rightarrow> config_error + string list" where
  "collect_distinct f [] acc = Inr acc"
| "collect_distinct f (v # vs) acc =
     (case f v of
        Inl e \<Rightarrow> Inl e
      | Inr x \<Rightarrow> collect_distinct f vs (if x \<in> set acc then acc else acc @ [x]))"

definition compile_method :: "http_parsers \<Rightarrow> source_label \<Rightarrow> string \<Rightarrow> config_error + string" where
  "compile_method hp label m =
     (let m = to_ascii_uppercase (trim m) in
      if hp_method hp m then Inr m else Inl (Invalid label ''invalid route method''))"

definition compile_path :: "source_label \<Rightarrow> match_config \<Rightarrow> config_error + path_pattern" where
  "compile_path label d =
     (if length (filter (\<lambda>p. p \<noteq> None) [mc_path d, mc_path_template d, mc_path_prefix d]) > 1
      then Inl (Invalid label ''choose only one route path matcher'')
      else
        case mc_path d of
          Some p \<Rightarrow> map_sum id ExactPath (valid_path p label)
        | None \<Rightarrow>
            (case mc_path_template d of
               Some p \<Rightarrow> map_sum id TemplatePath (valid_template_path p label)
             | None \<Rightarrow>
                 (case mc_path_prefix d of
                    Some p \<Rightarrow> map_sum id PrefixPath (valid_path p label)
                  | None \<Rightarrow> Inr AnyPath)))"

section \<open>Authorities\<close>

definition trim_end_dots :: "string \<Rightarrow> string" where
  "trim_end_dots v = rev (dropWhile (\<lambda>c. c = CHR ''.'') (rev v))"

definition normalize_authority :: "http_parsers \<Rightarrow> string \<Rightarrow> (string \<times> u16 option) option" where
  "normalize_authority hp v =
     (case hp_authority hp (trim v) of
        None \<Rightarrow> None
      | Some (host, port) \<Rightarrow> Some (to_ascii_lowercase (trim_end_dots host), port))"

fun decimal :: "nat \<Rightarrow> string" where
  "decimal n = (if n < 10 then [char_of (48 + n)] else decimal (n div 10) @ [char_of (48 + n mod 10)])"

definition canonical_authority :: "http_parsers \<Rightarrow> string \<Rightarrow> string option" where
  "canonical_authority hp v =
     (case normalize_authority hp v of
        None \<Rightarrow> None
      | Some (host, None) \<Rightarrow> Some host
      | Some (host, Some port) \<Rightarrow> Some (host @ '':'' @ decimal (unat port)))"

definition compile_host :: "http_parsers \<Rightarrow> source_label \<Rightarrow> string option \<Rightarrow> config_error + string option" where
  "compile_host hp label host =
     (case host of
        None \<Rightarrow> Inr None
      | Some v \<Rightarrow>
          (case canonical_authority hp v of
             None \<Rightarrow> Inl (Invalid label ''route host must be a valid HTTP authority'')
           | Some h \<Rightarrow> Inr (Some h)))"

definition and_compile :: "config_error + 'a \<Rightarrow> ('a \<Rightarrow> config_error + 'b) \<Rightarrow> config_error + 'b" where
  "and_compile r f = (case r of Inl e \<Rightarrow> Inl e | Inr x \<Rightarrow> f x)"

definition default_match :: match_config where
  "default_match =
     \<lparr>mc_methods = [], mc_method = None, mc_host = None, mc_path = None, mc_path_template = None,
      mc_path_prefix = None, mc_headers = [], mc_content_types = [], mc_websocket = None\<rparr>"

definition compile_match :: "http_parsers \<Rightarrow> match_config option \<Rightarrow> source_label \<Rightarrow> config_error + match_plan" where
  "compile_match hp declaration label =
     (let d = (case declaration of Some d \<Rightarrow> d | None \<Rightarrow> default_match) in
      and_compile
       (collect_distinct (compile_method hp label)
          (mc_methods d @ (case mc_method d of Some m \<Rightarrow> [m] | None \<Rightarrow> [])) [])
       (\<lambda>methods. and_compile (compile_path label d)
          (\<lambda>path. and_compile (compile_host hp label (mc_host d))
             (\<lambda>host. and_compile (compile_headers hp label (mc_headers d) [])
                (\<lambda>headers. and_compile
                   (collect_distinct (\<lambda>v. compile_content_type v label) (mc_content_types d) [])
                   (\<lambda>content_types. Inr
                      \<lparr>mp_methods = methods, mp_host = host, mp_path = path, mp_headers = headers,
                       mp_content_types = content_types, mp_websocket = mc_websocket d\<rparr>))))))"

section \<open>Matching a request\<close>

record route_request =
  rq_listener :: string
  rq_method :: string
  rq_path :: string
  rq_host :: "string option"
  rq_headers :: header_map
  rq_content_type :: "string option"
  rq_websocket :: "bool option"

datatype route_match_error =
    NoMatch string string
  | MethodNotAllowed string string string
  | ContentTypeNotAllowed string string string

definition route_path :: "string \<Rightarrow> string" where
  "route_path path = (case split_once CHR ''?'' path of None \<Rightarrow> path | Some (p, _) \<Rightarrow> p)"

definition prefix_matches :: "string \<Rightarrow> string \<Rightarrow> bool" where
  "prefix_matches prefix path =
     (if prefix = ''/'' \<or> path = prefix then True
      else if ends_with prefix ''/'' then starts_with path prefix
      else starts_with path prefix \<and> starts_with (drop (length prefix) path) ''/'')"

text \<open>The test of the request path, which does not look inside the braces.\<close>

definition is_template_segment :: "string \<Rightarrow> bool" where
  "is_template_segment s \<longleftrightarrow> starts_with s ''{'' \<and> ends_with s ''}'' \<and> length s > 2"

definition template_matches :: "string \<Rightarrow> string \<Rightarrow> bool" where
  "template_matches template path \<longleftrightarrow>
     length (split_on CHR ''/'' template) = length (split_on CHR ''/'' path)
     \<and> list_all (\<lambda>(t, p). if is_template_segment t then p \<noteq> [] else t = p)
         (zip (split_on CHR ''/'' template) (split_on CHR ''/'' path))"

definition path_matches :: "path_pattern \<Rightarrow> string \<Rightarrow> bool" where
  "path_matches pattern path =
     (case pattern of
        ExactPath expected \<Rightarrow> expected = path
      | TemplatePath template \<Rightarrow> template_matches template path
      | PrefixPath prefix \<Rightarrow> prefix_matches prefix path
      | AnyPath \<Rightarrow> True)"

definition header_text :: "header_map \<Rightarrow> string \<Rightarrow> string option" where
  "header_text headers name = Option.bind (header_get name headers) header_to_str"

definition host_matches ::
  "http_parsers \<Rightarrow> string option \<Rightarrow> string option \<Rightarrow> header_map \<Rightarrow> bool" where
  "host_matches hp expected explicit headers =
     (case expected of
        None \<Rightarrow> True
      | Some e \<Rightarrow>
          let actual = (case explicit of Some h \<Rightarrow> Some h | None \<Rightarrow> header_text headers ''host'') in
          case normalize_authority hp e of
            None \<Rightarrow> False
          | Some (expected_host, expected_port) \<Rightarrow>
              (case Option.bind actual (normalize_authority hp) of
                 None \<Rightarrow> False
               | Some (actual_host, actual_port) \<Rightarrow>
                   actual_host = expected_host
                   \<and> (case expected_port of None \<Rightarrow> True | Some port \<Rightarrow> actual_port = Some port)))"

definition headers_match :: "(string \<times> string) list \<Rightarrow> header_map \<Rightarrow> bool" where
  "headers_match expected headers \<longleftrightarrow>
     list_all
       (\<lambda>(name, v). list_ex (\<lambda>value. case header_to_str value of None \<Rightarrow> False | Some t \<Rightarrow> trim t = v)
          (header_get_all name headers))
       expected"

definition method_matches_route :: "route_plan \<Rightarrow> string \<Rightarrow> bool" where
  "method_matches_route route m \<longleftrightarrow>
     mp_methods (rp_matcher route) = [] \<or> m \<in> set (mp_methods (rp_matcher route))"

definition normalize_content_type :: "string \<Rightarrow> string" where
  "normalize_content_type v = to_ascii_lowercase (trim (first_part v))"

definition media_type_wildcard_matches :: "string \<Rightarrow> string \<Rightarrow> bool" where
  "media_type_wildcard_matches expected actual \<longleftrightarrow>
     expected = ''*/*''
     \<or> ends_with expected ''/*''
        \<and> (let prefix = take (length expected - 2) expected in
            starts_with actual prefix \<and> length prefix < length actual
            \<and> actual ! length prefix = CHR ''/'')"

definition content_type_matches :: "string list \<Rightarrow> string option \<Rightarrow> bool" where
  "content_type_matches expected actual =
     (if expected = [] then True
      else
        case map_option normalize_content_type actual of
          None \<Rightarrow> False
        | Some a \<Rightarrow>
            list_ex (\<lambda>v. v = a \<or> media_type_wildcard_matches v a) (map normalize_content_type expected))"

definition request_content_type :: "route_request \<Rightarrow> string option" where
  "request_content_type req =
     map_option normalize_content_type
       (case rq_content_type req of
          Some c \<Rightarrow> Some c
        | None \<Rightarrow> header_text (rq_headers req) ''content-type'')"

definition websocket_matches :: "bool option \<Rightarrow> bool \<Rightarrow> bool" where
  "websocket_matches expected actual = (case expected of None \<Rightarrow> True | Some e \<Rightarrow> e = actual)"

definition request_websocket_headers :: "header_map \<Rightarrow> bool" where
  "request_websocket_headers headers =
     (let upgrade = (case header_text headers ''upgrade'' of
                       None \<Rightarrow> False | Some v \<Rightarrow> eq_ignore_ascii_case v ''websocket'');
          connection = map_option
            (\<lambda>v. list_ex (\<lambda>part. eq_ignore_ascii_case (trim part) ''upgrade'') (split_on CHR '','' v))
            (header_text headers ''connection'')
      in upgrade \<and> (case connection of None \<Rightarrow> True | Some c \<Rightarrow> c))"

definition request_websocket :: "route_request \<Rightarrow> bool" where
  "request_websocket req =
     (case rq_websocket req of Some w \<Rightarrow> w | None \<Rightarrow> request_websocket_headers (rq_headers req))"

definition structural_match :: "http_parsers \<Rightarrow> route_request \<Rightarrow> route_plan \<Rightarrow> bool" where
  "structural_match hp req route \<longleftrightarrow>
     rp_listener route = rq_listener req
     \<and> path_matches (mp_path (rp_matcher route)) (route_path (rq_path req))
     \<and> host_matches hp (mp_host (rp_matcher route)) (rq_host req) (rq_headers req)
     \<and> headers_match (mp_headers (rp_matcher route)) (rq_headers req)
     \<and> websocket_matches (mp_websocket (rp_matcher route)) (request_websocket req)"

fun match_routes ::
  "http_parsers \<Rightarrow> route_request \<Rightarrow> bool \<Rightarrow> bool \<Rightarrow> route_plan list \<Rightarrow> route_match_error + route_plan" where
  "match_routes hp req structural method_match [] =
     (let path = route_path (rq_path req); m = to_ascii_uppercase (rq_method req) in
      if \<not> structural then Inl (NoMatch (rq_listener req) path)
      else if \<not> method_match then Inl (MethodNotAllowed (rq_listener req) m path)
      else Inl (ContentTypeNotAllowed (rq_listener req)
                  (case request_content_type req of None \<Rightarrow> [] | Some c \<Rightarrow> c) path))"
| "match_routes hp req structural method_match (route # routes) =
     (if \<not> structural_match hp req route then match_routes hp req structural method_match routes
      else if \<not> method_matches_route route (to_ascii_uppercase (rq_method req))
      then match_routes hp req True method_match routes
      else if content_type_matches (mp_content_types (rp_matcher route)) (request_content_type req)
      then Inr route
      else match_routes hp req True True routes)"

definition match_route_request ::
  "http_parsers \<Rightarrow> route_plan list \<Rightarrow> route_request \<Rightarrow> route_match_error + route_plan" where
  "match_route_request hp routes req = match_routes hp req False False routes"

section \<open>Conflicts\<close>

definition methods_overlap :: "string list \<Rightarrow> string list \<Rightarrow> bool" where
  "methods_overlap a b \<longleftrightarrow> a = [] \<or> b = [] \<or> list_ex (\<lambda>m. m \<in> set b) a"

definition authorities_overlap :: "http_parsers \<Rightarrow> string option \<Rightarrow> string option \<Rightarrow> bool" where
  "authorities_overlap hp a b =
     (case (a, b) of
        (Some x, Some y) \<Rightarrow>
          (case (normalize_authority hp x, normalize_authority hp y) of
             (Some (h, p), Some (h', p')) \<Rightarrow> h = h' \<and> (p = None \<or> p' = None \<or> p = p')
           | _ \<Rightarrow> False)
      | _ \<Rightarrow> True)"

definition bools_overlap :: "bool option \<Rightarrow> bool option \<Rightarrow> bool" where
  "bools_overlap a b \<longleftrightarrow> a = None \<or> b = None \<or> a = b"

definition maps_overlap :: "(string \<times> string) list \<Rightarrow> (string \<times> string) list \<Rightarrow> bool" where
  "maps_overlap a b \<longleftrightarrow>
     list_all (\<lambda>(k, v). case map_of b k of None \<Rightarrow> True | Some w \<Rightarrow> w = v) a
     \<and> list_all (\<lambda>(k, v). case map_of a k of None \<Rightarrow> True | Some w \<Rightarrow> w = v) b"

definition media_types_overlap :: "string \<Rightarrow> string \<Rightarrow> bool" where
  "media_types_overlap a b =
     (case (split_once CHR ''/'' a, split_once CHR ''/'' b) of
        (Some (ta, sa), Some (tb, sb)) \<Rightarrow>
          if a = ''*/*'' \<or> b = ''*/*'' then True
          else if sa = ''*'' \<and> ta \<noteq> ''*'' \<or> sb = ''*'' \<and> tb \<noteq> ''*'' then ta = tb
          else a = b
      | _ \<Rightarrow> False)"

definition content_types_overlap :: "string list \<Rightarrow> string list \<Rightarrow> bool" where
  "content_types_overlap a b \<longleftrightarrow>
     a = [] \<or> b = [] \<or> list_ex (\<lambda>x. list_ex (media_types_overlap x) b) a"

definition template_templates_overlap :: "string \<Rightarrow> string \<Rightarrow> bool" where
  "template_templates_overlap a b =
     (let sa = tl (split_on CHR ''/'' a); sb = tl (split_on CHR ''/'' b) in
      length sa = length sb
      \<and> list_all (\<lambda>(x, y). x = y \<or> config_template_segment x \<or> config_template_segment y) (zip sa sb))"

definition template_prefix_overlap :: "string \<Rightarrow> string \<Rightarrow> bool" where
  "template_prefix_overlap template prefix =
     (let st = tl (split_on CHR ''/'' template); sp = tl (split_on CHR ''/'' prefix) in
      length sp \<le> length st
      \<and> list_all (\<lambda>(t, p). config_template_segment t \<or> t = p) (zip st sp))"

definition paths_overlap :: "path_pattern \<Rightarrow> path_pattern \<Rightarrow> bool" where
  "paths_overlap a b =
     (case (a, b) of
        (AnyPath, _) \<Rightarrow> True
      | (_, AnyPath) \<Rightarrow> True
      | (ExactPath x, ExactPath y) \<Rightarrow> x = y
      | (PrefixPath x, PrefixPath y) \<Rightarrow> prefix_matches x y \<or> prefix_matches y x
      | (ExactPath x, PrefixPath p) \<Rightarrow> prefix_matches p x
      | (PrefixPath p, ExactPath x) \<Rightarrow> prefix_matches p x
      | (TemplatePath t, PrefixPath p) \<Rightarrow> template_prefix_overlap t p
      | (PrefixPath p, TemplatePath t) \<Rightarrow> template_prefix_overlap t p
      | (ExactPath x, TemplatePath t) \<Rightarrow> template_matches t x
      | (TemplatePath t, ExactPath x) \<Rightarrow> template_matches t x
      | (TemplatePath x, TemplatePath y) \<Rightarrow> template_templates_overlap x y)"

definition routes_overlap :: "http_parsers \<Rightarrow> route_plan \<Rightarrow> route_plan \<Rightarrow> bool" where
  "routes_overlap hp r s \<longleftrightarrow>
     methods_overlap (mp_methods (rp_matcher r)) (mp_methods (rp_matcher s))
     \<and> authorities_overlap hp (mp_host (rp_matcher r)) (mp_host (rp_matcher s))
     \<and> paths_overlap (mp_path (rp_matcher r)) (mp_path (rp_matcher s))
     \<and> maps_overlap (mp_headers (rp_matcher r)) (mp_headers (rp_matcher s))
     \<and> content_types_overlap (mp_content_types (rp_matcher r)) (mp_content_types (rp_matcher s))
     \<and> bools_overlap (mp_websocket (rp_matcher r)) (mp_websocket (rp_matcher s))"

record precedence =
  path_specificity :: nat
  header_specificity :: nat
  prec_priority :: int
  config_order :: nat

definition route_precedence :: "route_plan \<Rightarrow> precedence" where
  "route_precedence r =
     \<lparr>path_specificity = specificity (mp_path (rp_matcher r)),
      header_specificity = length (mp_headers (rp_matcher r)),
      prec_priority = rp_priority r, config_order = rp_order r\<rparr>"

definition comparable_routes :: "route_plan \<Rightarrow> route_plan \<Rightarrow> bool" where
  "comparable_routes r s \<longleftrightarrow>
     rp_listener r = rp_listener s
     \<and> path_specificity (route_precedence r) = path_specificity (route_precedence s)
     \<and> header_specificity (route_precedence r) = header_specificity (route_precedence s)
     \<and> rp_priority r = rp_priority s"

fun detect_conflicts :: "http_parsers \<Rightarrow> route_plan list \<Rightarrow> config_error + unit" where
  "detect_conflicts hp [] = Inr ()"
| "detect_conflicts hp (r # rs) =
     (case find (\<lambda>s. comparable_routes r s \<and> routes_overlap hp r s) rs of
        Some s \<Rightarrow> Inl (RouteConflict (rp_id r) (rp_source r) (rp_id s) (rp_source s))
      | None \<Rightarrow> detect_conflicts hp rs)"

definition compare_routes :: "route_plan \<Rightarrow> route_plan \<Rightarrow> ordering" where
  "compare_routes r s =
     then_with (cmp (specificity (mp_path (rp_matcher s))) (specificity (mp_path (rp_matcher r))))
       (then_with (cmp (length (mp_headers (rp_matcher s))) (length (mp_headers (rp_matcher r))))
          (then_with (cmp (rp_priority s) (rp_priority r)) (cmp (rp_order r) (rp_order s))))"

text \<open>\<open>sort_by\<close> is stable: an element goes before the first one that is greater.\<close>

fun insert_by :: "('a \<Rightarrow> 'a \<Rightarrow> ordering) \<Rightarrow> 'a \<Rightarrow> 'a list \<Rightarrow> 'a list" where
  "insert_by c x [] = [x]"
| "insert_by c x (y # ys) = (if c x y = Greater then y # insert_by c x ys else x # y # ys)"

definition sort_by :: "('a \<Rightarrow> 'a \<Rightarrow> ordering) \<Rightarrow> 'a list \<Rightarrow> 'a list" where
  "sort_by c xs = foldr (insert_by c) xs []"

definition route_table :: "http_parsers \<Rightarrow> route_plan list \<Rightarrow> config_error + route_plan list" where
  "route_table hp routes =
     (case detect_conflicts hp routes of
        Inl e \<Rightarrow> Inl e
      | Inr _ \<Rightarrow> Inr (sort_by compare_routes routes))"

end
