(* ===== verification/Route_Properties.thy ===== *)
theory Route_Properties
  imports Route_Match
begin

text \<open>
  Route selection: two routes of equal precedence that both accept a request are reported as a
  conflict, so in a table that compiled the accepting route of highest precedence is unique and is
  the one selected.
\<close>

section \<open>Strings\<close>

lemma starts_with_iff: "starts_with v p \<longleftrightarrow> (\<exists>r. v = p @ r)"
  unfolding starts_with_def by (metis append_eq_conv_conj append_take_drop_id)

lemma ends_with_iff: "ends_with v p \<longleftrightarrow> (\<exists>r. v = r @ p)"
  unfolding ends_with_def starts_with_iff
  by (metis rev_append rev_rev_ident)

lemma split_on_pieces: "p \<in> set (split_on s v) \<Longrightarrow> s \<notin> set p"
  by (induction v arbitrary: p) (auto split: if_splits list.splits)

lemma split_on_single: "s \<notin> set v \<Longrightarrow> split_on s v = [v]"
  by (induction v) auto

lemma ascii_lower_idem [simp]: "ascii_lower (ascii_lower c) = ascii_lower c"
  by (auto simp: ascii_lower_def Let_def)

lemma lowercase_idem: "to_ascii_lowercase (to_ascii_lowercase v) = to_ascii_lowercase v"
  by (simp add: to_ascii_lowercase_def)

definition visible :: "char \<Rightarrow> bool" where
  "visible c \<longleftrightarrow> (let n = of_char c :: nat in 33 \<le> n \<and> n < 127)"

lemma strip_visible:
  assumes "list_all visible v" and "list_all (\<lambda>p. p \<noteq> [] \<longrightarrow> \<not> visible (hd p)) ps"
  shows "strip_prefixes ps v = v"
proof -
  have "\<not> (p \<noteq> [] \<and> starts_with v p)" if "p \<in> set ps" for p
    using assms that by (cases p) (auto simp: starts_with_iff list_all_iff)
  then have "find (\<lambda>p. p \<noteq> [] \<and> starts_with v p) ps = None" by (auto simp: find_None_iff)
  then show ?thesis by (simp add: strip_prefixes.simps)
qed

lemma trim_visible: "list_all visible v \<Longrightarrow> trim v = v"
proof -
  assume v: "list_all visible v"
  have a: "list_all (\<lambda>p. p \<noteq> [] \<longrightarrow> \<not> visible (hd p)) utf8_whitespace"
    and b: "list_all (\<lambda>p. p \<noteq> [] \<longrightarrow> \<not> visible (hd p)) (map rev utf8_whitespace)"
    by code_simp+
  have "strip_prefixes utf8_whitespace v = v" by (rule strip_visible [OF v a])
  moreover have "strip_prefixes (map rev utf8_whitespace) (rev v) = rev v"
    by (rule strip_visible [OF _ b]) (use v in \<open>simp add: list_all_iff\<close>)
  ultimately show ?thesis by (simp add: trim_def)
qed

section \<open>Content types\<close>

definition media_ok :: "string \<Rightarrow> bool" where
  "media_ok t \<longleftrightarrow> normalize_content_type t = t
     \<and> (\<exists>m s. t = m @ CHR ''/'' # s \<and> CHR ''/'' \<notin> set m \<and> CHR ''/'' \<notin> set s)"

lemma token_visible: "token_char c \<Longrightarrow> visible c \<and> c \<noteq> CHR '';'' \<and> c \<noteq> CHR ''/''"
  by (auto simp: token_char_def visible_def is_ascii_alphanumeric_def Let_def)

lemma split_once_Some:
  "split_once s v = Some (a, b) \<Longrightarrow> v = a @ s # b \<and> s \<notin> set a"
proof -
  assume a: "split_once s v = Some (a, b)"
  then have "s \<in> set v" by (auto simp: split_once_def split: if_splits)
  then have "dropWhile (\<lambda>c. c \<noteq> s) v \<noteq> []" "hd (dropWhile (\<lambda>c. c \<noteq> s) v) = s"
    using hd_dropWhile [of "\<lambda>c. c \<noteq> s" v] by auto
  then have "v = takeWhile (\<lambda>c. c \<noteq> s) v @ s # tl (dropWhile (\<lambda>c. c \<noteq> s) v)"
    by (metis list.collapse takeWhile_dropWhile_id)
  then show ?thesis using a set_takeWhileD by (force simp: split_once_def split: if_splits)
qed

lemma compile_content_type_ok:
  assumes "compile_content_type v label = Inr t"
  shows "media_ok t"
proof -
  have t: "t = to_ascii_lowercase (trim (first_part v))"
    using assms by (auto simp: compile_content_type_def Let_def split: option.splits if_splits)
  obtain m s where so: "split_once CHR ''/'' t = Some (m, s)"
    and m: "m = ''*'' \<or> list_all token_char m" and s: "s = ''*'' \<or> list_all token_char s"
    using assms by (auto simp: compile_content_type_def Let_def t split: option.splits if_splits)
  have star: "token_char CHR ''*''" by (simp add: token_char_def)
  have ms: "list_all token_char m" "list_all token_char s" using m s star by auto
  have ts: "t = m @ CHR ''/'' # s" using split_once_Some [OF so] by simp
  have slash: "CHR ''/'' \<notin> set m" "CHR ''/'' \<notin> set s"
    using ms token_visible unfolding list_all_iff by blast+
  have chars: "visible c \<and> c \<noteq> CHR '';''" if "c \<in> set t" for c
  proof (cases "c = CHR ''/''")
    case True
    then show ?thesis by (simp add: visible_def)
  next
    case False
    then have "token_char c" using that ms by (auto simp: ts list_all_iff)
    then show ?thesis using token_visible by blast
  qed
  have vis: "list_all visible t" using chars by (simp add: list_all_iff)
  have semi: "CHR '';'' \<notin> set t" using chars by blast
  have "normalize_content_type t = to_ascii_lowercase t"
    by (simp add: normalize_content_type_def first_part_def split_on_single [OF semi] trim_visible [OF vis])
  also have "\<dots> = t" by (simp add: t lowercase_idem)
  finally show ?thesis using ts slash by (auto simp: media_ok_def)
qed

definition media_accepts :: "string \<Rightarrow> string \<Rightarrow> bool" where
  "media_accepts t a \<longleftrightarrow> t = a \<or> media_type_wildcard_matches t a"

lemma split_once_first: "s \<notin> set m \<Longrightarrow> split_once s (m @ s # r) = Some (m, r)"
  by (induction m) (auto simp: split_once_def)

lemma media_ok_split: "media_ok t \<Longrightarrow> \<exists>m s. split_once CHR ''/'' t = Some (m, s)"
  unfolding media_ok_def by (metis split_once_first)

lemma prefix_before_slash:
  assumes "m @ CHR ''/'' # r = m' @ CHR ''/'' # r'" "CHR ''/'' \<notin> set m" "CHR ''/'' \<notin> set m'"
  shows "m = m' \<and> r = r'"
proof -
  have "Some (m, r) = split_once CHR ''/'' (m' @ CHR ''/'' # r')"
    unfolding assms(1) [symmetric] by (rule split_once_first [symmetric]) (rule assms(2))
  also have "\<dots> = Some (m', r')" by (rule split_once_first) (rule assms(3))
  finally show ?thesis by simp
qed

lemma media_accepts_type:
  assumes "media_ok t" "media_accepts t a" "t \<noteq> ''*/*''"
  shows "\<exists>m s r. t = m @ CHR ''/'' # s \<and> CHR ''/'' \<notin> set m \<and> a = m @ CHR ''/'' # r
     \<and> (s = ''*'' \<or> a = t)"
proof -
  obtain m s where t: "t = m @ CHR ''/'' # s" "CHR ''/'' \<notin> set m" "CHR ''/'' \<notin> set s"
    using assms(1) by (auto simp: media_ok_def)
  show ?thesis
  proof (cases "a = t")
    case True
    then show ?thesis using t by blast
  next
    case False
    then have w: "ends_with t ''/*''" "starts_with a (take (length t - 2) t)"
      "length t - 2 < length a" "a ! (length t - 2) = CHR ''/''"
      using assms(2,3) by (auto simp: media_accepts_def media_type_wildcard_matches_def Let_def min_absorb2)
    obtain q where q: "t = q @ ''/*''" using w(1) by (auto simp: ends_with_iff)
    have "CHR ''/'' \<notin> set q"
    proof
      assume "CHR ''/'' \<in> set q"
      then obtain x y where "q = x @ CHR ''/'' # y" "CHR ''/'' \<notin> set x" by (metis split_list_first)
      then have "s = y @ ''/*''" using q t(1,2) prefix_before_slash [of m s x "y @ ''/*''"] by simp
      then show False using t(3) by simp
    qed
    then have mq: "m = q" "s = ''*''" using q t(1,2) prefix_before_slash [of m s q "''*''"] by simp_all
    obtain r where r: "a = m @ r" using w(2) q mq by (auto simp: starts_with_iff)
    then obtain r' where "r = CHR ''/'' # r'" using w(3,4) q mq by (cases r) auto
    then show ?thesis using t r mq by auto
  qed
qed

lemma media_overlap_sound:
  assumes "media_ok t" "media_ok u" "media_accepts t a" "media_accepts u a"
  shows "media_types_overlap t u"
proof -
  obtain mt st mu su where s: "split_once CHR ''/'' t = Some (mt, st)" "split_once CHR ''/'' u = Some (mu, su)"
    using media_ok_split [OF assms(1)] media_ok_split [OF assms(2)] by blast
  show ?thesis
  proof (cases "t = ''*/*'' \<or> u = ''*/*''")
    case True
    then show ?thesis using s by (auto simp: media_types_overlap_def)
  next
    case False
    obtain m s r where t: "t = m @ CHR ''/'' # s" "CHR ''/'' \<notin> set m" "a = m @ CHR ''/'' # r"
      "s = ''*'' \<or> a = t"
      using media_accepts_type [OF assms(1,3)] False by blast
    obtain n w q where u: "u = n @ CHR ''/'' # w" "CHR ''/'' \<notin> set n" "a = n @ CHR ''/'' # q"
      "w = ''*'' \<or> a = u"
      using media_accepts_type [OF assms(2,4)] False by blast
    have mn: "m = n" using prefix_before_slash [OF trans [OF t(3) [symmetric] u(3)] t(2) u(2)] by simp
    have parts: "split_once CHR ''/'' t = Some (m, s)" "split_once CHR ''/'' u = Some (m, w)"
      unfolding t(1) u(1) mn by (rule split_once_first, rule t(2) [unfolded mn] u(2))+
    have star: "s = ''*'' \<Longrightarrow> m \<noteq> ''*''" "w = ''*'' \<Longrightarrow> m \<noteq> ''*''" using False t(1) u(1) mn by auto
    show ?thesis
    proof (cases "s = ''*'' \<or> w = ''*''")
      case True
      then show ?thesis using star by (auto simp: media_types_overlap_def parts)
    next
      case False
      then show ?thesis using t(4) u(4) by (simp add: media_types_overlap_def parts)
    qed
  qed
qed

lemma content_types_sound:
  assumes "list_all media_ok ts" "list_all media_ok us"
    "content_type_matches ts c" "content_type_matches us c"
  shows "content_types_overlap ts us"
proof (cases "ts = [] \<or> us = []")
  case False
  then obtain a where c: "map_option normalize_content_type c = Some a"
    using assms(3) by (auto simp: content_type_matches_def split: option.splits)
  obtain t where t: "t \<in> set ts" "media_accepts t a"
    using False assms(1,3) c
    by (auto simp: content_type_matches_def media_accepts_def list_ex_iff list_all_iff media_ok_def)
  obtain u where u: "u \<in> set us" "media_accepts u a"
    using False assms(2,4) c
    by (auto simp: content_type_matches_def media_accepts_def list_ex_iff list_all_iff media_ok_def)
  have "media_types_overlap t u"
    using assms(1,2) t u media_overlap_sound by (auto simp: list_all_iff)
  then show ?thesis using t u by (auto simp: content_types_overlap_def list_ex_iff)
qed (auto simp: content_types_overlap_def)

section \<open>Paths\<close>

lemma template_segments:
  assumes "valid_template_path v label = Inr t" "s \<in> set (tl (split_on CHR ''/'' t))" "is_template_segment s"
  shows "config_template_segment s"
proof -
  have "CHR ''{'' \<in> set s" using assms(3) by (auto simp: is_template_segment_def starts_with_iff)
  then show ?thesis
    using assms(1,2) by (auto simp: valid_template_path_def list_ex_iff split: sum.splits if_splits)
qed

lemma template_matches_nth:
  assumes "template_matches t p" "i < length (split_on CHR ''/'' t)"
  shows "if is_template_segment (split_on CHR ''/'' t ! i) then split_on CHR ''/'' p ! i \<noteq> []
    else split_on CHR ''/'' t ! i = split_on CHR ''/'' p ! i"
  using assms by (auto simp: template_matches_def list_all_length)

lemma templates_sound:
  assumes "valid_template_path v l = Inr t" "valid_template_path w k = Inr u"
    "template_matches t p" "template_matches u p"
  shows "template_templates_overlap t u"
proof -
  let ?s = "split_on CHR ''/''"
  have len: "length (?s t) = length (?s u)" using assms(3,4) by (simp add: template_matches_def)
  have "tl (?s t) ! i = tl (?s u) ! i \<or> config_template_segment (tl (?s t) ! i)
      \<or> config_template_segment (tl (?s u) ! i)" if i: "i < length (tl (?s t))" for i
  proof -
    have in_tl: "tl (?s t) ! i \<in> set (tl (?s t))" "tl (?s u) ! i \<in> set (tl (?s u))"
      using i len by (auto intro!: nth_mem)
    have "tl (?s t) ! i = ?s t ! Suc i" "tl (?s u) ! i = ?s u ! Suc i" "Suc i < length (?s t)" "Suc i < length (?s u)"
      using i len by (auto simp: nth_tl)
    then show ?thesis
      using template_matches_nth [OF assms(3), of "Suc i"] template_matches_nth [OF assms(4), of "Suc i"]
        template_segments [OF assms(1) in_tl(1)] template_segments [OF assms(2) in_tl(2)]
      by (auto split: if_splits)
  qed
  then show ?thesis using len by (auto simp: template_templates_overlap_def Let_def list_all_length)
qed

lemma prefix_matches_cases:
  assumes "prefix_matches q p" "q \<noteq> ''/''"
  obtains r where "p = q @ r" "r = [] \<or> ends_with q ''/'' \<or> (\<exists>r'. r = CHR ''/'' # r')"
  using assms by (auto simp: prefix_matches_def starts_with_iff split: if_splits)

lemma prefix_matches_longer:
  assumes a: "prefix_matches a p" "a \<noteq> ''/''" and b: "p = b @ s" and le: "length a \<le> length b"
  shows "prefix_matches a b"
proof -
  obtain r where r: "p = a @ r" "r = [] \<or> ends_with a ''/'' \<or> (\<exists>r'. r = CHR ''/'' # r')"
    by (rule prefix_matches_cases [OF a])
  obtain d where d: "b = a @ d" "r = d @ s" using r(1) b le by (auto simp: append_eq_append_conv_if intro: that)
     (metis append_eq_append_conv2 append_eq_conv_conj le length_append)
  show ?thesis
    using r(2) d by (cases d) (auto simp: prefix_matches_def starts_with_iff)
qed

lemma prefixes_sound:
  assumes "prefix_matches a p" "prefix_matches b p"
  shows "prefix_matches a b \<or> prefix_matches b a"
proof (cases "a = ''/'' \<or> b = ''/''")
  case True
  then show ?thesis by (auto simp: prefix_matches_def)
next
  case False
  then obtain r s where "p = a @ r" "p = b @ s"
    using prefix_matches_cases assms by metis
  then show ?thesis
    using prefix_matches_longer assms False by (metis nat_le_linear)
qed

definition path_ok :: "path_pattern \<Rightarrow> bool" where
  "path_ok p \<longleftrightarrow> (\<forall>t. p = TemplatePath t \<longrightarrow> (\<exists>v label. valid_template_path v label = Inr t))"

lemma paths_sound:
  assumes "path_ok a" "path_ok b" "specificity a = specificity b" "path_matches a p" "path_matches b p"
  shows "paths_overlap a b"
proof (cases a)
  case (TemplatePath t)
  then obtain u where "b = TemplatePath u" using assms(3) by (cases b) (auto simp: specificity_def)
  then show ?thesis
    using TemplatePath assms templates_sound by (auto simp: path_ok_def path_matches_def paths_overlap_def)
qed (use assms prefixes_sound in \<open>cases b; auto simp: specificity_def path_matches_def paths_overlap_def\<close>)+

section \<open>Hosts, methods, headers\<close>

lemma host_matches_Some:
  assumes "host_matches hp (Some x) explicit hs"
  shows "\<exists>h p q. normalize_authority hp x = Some (h, p)
    \<and> Option.bind (case explicit of Some h \<Rightarrow> Some h | None \<Rightarrow> header_text hs ''host'') (normalize_authority hp)
        = Some (h, q)
    \<and> (p = None \<or> p = q)"
proof -
  let ?a = "Option.bind (case explicit of Some h \<Rightarrow> Some h | None \<Rightarrow> header_text hs ''host'') (normalize_authority hp)"
  obtain h p where x: "normalize_authority hp x = Some (h, p)"
    using assms by (auto simp: host_matches_def Let_def split: option.splits)
  obtain h' q where a: "?a = Some (h', q)"
    using assms by (cases ?a) (auto simp: host_matches_def Let_def x)
  have "h' = h" "p = None \<or> p = q"
    using assms by (cases p; simp add: host_matches_def Let_def x a)+
  then show ?thesis using x a by simp
qed

lemma hosts_sound:
  assumes "host_matches hp a explicit hs" "host_matches hp b explicit hs"
  shows "authorities_overlap hp a b"
proof (cases "a = None \<or> b = None")
  case True
  then show ?thesis by (auto simp: authorities_overlap_def split: option.split)
next
  case False
  then obtain x y where ab: "a = Some x" "b = Some y" by auto
  obtain h p q where x: "normalize_authority hp x = Some (h, p)"
    "Option.bind (case explicit of Some h \<Rightarrow> Some h | None \<Rightarrow> header_text hs ''host'') (normalize_authority hp)
       = Some (h, q)" "p = None \<or> p = q"
    using host_matches_Some [OF assms(1) [unfolded ab]] by blast
  obtain h' p' q' where y: "normalize_authority hp y = Some (h', p')"
    "Option.bind (case explicit of Some h \<Rightarrow> Some h | None \<Rightarrow> header_text hs ''host'') (normalize_authority hp)
       = Some (h', q')" "p' = None \<or> p' = q'"
    using host_matches_Some [OF assms(2) [unfolded ab]] by blast
  have "h = h'" "q = q'" using trans [OF x(2) [symmetric] y(2)] by simp_all
  then show ?thesis using x(1,3) y(1,3) by (auto simp: authorities_overlap_def ab)
qed

lemma headers_match_value:
  "headers_match ex hs \<Longrightarrow> (k, v) \<in> set ex \<Longrightarrow>
     \<exists>x t. (k, x) \<in> set hs \<and> header_to_str x = Some t \<and> trim t = v"
  by (fastforce simp: headers_match_def list_all_iff list_ex_iff header_get_all_def split: option.splits)

lemma headers_same:
  assumes "distinct (keys hs)" "headers_match a hs" "headers_match b hs"
    "(k, v) \<in> set a" "map_of b k = Some w"
  shows "w = v"
proof -
  obtain x t where x: "(k, x) \<in> set hs" "header_to_str x = Some t" "trim t = v"
    using headers_match_value [OF assms(2,4)] by blast
  obtain y u where y: "(k, y) \<in> set hs" "header_to_str y = Some u" "trim u = w"
    using headers_match_value [OF assms(3) map_of_SomeD [OF assms(5)]] by blast
  have "x = y" by (rule eq_key_imp_eq_value [OF assms(1) x(1) y(1)])
  then show ?thesis using x y by simp
qed

lemma headers_sound:
  assumes "distinct (keys hs)" "headers_match a hs" "headers_match b hs"
  shows "maps_overlap a b"
  unfolding maps_overlap_def list_all_iff
  using headers_same [OF assms(1,2,3)] headers_same [OF assms(1,3,2)]
  by (auto split: option.split)

section \<open>Compiled matchers\<close>

definition matcher_ok :: "match_plan \<Rightarrow> bool" where
  "matcher_ok m \<longleftrightarrow> path_ok (mp_path m) \<and> list_all media_ok (mp_content_types m)"

lemma collect_distinct_all:
  assumes "collect_distinct f vs acc = Inr xs" "list_all P acc" "\<And>v x. f v = Inr x \<Longrightarrow> P x"
  shows "list_all P xs"
  using assms(1,2)
proof (induction vs arbitrary: acc)
  case (Cons v vs)
  then obtain x where x: "f v = Inr x" by (auto split: sum.splits)
  show ?case
    by (rule Cons.IH [of "if x \<in> set acc then acc else acc @ [x]"])
      (use Cons.prems x assms(3) [OF x] in auto)
qed simp

lemma and_compile_Inr: "and_compile r f = Inr y \<longleftrightarrow> (\<exists>x. r = Inr x \<and> f x = Inr y)"
  by (cases r) (auto simp: and_compile_def)

lemma compile_path_ok: "compile_path label d = Inr p \<Longrightarrow> path_ok p"
  by (auto simp: compile_path_def path_ok_def map_sum_def split: if_splits option.splits sum.splits)

lemma compile_match_ok:
  assumes "compile_match hp d label = Inr m"
  shows "matcher_ok m"
proof -
  obtain e p cts where "compile_path label e = Inr p" "mp_path m = p" "mp_content_types m = cts"
    "collect_distinct (\<lambda>v. compile_content_type v label) (mc_content_types e) [] = Inr cts"
    using assms by (auto simp: compile_match_def Let_def and_compile_Inr)
  then show ?thesis
    using compile_path_ok collect_distinct_all [of _ _ "[]" cts media_ok] compile_content_type_ok
    by (auto simp: matcher_ok_def)
qed

section \<open>Conflicts and precedence\<close>

definition accepts :: "http_parsers \<Rightarrow> route_request \<Rightarrow> route_plan \<Rightarrow> bool" where
  "accepts hp req r \<longleftrightarrow>
     structural_match hp req r \<and> method_matches_route r (to_ascii_uppercase (rq_method req))
     \<and> content_type_matches (mp_content_types (rp_matcher r)) (request_content_type req)"

definition outranks :: "route_plan \<Rightarrow> route_plan \<Rightarrow> bool" where
  "outranks r s \<longleftrightarrow>
     (let p = route_precedence r; q = route_precedence s in
      path_specificity p > path_specificity q
      \<or> path_specificity p = path_specificity q
         \<and> (header_specificity p > header_specificity q
            \<or> header_specificity p = header_specificity q \<and> prec_priority p > prec_priority q))"

lemma overlap_sound:
  assumes "matcher_ok (rp_matcher r)" "matcher_ok (rp_matcher s)" "distinct (keys (rq_headers req))"
    and r: "accepts hp req r" and s: "accepts hp req s"
    and "path_specificity (route_precedence r) = path_specificity (route_precedence s)"
  shows "routes_overlap hp r s"
proof -
  have "paths_overlap (mp_path (rp_matcher r)) (mp_path (rp_matcher s))"
    using assms by (intro paths_sound) (auto simp: matcher_ok_def accepts_def structural_match_def route_precedence_def)
  moreover have "authorities_overlap hp (mp_host (rp_matcher r)) (mp_host (rp_matcher s))"
    using r s by (intro hosts_sound) (auto simp: accepts_def structural_match_def)
  moreover have "maps_overlap (mp_headers (rp_matcher r)) (mp_headers (rp_matcher s))"
    using r s by (intro headers_sound [OF assms(3)]) (auto simp: accepts_def structural_match_def)
  moreover have "content_types_overlap (mp_content_types (rp_matcher r)) (mp_content_types (rp_matcher s))"
    using assms by (intro content_types_sound) (auto simp: matcher_ok_def accepts_def)
  moreover have "methods_overlap (mp_methods (rp_matcher r)) (mp_methods (rp_matcher s))"
    using r s by (auto simp: accepts_def method_matches_route_def methods_overlap_def list_ex_iff)
  moreover have "bools_overlap (mp_websocket (rp_matcher r)) (mp_websocket (rp_matcher s))"
    using r s by (auto simp: accepts_def structural_match_def websocket_matches_def bools_overlap_def split: option.splits)
  ultimately show ?thesis by (simp add: routes_overlap_def)
qed

lemma detect_conflicts_Inr:
  "detect_conflicts hp rs = Inr u \<Longrightarrow> sorted_wrt (\<lambda>r s. \<not> (comparable_routes r s \<and> routes_overlap hp r s)) rs"
  by (induction rs) (auto split: option.splits simp: find_None_iff)

interpretation route_order: total_comparator compare_routes UNIV
  unfolding compare_routes_def
  by (intro total_comparator_then total_comparator_rev [OF total_comparator_key] total_comparator_key)

lemma set_insert_by: "set (insert_by c x ys) = insert x (set ys)"
  by (induction ys) auto

lemma set_sort_by: "set (sort_by c xs) = set xs"
  by (induction xs) (auto simp: sort_by_def set_insert_by)

context total_comparator
begin

lemma insert_by_sorted:
  "insert x (set ys) \<subseteq> S \<Longrightarrow> sorted_wrt (\<lambda>a b. c a b \<noteq> Greater) ys \<Longrightarrow>
     sorted_wrt (\<lambda>a b. c a b \<noteq> Greater) (insert_by c x ys)"
proof (induction ys)
  case (Cons y ys)
  show ?case
  proof (cases "c x y = Greater")
    case True
    then show ?thesis using Cons c_le_Greater [of x y] by (auto simp: set_insert_by)
  next
    case False
    have "c x z \<noteq> Greater" if "z \<in> set ys" for z
      using c_trans [of x y z] Cons.prems False that by auto
    then show ?thesis using Cons.prems False by auto
  qed
qed simp

lemma sort_by_sorted: "set xs \<subseteq> S \<Longrightarrow> sorted_wrt (\<lambda>a b. c a b \<noteq> Greater) (sort_by c xs)"
proof (induction xs)
  case (Cons x xs)
  then have "sorted_wrt (\<lambda>a b. c a b \<noteq> Greater) (insert_by c x (sort_by c xs))"
    by (intro insert_by_sorted) (auto simp: set_sort_by)
  then show ?case by (simp add: sort_by_def)
qed (simp add: sort_by_def)

end

section \<open>Selection\<close>

lemma match_routes_Inr: "match_routes hp req a b rs = Inr r \<longleftrightarrow> find (accepts hp req) rs = Some r"
  by (induction rs arbitrary: a b) (auto simp: accepts_def Let_def)

lemma match_routes_Inl:
  "find (accepts hp req) rs = None \<Longrightarrow> match_routes hp req a b rs =
     match_routes hp req (a \<or> list_ex (structural_match hp req) rs)
       (b \<or> list_ex (\<lambda>r. structural_match hp req r \<and> method_matches_route r (to_ascii_uppercase (rq_method req))) rs) []"
proof (induction rs arbitrary: a b)
  case (Cons r rs)
  then have none: "find (accepts hp req) rs = None" and r: "\<not> accepts hp req r" by (auto split: if_splits)
  show ?case using Cons.IH [OF none, of True True] Cons.IH [OF none, of True b] Cons.IH [OF none, of a b] r
    by (cases "structural_match hp req r"; cases "method_matches_route r (to_ascii_uppercase (rq_method req))")
      (simp_all add: accepts_def del: match_routes.simps(1))
qed (simp del: match_routes.simps)

lemma find_sorted:
  "find P xs = Some x \<Longrightarrow> sorted_wrt R xs \<Longrightarrow> y \<in> set xs \<Longrightarrow> P y \<Longrightarrow> y = x \<or> R x y"
  by (induction xs) (auto split: if_splits)

lemma compare_routes_rank:
  "compare_routes r s \<noteq> Greater \<Longrightarrow> outranks r s \<or>
     (specificity (mp_path (rp_matcher r)) = specificity (mp_path (rp_matcher s))
      \<and> length (mp_headers (rp_matcher r)) = length (mp_headers (rp_matcher s)) \<and> rp_priority r = rp_priority s)"
  by (auto simp: compare_routes_def outranks_def route_precedence_def Let_def cmp_def split: if_splits)

lemma outranks_asym: "outranks r s \<Longrightarrow> \<not> outranks s r"
  by (auto simp: outranks_def Let_def)

lemma sorted_wrt_pair: "sorted_wrt R xs \<Longrightarrow> x \<in> set xs \<Longrightarrow> y \<in> set xs \<Longrightarrow> x = y \<or> R x y \<or> R y x"
  by (induction xs) auto

lemma found_route_outranks:
  assumes ok: "\<And>r. r \<in> set rs \<Longrightarrow> matcher_ok (rp_matcher r)" and "route_table hp rs = Inr table"
    and hd: "distinct (keys (rq_headers req))"
    and f: "find (accepts hp req) table = Some r" and s: "s \<in> set rs" "accepts hp req s"
  shows "s = r \<or> outranks r s"
proof -
  have conf: "detect_conflicts hp rs = Inr ()" and table: "table = sort_by compare_routes rs"
    using assms(2) by (auto simp: route_table_def split: sum.splits)
  have r: "r \<in> set rs" "accepts hp req r"
    using f by (auto simp: find_Some_iff table set_sort_by dest: nth_mem)
  have "s = r \<or> compare_routes r s \<noteq> Greater"
    using find_sorted [OF f route_order.sort_by_sorted [of rs, folded table]] s by (simp add: table set_sort_by)
  moreover have "s = r" if eq: "specificity (mp_path (rp_matcher r)) = specificity (mp_path (rp_matcher s))"
    "length (mp_headers (rp_matcher r)) = length (mp_headers (rp_matcher s))" "rp_priority r = rp_priority s"
  proof -
    have "comparable_routes r s" "comparable_routes s r"
      using eq r s by (auto simp: comparable_routes_def route_precedence_def accepts_def structural_match_def)
    moreover have "routes_overlap hp r s" "routes_overlap hp s r"
      using overlap_sound [OF ok ok hd] r s eq by (simp_all add: route_precedence_def)
    ultimately show ?thesis using sorted_wrt_pair [OF detect_conflicts_Inr [OF conf] r(1) s(1)] by auto
  qed
  ultimately show ?thesis using compare_routes_rank by blast
qed

text \<open>C19. Route selection is exact: in a table that compiled, whatever the order of the declarations, a
  request that repeats no header is given the route that accepts it and strictly outranks every other
  accepting route, by path specificity, then header count, then priority; such a route exists as soon
  as some route accepts.\<close>

theorem route_selection_exact:
  assumes "list_all (\<lambda>r. \<exists>d label. compile_match hp d label = Inr (rp_matcher r)) routes"
    and "route_table hp routes = Inr table" and "distinct (keys (rq_headers req))"
  shows "(match_route_request hp table req = Inr r \<longleftrightarrow>
      r \<in> set routes \<and> accepts hp req r
      \<and> (\<forall>s \<in> set routes. accepts hp req s \<longrightarrow> s = r \<or> outranks r s))
    \<and> ((\<exists>q. match_route_request hp table req = Inr q) \<longleftrightarrow> (\<exists>q \<in> set routes. accepts hp req q))"
proof -
  have ok: "matcher_ok (rp_matcher q)" if "q \<in> set routes" for q
    using assms(1) that compile_match_ok by (auto simp: list_all_iff)
  have sel: "match_route_request hp table req = Inr q \<longleftrightarrow> find (accepts hp req) table = Some q" for q
    by (simp add: match_route_request_def match_routes_Inr)
  have set: "set table = set routes"
    using assms(2) by (auto simp: route_table_def set_sort_by split: sum.splits)
  have found: "q \<in> set routes \<and> accepts hp req q" if "find (accepts hp req) table = Some q" for q
    using that set by (auto simp: find_Some_iff dest: nth_mem)
  have some: "\<exists>q. find (accepts hp req) table = Some q" if "q \<in> set routes" "accepts hp req q" for q
    using that set find_None_iff [of "accepts hp req" table] by (cases "find (accepts hp req) table") auto
  note best = found_route_outranks [OF ok assms(2,3)]
  have "find (accepts hp req) table = Some r"
    if r: "r \<in> set routes" "accepts hp req r" "\<forall>s \<in> set routes. accepts hp req s \<longrightarrow> s = r \<or> outranks r s"
  proof -
    obtain q where q: "find (accepts hp req) table = Some q" using some r(1,2) by blast
    then have "q = r" using found [OF q] best [OF _ q r(1,2)] r(3) outranks_asym by blast
    then show ?thesis using q by simp
  qed
  then show ?thesis using sel found some best by blast
qed

definition example_parsers :: http_parsers where
  "example_parsers =
     \<lparr>hp_method = (\<lambda>m. m \<noteq> []), hp_header_name = (\<lambda>n. Some (to_ascii_lowercase n)), hp_authority = (\<lambda>a. Some (a, None))\<rparr>"

definition example_label :: source_label where
  "example_label = \<lparr>sl_source = ''pooler.yaml'', sl_line = None, sl_column = None, sl_path = ''routes''\<rparr>"

definition example_prefix :: route_plan where
  "example_prefix =
     \<lparr>rp_id = ''any'', rp_listener = ''main'',
      rp_matcher = \<lparr>mp_methods = [], mp_host = None, mp_path = PrefixPath ''/v1'', mp_headers = [],
                    mp_content_types = [], mp_websocket = None\<rparr>,
      rp_priority = 0, rp_order = 0, rp_source = example_label\<rparr>"

definition example_chat :: route_plan where
  "example_chat =
     \<lparr>rp_id = ''chat'', rp_listener = ''main'',
      rp_matcher = \<lparr>mp_methods = [''POST''], mp_host = None, mp_path = TemplatePath ''/v1/{model}'', mp_headers = [],
                    mp_content_types = [''application/*''], mp_websocket = None\<rparr>,
      rp_priority = 0, rp_order = 1, rp_source = example_label\<rparr>"

definition example_route_request :: route_request where
  "example_route_request =
     \<lparr>rq_listener = ''main'', rq_method = ''POST'', rq_path = ''/v1/gpt?x=1'', rq_host = None,
      rq_headers = [(''content-type'', ''application/json; charset=utf-8'')], rq_content_type = None, rq_websocket = None\<rparr>"

lemma example_routes_compile:
  "compile_match example_parsers (Some (default_match\<lparr>mc_path_prefix := Some '' /v1''\<rparr>)) example_label
     = Inr (rp_matcher example_prefix)"
  "compile_match example_parsers
     (Some (default_match\<lparr>mc_method := Some ''post'', mc_path_template := Some ''/v1/{model}'',
                          mc_content_types := [''Application/*; q=1'']\<rparr>)) example_label
     = Inr (rp_matcher example_chat)"
  by code_simp+

theorem route_selection_exact_witness:
  "route_table example_parsers [example_prefix, example_chat] = Inr [example_chat, example_prefix]
   \<and> match_route_request example_parsers [example_chat, example_prefix] example_route_request = Inr example_chat
   \<and> accepts example_parsers example_route_request example_prefix \<and> outranks example_chat example_prefix"
proof -
  have table: "route_table example_parsers [example_prefix, example_chat] = Inr [example_chat, example_prefix]" by code_simp
  have match: "match_route_request example_parsers [example_chat, example_prefix] example_route_request = Inr example_chat"
    by code_simp
  have both: "accepts example_parsers example_route_request example_prefix" by code_simp
  have ne: "example_prefix \<noteq> example_chat" by (simp add: example_prefix_def example_chat_def)
  have "list_all (\<lambda>r. \<exists>d label. compile_match example_parsers d label = Inr (rp_matcher r)) [example_prefix, example_chat]"
    using example_routes_compile by (simp only: list.pred_inject simp_thms) blast
  moreover have "distinct (keys (rq_headers example_route_request))" by (simp add: example_route_request_def)
  ultimately have "outranks example_chat example_prefix"
    using route_selection_exact [of example_parsers "[example_prefix, example_chat]" "[example_chat, example_prefix]"
        example_route_request example_chat] table match both ne by simp
  then show ?thesis using table match both by simp
qed

text \<open>C20. A request no route accepts is told why: nothing matches, or something matches but not for the
  method, or something matches for the method but not for the content type. This holds of any table.\<close>

theorem route_errors_exact:
  assumes "list_all (\<lambda>r. \<not> accepts hp req r) table"
  shows "match_route_request hp table req = Inl
    (if \<not> list_ex (structural_match hp req) table
     then NoMatch (rq_listener req) (route_path (rq_path req))
     else if \<not> list_ex (\<lambda>r. structural_match hp req r \<and> method_matches_route r (to_ascii_uppercase (rq_method req))) table
     then MethodNotAllowed (rq_listener req) (to_ascii_uppercase (rq_method req)) (route_path (rq_path req))
     else ContentTypeNotAllowed (rq_listener req)
            (case request_content_type req of None \<Rightarrow> [] | Some c \<Rightarrow> c) (route_path (rq_path req)))"
proof -
  have "find (accepts hp req) table = None" using assms by (auto simp: find_None_iff list_all_iff)
  from match_routes_Inl [OF this] show ?thesis by (simp add: match_route_request_def Let_def)
qed

theorem route_errors_exact_witness:
  "match_route_request example_parsers [example_chat] (example_route_request\<lparr>rq_method := ''get''\<rparr>)
     = Inl (MethodNotAllowed ''main'' ''GET'' ''/v1/gpt'')"
proof -
  have "list_all (\<lambda>r. \<not> accepts example_parsers (example_route_request\<lparr>rq_method := ''get''\<rparr>) r) [example_chat]"
    by code_simp
  from route_errors_exact [OF this] show ?thesis
    by (rule trans) code_simp
qed

end
