(* ===== verification/Spec2Isabelle.thy ===== *)
theory Spec2Isabelle
  imports Capabilities Retry Stream_Commitment Telemetry Lease_Properties Strategy_Properties Quota_Windows
    Connect_Properties Sse_Properties Drain_Properties Body_Properties
    Cache_Properties Cache_Keys Cache_Followers
    Route_Properties
begin

text \<open>
  \<^bold>\<open>Pooler: a verification of its routing, streaming and caching core.\<close>

  Pooler is a proxy in front of model providers. A request enters through a listener, is matched to a
  route, is given a target (a provider account with a model) by the selection registry, is forwarded,
  retried on another target when that is safe, and streamed back; responses may be cached; on shutdown
  the server drains. The crates are under \<open>src/crates\<close>. The model covers the parts that decide:

  \<^item> Contracts of \<open>pooler-core\<close>. \<open>Core_Errors\<close> (\<open>error.rs\<close>, \<open>limits.rs\<close>), \<open>Identifiers\<close> (\<open>id.rs\<close>)
    and \<open>Capabilities\<close> (\<open>capabilities.rs\<close>: the bitset implements finite sets of capabilities).
  \<^item> Failures of \<open>pooler-policy/src/lib.rs\<close>. \<open>Failure\<close> (classification), \<open>Retry\<close> (\<open>decide\<close>, and the
    attempt accounting of \<open>pooler-http/src/proxy.rs\<close>: retries are replay-safe and stay within
    attempts and budgets), \<open>Health\<close> (\<open>HealthRegistry\<close>: cooldowns never shorten, disabled stays disabled).
  \<^item> Quota. \<open>Quota\<close> (\<open>quota.rs\<close>: windows, classification, persistence), \<open>Quota_Table\<close> and \<open>Quota_Windows\<close>
    (the two tables of the registry keep the newest observation).
  \<^item> Selection, \<open>pooler-policy/src/selection.rs\<close>. \<open>Selection_Types\<close>, \<open>Model_Alias\<close> (resolution ends, tables
    stay acyclic), \<open>Bounded_Store\<close> and \<open>Telemetry\<close>, \<open>Registry\<close> (\<open>CredentialRegistry\<close> and its operations),
    \<open>Candidates\<close> (\<open>evaluate_candidates\<close>), \<open>Selection\<close> (\<open>choose_index\<close>, \<open>select_from_state\<close>,
    \<open>recover_quota\<close>). \<open>Registry_Invariant\<close> and \<open>Selection_Correct\<close> prove the invariant and what a grant
    means; \<open>Strategies\<close> and \<open>Strategy_Properties\<close> treat the strategies, fairness included. \<open>Leases\<close> is the
    registry with callers that hold reservations, as a step relation; \<open>Lease_Accounting\<close> and
    \<open>Lease_Properties\<close> prove exact in-flight counts, limits and quota rotation over every reachable state.
    \<open>Selection_Properties\<close> states soundness, completeness and affinity.
  \<^item> Routes, \<open>pooler-config\<close>. \<open>Route_Match\<close> has \<open>compile_match\<close>, \<open>detect_conflicts\<close>, \<open>compare_routes\<close>
    (\<open>lib.rs\<close>) and \<open>match_route_request\<close> (\<open>route_match.rs\<close>). \<open>Route_Properties\<close> composes them: the conflict
    check is sound for the matcher, so the selected route is the unique accepting one of highest rank.
    A request that repeats a header can match two routes the check holds to be disjoint; declaration
    order then decides, and the theorem excludes such requests.
  \<^item> Streams. \<open>Stream_Commitment\<close> (\<open>pooler-http/src/stream.rs\<close>), \<open>Connect\<close> and \<open>Connect_Properties\<close>
    (\<open>pooler-protocol/src/connect.rs\<close>), \<open>Sse\<close> and \<open>Sse_Properties\<close> (\<open>pooler-http/src/sse.rs\<close>): round
    trips over every fragmentation, and bounded buffers on every input.
  \<^item> Bodies and shutdown, \<open>pooler-http\<close>. \<open>Bodies\<close> (\<open>body.rs\<close>), \<open>Resources\<close> (\<open>resources.rs\<close>), \<open>Drain\<close>
    (\<open>drain.rs\<close>); \<open>Body_Properties\<close> and \<open>Drain_Properties\<close>: exact limits, exact counts, no lost wakeup.
  \<^item> Response cache, \<open>pooler-http/src/cache.rs\<close>. \<open>Http_Headers\<close>, \<open>Response_Cache\<close> (the operations),
    \<open>Cache_Store\<close> (occupancy, eviction), \<open>Cache_World\<close> (callers as a run), \<open>Cache_Properties\<close>,
    \<open>Cache_Keys\<close> (when keys tell requests apart), \<open>Cache_Followers\<close> (waiting for a shared fetch).

  \<^bold>\<open>Conventions.\<close> \<open>Pooler_Prelude\<close> holds the Rust types and the interfaces. Machine words are \<open>word\<close>s with
  saturation written out; lengths are natural numbers; a duration is a number of nanoseconds and an
  instant an integer; the \<open>i32\<close> priorities of routes are only compared and are integers. Strings are
  their UTF-8 bytes and maps the lists of their entries. A panic is \<open>None\<close>, an error the left of a sum.
  Clock readings are arguments and locks are never poisoned, so an operation under a lock is one step;
  where the code works without one (drain, followers) each atomic access is a step and a schedule is
  any list of them. SHA-256, gzip, the \<open>Notify\<close> of tokio, and the method, header-name and authority
  parsers of the \<open>http\<close> crate are parameters; what is assumed of them is a hypothesis of the theorem.

  \<^bold>\<open>Interfaces.\<close> \<open>total_comparator\<close> (comparison closures, also of the route sort), \<open>key_value_store\<close>,
  \<open>bounded_store\<close>, \<open>quota_table\<close> and \<open>preserved_by\<close> (invariants of schedules) are locales, each
  interpreted on the definitions of the model.

  \<^bold>\<open>Termination and bounds.\<close> Every function is total and no fuel is used where the code has a loop with a
  measure: decoders consume input, alias resolution visits each alias once, eviction removes an entry
  per round. Ceilings such as the 4096 affinity entries are the constants of the source. Helpers that
  translate a few lines of a larger definition, and constants, have no line reference of their own.

  \<^bold>\<open>Not modelled.\<close> Forwarding over hyper and tokio (\<open>proxy.rs\<close>, \<open>pool.rs\<close> and \<open>native.rs\<close> beyond the attempt
  accounting), where the behaviour is that of the runtime and the network; conversions between JSON
  dialects (\<open>pooler-protocol/src/lib.rs\<close>) and the provider adapters, which work on \<open>serde_json\<close> values;
  loading of configuration files and the validation of declarations other than route matchers;
  authentication, the persistent store, observability, the extension host, the model catalog, the
  server, the command line and the test kit, which are mostly input and output over external crates.
  Of a route plan only the fields that matching reads are kept.
\<close>

end
